theory Spec2Isabelle
  imports Complex_Main "HOL-Library.Word"
begin

unbundle bit_operations_syntax

section \<open>IEEE-754 binary interchange formats\<close>

text \<open>
  The kernels of \<^verbatim>\<open>volk_32f_sin_32f.h\<close> work on \<^verbatim>\<open>float\<close> lanes of SSE and AVX
  registers.  A lane is a 32-bit pattern: the source applies bitwise AND to lanes that hold
  floats and compares lanes that hold comparison masks, so the model keeps the bits and
  decodes them for each arithmetic instruction.  The arithmetic is the one of the default
  MXCSR state: round to nearest, ties to even, subnormals kept.

  A format has \<open>fb\<close> fraction bits and \<open>eb\<close> exponent bits (23 and 8 for \<^verbatim>\<open>float\<close>,
  52 and 11 for \<^verbatim>\<open>double\<close>).  The generic part computes on \<open>int\<close>; a finite value is
  \<open>Fin s m e\<close>, that is \<open>(-1)^s * m * 2^e\<close>.
\<close>

type_synonym f32 = "32 word"
type_synonym f64 = "64 word"

datatype fval = NaN | Inf bool | Fin bool int int

function bit_length :: "int \<Rightarrow> int" where
  "bit_length n = (if n \<le> 0 then 0 else 1 + bit_length (n div 2))"
  by pat_completeness auto
termination
  by (relation "measure nat") auto

definition fp_elo :: "nat \<Rightarrow> nat \<Rightarrow> int" where
  \<comment> \<open>the exponent of the last fraction bit of a subnormal: -149 for float, -1074 for double\<close>
  "fp_elo fb eb = 2 - 2 ^ (eb - 1) - int fb"

definition fp_inf_mag :: "nat \<Rightarrow> nat \<Rightarrow> int" where
  "fp_inf_mag fb eb = (2 ^ eb - 1) * 2 ^ fb"

definition fp_decode :: "nat \<Rightarrow> nat \<Rightarrow> int \<Rightarrow> fval" where
  "fp_decode fb eb x =
     (let s = ((x div 2 ^ (fb + eb)) mod 2 = 1);
          e = (x div 2 ^ fb) mod 2 ^ eb;
          f = x mod 2 ^ fb
      in if e = 2 ^ eb - 1 then (if f = 0 then Inf s else NaN)
         else if e = 0 then Fin s f (fp_elo fb eb)
         else Fin s (f + 2 ^ fb) (e - 1 + fp_elo fb eb))"

definition floor_log2_quot :: "int \<Rightarrow> int \<Rightarrow> int" where
  \<comment> \<open>\<open>\<lfloor>log2 (n / d)\<rfloor>\<close> for positive \<open>n\<close> and \<open>d\<close>\<close>
  "floor_log2_quot n d =
     (let l = bit_length n - bit_length d
      in if (if 0 \<le> l then d * 2 ^ nat l \<le> n else d \<le> n * 2 ^ nat (- l)) then l else l - 1)"

definition fp_round_mag :: "nat \<Rightarrow> nat \<Rightarrow> int \<Rightarrow> int \<Rightarrow> int \<Rightarrow> int" where
  \<comment> \<open>the magnitude bits of \<open>n / d * 2^k\<close> (\<open>0 \<le> n\<close>, \<open>0 < d\<close>) rounded to nearest, ties to
      even; a carry out of the fraction moves into the exponent field, and a value beyond
      the largest finite one becomes infinity\<close>
  "fp_round_mag fb eb n d k =
     (if n = 0 then 0
      else let ex = max (floor_log2_quot n d + k - int fb) (fp_elo fb eb);
               sh = k - ex;
               num = (if 0 \<le> sh then n * 2 ^ nat sh else n);
               den = (if 0 \<le> sh then d else d * 2 ^ nat (- sh));
               q = num div den;
               r = num mod den;
               q' = (if den < 2 * r \<or> (2 * r = den \<and> odd q) then q + 1 else q);
               pat = (ex - fp_elo fb eb) * 2 ^ fb + q'
           in if fp_inf_mag fb eb \<le> pat then fp_inf_mag fb eb else pat)"

definition fp_signed :: "nat \<Rightarrow> nat \<Rightarrow> bool \<Rightarrow> int \<Rightarrow> int" where
  "fp_signed fb eb s mag = (if s then 2 ^ (fb + eb) + mag else mag)"

fun fv_neg :: "fval \<Rightarrow> fval" where
  "fv_neg NaN = NaN"
| "fv_neg (Inf s) = Inf (\<not> s)"
| "fv_neg (Fin s m e) = Fin (\<not> s) m e"

definition sgn_int :: "bool \<Rightarrow> int \<Rightarrow> int" where
  "sgn_int s m = (if s then - m else m)"

subsection \<open>binary32\<close>

definition f32_decode :: "f32 \<Rightarrow> fval" where
  "f32_decode w = fp_decode 23 8 (uint w)"

definition f32_round :: "bool \<Rightarrow> int \<Rightarrow> int \<Rightarrow> int \<Rightarrow> f32" where
  "f32_round s n d k = word_of_int (fp_signed 23 8 s (fp_round_mag 23 8 n d k))"

definition f32_is_nan :: "f32 \<Rightarrow> bool" where
  "f32_is_nan w = (f32_decode w = NaN)"

definition f32_quiet :: "f32 \<Rightarrow> f32" where
  "f32_quiet w = w OR 0x00400000"

definition f32_default_nan :: f32 where
  \<comment> \<open>the "real indefinite" QNaN that x86 returns for an invalid operation\<close>
  "f32_default_nan = 0xFFC00000"

definition f32_inf :: "bool \<Rightarrow> f32" where
  "f32_inf s = (if s then 0xFF800000 else 0x7F800000)"

definition f32_zero :: "bool \<Rightarrow> f32" where
  "f32_zero s = (if s then 0x80000000 else 0)"

fun f32_add_fv :: "fval \<Rightarrow> fval \<Rightarrow> f32" where
  "f32_add_fv (Fin s1 m1 e1) (Fin s2 m2 e2) =
     (let e = min e1 e2;
          v = sgn_int s1 (m1 * 2 ^ nat (e1 - e)) + sgn_int s2 (m2 * 2 ^ nat (e2 - e))
      in if v = 0 then f32_zero (s1 \<and> s2) else f32_round (v < 0) \<bar>v\<bar> 1 e)"
| "f32_add_fv (Inf s1) (Inf s2) = (if s1 = s2 then f32_inf s1 else f32_default_nan)"
| "f32_add_fv (Inf s1) (Fin s2 m2 e2) = f32_inf s1"
| "f32_add_fv (Fin s1 m1 e1) (Inf s2) = f32_inf s2"
| "f32_add_fv NaN y = f32_default_nan"
| "f32_add_fv x NaN = f32_default_nan"

fun f32_mul_fv :: "fval \<Rightarrow> fval \<Rightarrow> f32" where
  "f32_mul_fv (Fin s1 m1 e1) (Fin s2 m2 e2) =
     (if m1 * m2 = 0 then f32_zero (s1 \<noteq> s2) else f32_round (s1 \<noteq> s2) (m1 * m2) 1 (e1 + e2))"
| "f32_mul_fv (Inf s1) (Inf s2) = f32_inf (s1 \<noteq> s2)"
| "f32_mul_fv (Inf s1) (Fin s2 m2 e2) = (if m2 = 0 then f32_default_nan else f32_inf (s1 \<noteq> s2))"
| "f32_mul_fv (Fin s1 m1 e1) (Inf s2) = (if m1 = 0 then f32_default_nan else f32_inf (s1 \<noteq> s2))"
| "f32_mul_fv NaN y = f32_default_nan"
| "f32_mul_fv x NaN = f32_default_nan"

fun f32_div_fv :: "fval \<Rightarrow> fval \<Rightarrow> f32" where
  "f32_div_fv (Fin s1 m1 e1) (Fin s2 m2 e2) =
     (if m2 = 0 then (if m1 = 0 then f32_default_nan else f32_inf (s1 \<noteq> s2))
      else if m1 = 0 then f32_zero (s1 \<noteq> s2)
      else f32_round (s1 \<noteq> s2) m1 m2 (e1 - e2))"
| "f32_div_fv (Inf s1) (Inf s2) = f32_default_nan"
| "f32_div_fv (Inf s1) (Fin s2 m2 e2) = f32_inf (s1 \<noteq> s2)"
| "f32_div_fv (Fin s1 m1 e1) (Inf s2) = f32_zero (s1 \<noteq> s2)"
| "f32_div_fv NaN y = f32_default_nan"
| "f32_div_fv x NaN = f32_default_nan"

text \<open>
  ADDPS, SUBPS, MULPS and DIVPS: a NaN operand wins, the first one if both are NaN, and comes
  back quieted; otherwise the exact result is rounded.
\<close>

definition f32_nan2 :: "(fval \<Rightarrow> fval \<Rightarrow> f32) \<Rightarrow> f32 \<Rightarrow> f32 \<Rightarrow> f32" where
  "f32_nan2 f a b =
     (if f32_is_nan a then f32_quiet a
      else if f32_is_nan b then f32_quiet b
      else f (f32_decode a) (f32_decode b))"

definition f32_add :: "f32 \<Rightarrow> f32 \<Rightarrow> f32" where
  "f32_add a b = f32_nan2 f32_add_fv a b"

definition f32_sub :: "f32 \<Rightarrow> f32 \<Rightarrow> f32" where
  "f32_sub a b = f32_nan2 (\<lambda>x y. f32_add_fv x (fv_neg y)) a b"

definition f32_mul :: "f32 \<Rightarrow> f32 \<Rightarrow> f32" where
  "f32_mul a b = f32_nan2 f32_mul_fv a b"

definition f32_div :: "f32 \<Rightarrow> f32 \<Rightarrow> f32" where
  "f32_div a b = f32_nan2 f32_div_fv a b"

text \<open>
  The fused multiply-add family rounds once.  \<open>fv_mul_exact\<close> is the unrounded product; the
  invalid product of zero and infinity is \<open>NaN\<close>.
\<close>

fun fv_mul_exact :: "fval \<Rightarrow> fval \<Rightarrow> fval" where
  "fv_mul_exact (Fin s1 m1 e1) (Fin s2 m2 e2) = Fin (s1 \<noteq> s2) (m1 * m2) (e1 + e2)"
| "fv_mul_exact (Inf s1) (Inf s2) = Inf (s1 \<noteq> s2)"
| "fv_mul_exact (Inf s1) (Fin s2 m2 e2) = (if m2 = 0 then NaN else Inf (s1 \<noteq> s2))"
| "fv_mul_exact (Fin s1 m1 e1) (Inf s2) = (if m1 = 0 then NaN else Inf (s1 \<noteq> s2))"
| "fv_mul_exact NaN y = NaN"
| "fv_mul_exact x NaN = NaN"

definition f32_nan3 :: "(fval \<Rightarrow> fval \<Rightarrow> fval \<Rightarrow> f32) \<Rightarrow> f32 \<Rightarrow> f32 \<Rightarrow> f32 \<Rightarrow> f32" where
  "f32_nan3 f a b c =
     (if f32_is_nan a then f32_quiet a
      else if f32_is_nan b then f32_quiet b
      else if f32_is_nan c then f32_quiet c
      else f (f32_decode a) (f32_decode b) (f32_decode c))"

definition f32_fmadd :: "f32 \<Rightarrow> f32 \<Rightarrow> f32 \<Rightarrow> f32" where
  \<comment> \<open>\<open>a * b + c\<close>\<close>
  "f32_fmadd a b c = f32_nan3 (\<lambda>x y z. f32_add_fv (fv_mul_exact x y) z) a b c"

definition f32_fmsub :: "f32 \<Rightarrow> f32 \<Rightarrow> f32 \<Rightarrow> f32" where
  \<comment> \<open>\<open>a * b - c\<close>\<close>
  "f32_fmsub a b c = f32_nan3 (\<lambda>x y z. f32_add_fv (fv_mul_exact x y) (fv_neg z)) a b c"

definition f32_fnmadd :: "f32 \<Rightarrow> f32 \<Rightarrow> f32 \<Rightarrow> f32" where
  \<comment> \<open>\<open>- (a * b) + c\<close>\<close>
  "f32_fnmadd a b c = f32_nan3 (\<lambda>x y z. f32_add_fv (fv_neg (fv_mul_exact x y)) z) a b c"

text \<open>
  SQRTPS.  The integer square root is found bit by bit; the root of the scaled mantissa has
  at least 28 bits, and one more bit records whether it is exact, so that rounding the
  pair to 24 bits is rounding the real square root.
\<close>

fun sqrt_bits :: "nat \<Rightarrow> int \<Rightarrow> int \<Rightarrow> int" where
  "sqrt_bits 0 n r = r"
| "sqrt_bits (Suc i) n r =
     (let c = r + 2 ^ i in if c * c \<le> n then sqrt_bits i n c else sqrt_bits i n r)"

definition isqrt :: "int \<Rightarrow> int" where
  "isqrt n = sqrt_bits (nat (bit_length n)) n 0"

definition f32_sqrt :: "f32 \<Rightarrow> f32" where
  "f32_sqrt a =
     (if f32_is_nan a then f32_quiet a
      else case f32_decode a of
             NaN \<Rightarrow> f32_default_nan
           | Inf s \<Rightarrow> (if s then f32_default_nan else a)
           | Fin s m e \<Rightarrow>
               (if m = 0 then a
                else if s then f32_default_nan
                else let j = (if even (e - 54) then 54 else 55);
                         n = m * 2 ^ nat j;
                         r = isqrt n
                     in f32_round False (2 * r + (if r * r = n then 0 else 1)) 1 ((e - j) div 2 - 1)))"

text \<open>
  ROUNDPS towards minus infinity (\<^verbatim>\<open>_mm_floor_ps\<close>), CVTPS2DQ (round to nearest even; the
  "integer indefinite" \<^verbatim>\<open>0x80000000\<close> for NaN, infinity and values outside of
  \<^verbatim>\<open>int32\<close>) and CVTDQ2PS.
\<close>

definition rne_div :: "int \<Rightarrow> int \<Rightarrow> int" where
  "rne_div n d =
     (let q = n div d; r = n mod d
      in if d < 2 * r \<or> (2 * r = d \<and> odd q) then q + 1 else q)"

definition f32_floor :: "f32 \<Rightarrow> f32" where
  "f32_floor a =
     (if f32_is_nan a then f32_quiet a
      else case f32_decode a of
             NaN \<Rightarrow> f32_default_nan
           | Inf s \<Rightarrow> a
           | Fin s m e \<Rightarrow>
               (if 0 \<le> e \<or> m = 0 then a
                else let q = sgn_int s m div 2 ^ nat (- e)
                     in if q = 0 then f32_zero s else f32_round (q < 0) \<bar>q\<bar> 1 0))"

definition f32_to_int32 :: "f32 \<Rightarrow> 32 word" where
  "f32_to_int32 a =
     (case f32_decode a of
        NaN \<Rightarrow> 0x80000000
      | Inf s \<Rightarrow> 0x80000000
      | Fin s m e \<Rightarrow>
          (let v = sgn_int s (if 0 \<le> e then m * 2 ^ nat e else rne_div m (2 ^ nat (- e)))
           in if - (2 ^ 31) \<le> v \<and> v < 2 ^ 31 then word_of_int v else 0x80000000))"

definition int32_to_f32 :: "32 word \<Rightarrow> f32" where
  "int32_to_f32 w = (let v = sint w in if v = 0 then 0 else f32_round (v < 0) \<bar>v\<bar> 1 0)"

text \<open>
  CMPPS.  Two lanes are less, equal, greater or unordered (one of them is NaN; the two
  zeros are equal).  The immediate selects the predicate: 1 is \<^verbatim>\<open>LT_OS\<close>, the predicate
  of \<^verbatim>\<open>_mm_cmplt_ps\<close>; 4 is \<^verbatim>\<open>NEQ_UQ\<close>, the predicate of \<^verbatim>\<open>_mm_cmpneq_ps\<close>, true
  when the lanes are unordered.  The result lane is all ones or all zeros.
\<close>

datatype fcmp = CLt | CEq | CGt | CUn

fun fv_compare :: "fval \<Rightarrow> fval \<Rightarrow> fcmp" where
  "fv_compare (Fin s1 m1 e1) (Fin s2 m2 e2) =
     (let e = min e1 e2;
          v1 = sgn_int s1 (m1 * 2 ^ nat (e1 - e));
          v2 = sgn_int s2 (m2 * 2 ^ nat (e2 - e))
      in if v1 < v2 then CLt else if v1 = v2 then CEq else CGt)"
| "fv_compare (Inf s1) (Inf s2) = (if s1 = s2 then CEq else if s1 then CLt else CGt)"
| "fv_compare (Inf s1) (Fin s2 m2 e2) = (if s1 then CLt else CGt)"
| "fv_compare (Fin s1 m1 e1) (Inf s2) = (if s2 then CGt else CLt)"
| "fv_compare NaN y = CUn"
| "fv_compare x NaN = CUn"

definition f32_compare :: "f32 \<Rightarrow> f32 \<Rightarrow> fcmp" where
  "f32_compare a b = fv_compare (f32_decode a) (f32_decode b)"

definition cmp_pred :: "nat \<Rightarrow> fcmp \<Rightarrow> bool" where
  "cmp_pred imm c =
     (let p = imm mod 16
      in if p = 0 then c = CEq
         else if p = 1 then c = CLt
         else if p = 2 then c = CLt \<or> c = CEq
         else if p = 3 then c = CUn
         else if p = 4 then c \<noteq> CEq
         else if p = 5 then c \<noteq> CLt
         else if p = 6 then c = CGt \<or> c = CUn
         else if p = 7 then c \<noteq> CUn
         else if p = 8 then c = CEq \<or> c = CUn
         else if p = 9 then c = CLt \<or> c = CUn
         else if p = 10 then c \<noteq> CGt
         else if p = 11 then False
         else if p = 12 then c = CLt \<or> c = CGt
         else if p = 13 then c = CGt \<or> c = CEq
         else if p = 14 then c = CGt
         else True)"

definition f32_mask :: "bool \<Rightarrow> f32" where
  "f32_mask b = (if b then 0xFFFFFFFF else 0)"

definition f32_cmp :: "nat \<Rightarrow> f32 \<Rightarrow> f32 \<Rightarrow> f32" where
  "f32_cmp imm a b = f32_mask (cmp_pred imm (f32_compare a b))"

text \<open>
  The finite values of binary32 are the pairs of a significand \<open>m\<close> and an exponent \<open>e\<close>,
  standing for \<open>m * 2 ^ e\<close>, that \<open>f32_decode\<close> returns: \<open>canonical m e\<close>.  \<open>f32_encode\<close> is
  the bit pattern of a sign and such a pair.
\<close>

definition canonical :: "int \<Rightarrow> int \<Rightarrow> bool" where
  "canonical m e \<longleftrightarrow> 0 \<le> m \<and> m < 2 ^ 24 \<and> - 149 \<le> e \<and> e \<le> 104 \<and> (m < 2 ^ 23 \<longrightarrow> e = - 149)"

definition f32_encode :: "bool \<Rightarrow> int \<Rightarrow> int \<Rightarrow> f32" where
  "f32_encode s m e = word_of_int (fp_signed 23 8 s ((e + 149) * 8388608 + m))"

subsection \<open>binary64 and the conversions of C\<close>

text \<open>
  The scalar loops call \<^verbatim>\<open>sin\<close> of \<^verbatim>\<open>math.h\<close>: the \<^verbatim>\<open>float\<close> argument is converted to
  \<^verbatim>\<open>double\<close> (CVTSS2SD, exact) and the \<^verbatim>\<open>double\<close> result is rounded to \<^verbatim>\<open>float\<close> by the
  assignment (CVTSD2SS).  A literal without suffix is a \<^verbatim>\<open>double\<close>, rounded from its decimal
  expansion, and is rounded again when it is passed as a \<^verbatim>\<open>float\<close> argument.
\<close>

definition f64_decode :: "f64 \<Rightarrow> fval" where
  "f64_decode w = fp_decode 52 11 (uint w)"

definition f64_round :: "bool \<Rightarrow> int \<Rightarrow> int \<Rightarrow> int \<Rightarrow> f64" where
  "f64_round s n d k = word_of_int (fp_signed 52 11 s (fp_round_mag 52 11 n d k))"

definition f32_to_f64 :: "f32 \<Rightarrow> f64" where
  "f32_to_f64 a =
     (case f32_decode a of
        NaN \<Rightarrow> push_bit 32 (ucast (a AND 0x80000000)) OR 0x7FF8000000000000
                 OR push_bit 29 (ucast (a AND 0x007FFFFF))
      | Inf s \<Rightarrow> (if s then 0xFFF0000000000000 else 0x7FF0000000000000)
      | Fin s m e \<Rightarrow> f64_round s m 1 e)"

definition f64_to_f32 :: "f64 \<Rightarrow> f32" where
  "f64_to_f32 d =
     (case f64_decode d of
        NaN \<Rightarrow> ucast (drop_bit 32 (d AND 0x8000000000000000)) OR 0x7FC00000
                 OR ucast (drop_bit 29 (d AND 0x000FFFFFFFFFFFFF))
      | Inf s \<Rightarrow> f32_inf s
      | Fin s m e \<Rightarrow> f32_round s m 1 e)"

definition double_lit :: "int \<Rightarrow> int \<Rightarrow> f64" where
  \<comment> \<open>the \<^verbatim>\<open>double\<close> literal with the decimal value \<open>n / d\<close>\<close>
  "double_lit n d = f64_round False n d 0"

definition float_of_lit :: "int \<Rightarrow> int \<Rightarrow> f32" where
  \<comment> \<open>a \<^verbatim>\<open>double\<close> literal passed where a \<^verbatim>\<open>float\<close> is expected, as in \<^verbatim>\<open>_mm_set1_ps(8.0)\<close>\<close>
  "float_of_lit n d = f64_to_f32 (double_lit n d)"

definition floatf_lit :: "int \<Rightarrow> int \<Rightarrow> f32" where
  \<comment> \<open>a literal with the suffix \<^verbatim>\<open>f\<close>, as in \<^verbatim>\<open>2.0f\<close>\<close>
  "floatf_lit n d = f32_round False n d 0"

section \<open>SSE and AVX intrinsics\<close>

text \<open>
  A register is the list of its 32-bit lanes, lowest first: four lanes for \<^verbatim>\<open>__m128\<close> and
  \<^verbatim>\<open>__m128i\<close>, eight for \<^verbatim>\<open>__m256\<close> and \<^verbatim>\<open>__m256i\<close>.  Every instruction used by the
  kernels works lane by lane.
\<close>

type_synonym m128 = "f32 list"
type_synonym m128i = "32 word list"
type_synonym m256 = "f32 list"
type_synonym m256i = "32 word list"

definition map3 :: "('a \<Rightarrow> 'b \<Rightarrow> 'c \<Rightarrow> 'd) \<Rightarrow> 'a list \<Rightarrow> 'b list \<Rightarrow> 'c list \<Rightarrow> 'd list" where
  "map3 f a b c = map (\<lambda>(x, y, z). f x y z) (zip a (zip b c))"

definition mm_set1_ps :: "f32 \<Rightarrow> m128" where "mm_set1_ps c = replicate 4 c"
definition mm_setzero_ps :: m128 where "mm_setzero_ps = replicate 4 0"
definition mm_set1_epi32 :: "32 word \<Rightarrow> m128i" where "mm_set1_epi32 c = replicate 4 c"
definition mm_add_ps :: "m128 \<Rightarrow> m128 \<Rightarrow> m128" where "mm_add_ps a b = map2 f32_add a b"
definition mm_sub_ps :: "m128 \<Rightarrow> m128 \<Rightarrow> m128" where "mm_sub_ps a b = map2 f32_sub a b"
definition mm_mul_ps :: "m128 \<Rightarrow> m128 \<Rightarrow> m128" where "mm_mul_ps a b = map2 f32_mul a b"
definition mm_div_ps :: "m128 \<Rightarrow> m128 \<Rightarrow> m128" where "mm_div_ps a b = map2 f32_div a b"
definition mm_sqrt_ps :: "m128 \<Rightarrow> m128" where "mm_sqrt_ps a = map f32_sqrt a"
definition mm_floor_ps :: "m128 \<Rightarrow> m128" where "mm_floor_ps a = map f32_floor a"
definition mm_and_ps :: "m128 \<Rightarrow> m128 \<Rightarrow> m128" where "mm_and_ps a b = map2 (AND) a b"
definition mm_cmplt_ps :: "m128 \<Rightarrow> m128 \<Rightarrow> m128" where "mm_cmplt_ps a b = map2 (f32_cmp 1) a b"
definition mm_cmpneq_ps :: "m128 \<Rightarrow> m128 \<Rightarrow> m128" where "mm_cmpneq_ps a b = map2 (f32_cmp 4) a b"
definition mm_cvtps_epi32 :: "m128 \<Rightarrow> m128i" where "mm_cvtps_epi32 a = map f32_to_int32 a"
definition mm_cvtepi32_ps :: "m128i \<Rightarrow> m128" where "mm_cvtepi32_ps a = map int32_to_f32 a"
definition mm_add_epi32 :: "m128i \<Rightarrow> m128i \<Rightarrow> m128i" where "mm_add_epi32 a b = map2 (+) a b"
definition mm_and_si128 :: "m128i \<Rightarrow> m128i \<Rightarrow> m128i" where "mm_and_si128 a b = map2 (AND) a b"

definition mm256_set1_ps :: "f32 \<Rightarrow> m256" where "mm256_set1_ps c = replicate 8 c"
definition mm256_setzero_ps :: m256 where "mm256_setzero_ps = replicate 8 0"
definition mm256_set1_epi32 :: "32 word \<Rightarrow> m256i" where "mm256_set1_epi32 c = replicate 8 c"
definition mm256_add_ps :: "m256 \<Rightarrow> m256 \<Rightarrow> m256" where "mm256_add_ps a b = map2 f32_add a b"
definition mm256_sub_ps :: "m256 \<Rightarrow> m256 \<Rightarrow> m256" where "mm256_sub_ps a b = map2 f32_sub a b"
definition mm256_mul_ps :: "m256 \<Rightarrow> m256 \<Rightarrow> m256" where "mm256_mul_ps a b = map2 f32_mul a b"
definition mm256_div_ps :: "m256 \<Rightarrow> m256 \<Rightarrow> m256" where "mm256_div_ps a b = map2 f32_div a b"
definition mm256_sqrt_ps :: "m256 \<Rightarrow> m256" where "mm256_sqrt_ps a = map f32_sqrt a"
definition mm256_floor_ps :: "m256 \<Rightarrow> m256" where "mm256_floor_ps a = map f32_floor a"
definition mm256_and_ps :: "m256 \<Rightarrow> m256 \<Rightarrow> m256" where "mm256_and_ps a b = map2 (AND) a b"
definition mm256_cmp_ps :: "m256 \<Rightarrow> m256 \<Rightarrow> nat \<Rightarrow> m256" where "mm256_cmp_ps a b imm = map2 (f32_cmp imm) a b"
definition mm256_cvtps_epi32 :: "m256 \<Rightarrow> m256i" where "mm256_cvtps_epi32 a = map f32_to_int32 a"
definition mm256_cvtepi32_ps :: "m256i \<Rightarrow> m256" where "mm256_cvtepi32_ps a = map int32_to_f32 a"
definition mm256_add_epi32 :: "m256i \<Rightarrow> m256i \<Rightarrow> m256i" where "mm256_add_epi32 a b = map2 (+) a b"
definition mm256_and_si256 :: "m256i \<Rightarrow> m256i \<Rightarrow> m256i" where "mm256_and_si256 a b = map2 (AND) a b"
definition mm256_fmadd_ps :: "m256 \<Rightarrow> m256 \<Rightarrow> m256 \<Rightarrow> m256" where "mm256_fmadd_ps a b c = map3 f32_fmadd a b c"
definition mm256_fmsub_ps :: "m256 \<Rightarrow> m256 \<Rightarrow> m256 \<Rightarrow> m256" where "mm256_fmsub_ps a b c = map3 f32_fmsub a b c"
definition mm256_fnmadd_ps :: "m256 \<Rightarrow> m256 \<Rightarrow> m256 \<Rightarrow> m256" where "mm256_fnmadd_ps a b c = map3 f32_fnmadd a b c"

subsection \<open>Memory\<close>

text \<open>
  A \<^verbatim>\<open>float*\<close> argument is the byte address it holds and the floats that the caller
  allocated from there on; the input and the output buffer do not overlap.  A pointer
  into a buffer is the index of its element.  An access beyond the buffer, and an aligned
  load or store (MOVAPS, VMOVAPS) at an address that is not a multiple of the register
  size, do not return: the result is \<open>None\<close>.
\<close>

record float_buf =
  base :: nat
  cells :: "f32 list"

definition store_lanes :: "nat \<Rightarrow> f32 list \<Rightarrow> nat \<Rightarrow> f32 list \<Rightarrow> f32 list" where
  "store_lanes w mem p v =
     map (\<lambda>i. if p \<le> i \<and> i < p + w then v ! (i - p) else mem ! i) [0..<length mem]"

definition mm_loadu_ps :: "f32 list \<Rightarrow> nat \<Rightarrow> m128 option" where
  "mm_loadu_ps mem p = (if p + 4 \<le> length mem then Some (take 4 (drop p mem)) else None)"

definition mm_load_ps :: "nat \<Rightarrow> f32 list \<Rightarrow> nat \<Rightarrow> m128 option" where
  "mm_load_ps b mem p = (if (b + 4 * p) mod 16 = 0 then mm_loadu_ps mem p else None)"

definition mm_storeu_ps :: "f32 list \<Rightarrow> nat \<Rightarrow> m128 \<Rightarrow> f32 list option" where
  "mm_storeu_ps mem p v = (if p + 4 \<le> length mem then Some (store_lanes 4 mem p v) else None)"

definition mm_store_ps :: "nat \<Rightarrow> f32 list \<Rightarrow> nat \<Rightarrow> m128 \<Rightarrow> f32 list option" where
  "mm_store_ps b mem p v = (if (b + 4 * p) mod 16 = 0 then mm_storeu_ps mem p v else None)"

definition mm256_loadu_ps :: "f32 list \<Rightarrow> nat \<Rightarrow> m256 option" where
  "mm256_loadu_ps mem p = (if p + 8 \<le> length mem then Some (take 8 (drop p mem)) else None)"

definition mm256_load_ps :: "nat \<Rightarrow> f32 list \<Rightarrow> nat \<Rightarrow> m256 option" where
  "mm256_load_ps b mem p = (if (b + 4 * p) mod 32 = 0 then mm256_loadu_ps mem p else None)"

definition mm256_storeu_ps :: "f32 list \<Rightarrow> nat \<Rightarrow> m256 \<Rightarrow> f32 list option" where
  "mm256_storeu_ps mem p v = (if p + 8 \<le> length mem then Some (store_lanes 8 mem p v) else None)"

definition mm256_store_ps :: "nat \<Rightarrow> f32 list \<Rightarrow> nat \<Rightarrow> m256 \<Rightarrow> f32 list option" where
  "mm256_store_ps b mem p v = (if (b + 4 * p) mod 32 = 0 then mm256_storeu_ps mem p v else None)"

section \<open>The kernels of \<^verbatim>\<open>volk_32f_sin_32f.h\<close>\<close>

subsection \<open>The two loops\<close>

text \<open>
  Every vector kernel is the loop
  \<^verbatim>\<open>for(;number < points; number++) { aVal = load(aPtr); ...; store(bPtr, sine); aPtr += W; bPtr += W; }\<close>
  followed by \<^verbatim>\<open>number = points * W; for(;number < num_points; number++) *bPtr++ = sin(*aPtr++);\<close>.
  The counters are \<^verbatim>\<open>unsigned int\<close>.  The loops differ in the load, the store, the
  body between them and the lane count, which are parameters here; the bodies are
  transcribed kernel by kernel below.  \<open>libm_sin\<close> is \<^verbatim>\<open>sin\<close> of the C library, which
  is not part of the repository.
\<close>

function vector_loop ::
  "(nat \<Rightarrow> f32 list option) \<Rightarrow> (f32 list \<Rightarrow> nat \<Rightarrow> f32 list \<Rightarrow> f32 list option) \<Rightarrow>
   (f32 list \<Rightarrow> f32 list) \<Rightarrow> nat \<Rightarrow> 32 word \<Rightarrow> 32 word \<Rightarrow> nat \<Rightarrow> nat \<Rightarrow> f32 list \<Rightarrow>
   (nat \<times> nat \<times> f32 list) option" where
  "vector_loop load store body w points number aPtr bPtr mem =
     (if number < points then
        (case load aPtr of
           None \<Rightarrow> None
         | Some aVal \<Rightarrow>
             (case store mem bPtr (body aVal) of
                None \<Rightarrow> None
              | Some mem' \<Rightarrow>
                  vector_loop load store body w points (number + 1) (aPtr + w) (bPtr + w) mem'))
      else Some (aPtr, bPtr, mem))"
  by pat_completeness auto
termination
proof (relation "measure (\<lambda>(load, store, body, w, points, number, aPtr, bPtr, mem).
                    unat points - unat number)")
  show "wf (measure (\<lambda>(load, store, body, w, points, number, aPtr, bPtr, mem).
                    unat points - unat number))"
    by simp
next
  fix load :: "nat \<Rightarrow> f32 list option"
    and store :: "f32 list \<Rightarrow> nat \<Rightarrow> f32 list \<Rightarrow> f32 list option"
    and body :: "f32 list \<Rightarrow> f32 list"
    and w :: nat and points number :: "32 word" and aPtr bPtr :: nat
    and mem x2 x2a :: "f32 list"
  assume lt: "number < points"
  then have less: "unat number < unat points"
    by (simp add: word_less_nat_alt)
  moreover have "unat points < 2 ^ 32"
    using unsigned_less [of points, where ?'a = nat] by simp
  ultimately have "unat (number + 1) = Suc (unat number)"
    by (simp add: unat_word_ariths)
  with less show "((load, store, body, w, points, number + 1, aPtr + w, bPtr + w, x2a),
          (load, store, body, w, points, number, aPtr, bPtr, mem))
         \<in> measure (\<lambda>(load, store, body, w, points, number, aPtr, bPtr, mem).
                    unat points - unat number)"
    by simp
qed

declare vector_loop.simps [simp del]

definition c_sin :: "(f64 \<Rightarrow> f64) \<Rightarrow> f32 \<Rightarrow> f32" where
  \<comment> \<open>\<^verbatim>\<open>(float) sin((double) x)\<close>, the right-hand side of \<^verbatim>\<open>*bPtr++ = sin(*aPtr++)\<close>\<close>
  "c_sin libm_sin x = f64_to_f32 (libm_sin (f32_to_f64 x))"

function scalar_loop ::
  "(f64 \<Rightarrow> f64) \<Rightarrow> f32 list \<Rightarrow> 32 word \<Rightarrow> 32 word \<Rightarrow> nat \<Rightarrow> nat \<Rightarrow> f32 list \<Rightarrow> f32 list option" where
  "scalar_loop libm_sin amem num_points number aPtr bPtr mem =
     (if number < num_points then
        (if aPtr < length amem \<and> bPtr < length mem
         then scalar_loop libm_sin amem num_points (number + 1) (aPtr + 1) (bPtr + 1)
                (mem[bPtr := c_sin libm_sin (amem ! aPtr)])
         else None)
      else Some mem)"
  by pat_completeness auto
termination
proof (relation "measure (\<lambda>(libm_sin, amem, num_points, number, aPtr, bPtr, mem).
                    unat num_points - unat number)")
  show "wf (measure (\<lambda>(libm_sin, amem, num_points, number, aPtr, bPtr, mem).
                    unat num_points - unat number))"
    by simp
next
  fix libm_sin :: "f64 \<Rightarrow> f64" and amem mem :: "f32 list"
    and num_points number :: "32 word" and aPtr bPtr :: nat
  assume lt: "number < num_points"
  then have less: "unat number < unat num_points"
    by (simp add: word_less_nat_alt)
  moreover have "unat num_points < 2 ^ 32"
    using unsigned_less [of num_points, where ?'a = nat] by simp
  ultimately have "unat (number + 1) = Suc (unat number)"
    by (simp add: unat_word_ariths)
  with less show "((libm_sin, amem, num_points, number + 1, aPtr + 1, bPtr + 1,
           mem[bPtr := c_sin libm_sin (amem ! aPtr)]),
          (libm_sin, amem, num_points, number, aPtr, bPtr, mem))
         \<in> measure (\<lambda>(libm_sin, amem, num_points, number, aPtr, bPtr, mem).
                    unat num_points - unat number)"
    by simp
qed

declare scalar_loop.simps [simp del]

subsection \<open>\<^verbatim>\<open>volk_32f_sin_32f_a_avx2_fma\<close> (lines 83-152)\<close>

definition a_avx2_fma_reduce :: "m256 \<Rightarrow> m256 \<times> m256i" where
  "a_avx2_fma_reduce aVal =
     (let m4pi = mm256_set1_ps (float_of_lit 1273239545 1000000000);
          pio4A = mm256_set1_ps (float_of_lit 78515625 100000000);
          pio4B = mm256_set1_ps (float_of_lit 241876 1000000000);
          ftwos = mm256_set1_ps (float_of_lit 2 1);
          fzeroes = mm256_setzero_ps;
          ones = mm256_set1_epi32 1;
          s = mm256_sub_ps aVal (mm256_and_ps (mm256_mul_ps aVal ftwos) (mm256_cmp_ps aVal fzeroes 1));
          q = mm256_cvtps_epi32 (mm256_floor_ps (mm256_mul_ps s m4pi));
          r = mm256_add_epi32 q (mm256_and_si256 q ones);
          s = mm256_fnmadd_ps (mm256_cvtepi32_ps r) pio4A s;
          s = mm256_fnmadd_ps (mm256_cvtepi32_ps r) pio4B s
      in (s, q))"

function a_avx2_fma_for_i :: "m256 \<Rightarrow> nat \<Rightarrow> m256 \<Rightarrow> m256" where
  "a_avx2_fma_for_i ffours i s =
     (if i < 3 then a_avx2_fma_for_i ffours (i + 1) (mm256_mul_ps s (mm256_sub_ps ffours s)) else s)"
  by pat_completeness auto
termination
  by (relation "measure (\<lambda>(ffours, i, s). 3 - i)") auto

declare a_avx2_fma_for_i.simps [simp del]

definition a_avx2_fma_poly :: "m256 \<Rightarrow> m256 \<times> m256" where
  "a_avx2_fma_poly s =
     (let ffours = mm256_set1_ps (float_of_lit 4 1);
          ftwos = mm256_set1_ps (float_of_lit 2 1);
          fones = mm256_set1_ps (float_of_lit 1 1);
          cp1 = mm256_set1_ps (float_of_lit 1 1);
          cp2 = mm256_set1_ps (float_of_lit 83333333 1000000000);
          cp3 = mm256_set1_ps (float_of_lit 2777778 1000000000);
          cp4 = mm256_set1_ps (float_of_lit 49603 1000000000);
          cp5 = mm256_set1_ps (float_of_lit 551 1000000000);
          s = mm256_div_ps s (mm256_set1_ps (float_of_lit 8 1));
          s = mm256_mul_ps s s;
          s = mm256_mul_ps (mm256_fmadd_ps (mm256_fmsub_ps (mm256_fmadd_ps (mm256_fmsub_ps s cp5 cp4) s cp3) s cp2) s cp1) s;
          s = a_avx2_fma_for_i ffours 0 s;
          s = mm256_div_ps s ftwos;
          sine = mm256_sqrt_ps (mm256_mul_ps (mm256_sub_ps ftwos s) s);
          cosine = mm256_sub_ps fones s
      in (sine, cosine))"

definition a_avx2_fma_fixup :: "m256 \<Rightarrow> m256i \<Rightarrow> m256 \<Rightarrow> m256 \<Rightarrow> m256" where
  "a_avx2_fma_fixup aVal q sine cosine =
     (let fzeroes = mm256_setzero_ps;
          ones = mm256_set1_epi32 1;
          twos = mm256_set1_epi32 2;
          fours = mm256_set1_epi32 4;
          condition1 = mm256_cmp_ps (mm256_cvtepi32_ps (mm256_and_si256 (mm256_add_epi32 q ones) twos)) fzeroes 4;
          condition2 = mm256_cmp_ps
                 (mm256_cmp_ps (mm256_cvtepi32_ps (mm256_and_si256 q fours)) fzeroes 4)
                 (mm256_cmp_ps aVal fzeroes 1) 4;
          sine = mm256_add_ps sine (mm256_and_ps (mm256_sub_ps cosine sine) condition1);
          sine = mm256_sub_ps sine (mm256_and_ps (mm256_mul_ps sine (mm256_set1_ps (floatf_lit 2 1))) condition2)
      in sine)"

definition a_avx2_fma_body :: "m256 \<Rightarrow> m256" where
  "a_avx2_fma_body aVal =
     (let (s, q) = a_avx2_fma_reduce aVal;
          (sine, cosine) = a_avx2_fma_poly s
      in a_avx2_fma_fixup aVal q sine cosine)"

definition volk_32f_sin_32f_a_avx2_fma :: "(f64 \<Rightarrow> f64) \<Rightarrow> float_buf \<Rightarrow> float_buf \<Rightarrow> 32 word \<Rightarrow> f32 list option" where
  "volk_32f_sin_32f_a_avx2_fma libm_sin bVector aVector num_points =
     (let eighthPoints = num_points div 8
      in case vector_loop (mm256_load_ps (base aVector) (cells aVector)) (mm256_store_ps (base bVector))
                a_avx2_fma_body 8 eighthPoints 0 0 0 (cells bVector) of
           None \<Rightarrow> None
         | Some (aPtr, bPtr, mem) \<Rightarrow>
             scalar_loop libm_sin (cells aVector) num_points (eighthPoints * 8) aPtr bPtr mem)"

subsection \<open>\<^verbatim>\<open>volk_32f_sin_32f_a_avx2\<close> (lines 159-228)\<close>

definition a_avx2_reduce :: "m256 \<Rightarrow> m256 \<times> m256i" where
  "a_avx2_reduce aVal =
     (let m4pi = mm256_set1_ps (float_of_lit 1273239545 1000000000);
          pio4A = mm256_set1_ps (float_of_lit 78515625 100000000);
          pio4B = mm256_set1_ps (float_of_lit 241876 1000000000);
          ftwos = mm256_set1_ps (float_of_lit 2 1);
          fzeroes = mm256_setzero_ps;
          ones = mm256_set1_epi32 1;
          s = mm256_sub_ps aVal (mm256_and_ps (mm256_mul_ps aVal ftwos) (mm256_cmp_ps aVal fzeroes 1));
          q = mm256_cvtps_epi32 (mm256_floor_ps (mm256_mul_ps s m4pi));
          r = mm256_add_epi32 q (mm256_and_si256 q ones);
          s = mm256_sub_ps s (mm256_mul_ps (mm256_cvtepi32_ps r) pio4A);
          s = mm256_sub_ps s (mm256_mul_ps (mm256_cvtepi32_ps r) pio4B)
      in (s, q))"

function a_avx2_for_i :: "m256 \<Rightarrow> nat \<Rightarrow> m256 \<Rightarrow> m256" where
  "a_avx2_for_i ffours i s =
     (if i < 3 then a_avx2_for_i ffours (i + 1) (mm256_mul_ps s (mm256_sub_ps ffours s)) else s)"
  by pat_completeness auto
termination
  by (relation "measure (\<lambda>(ffours, i, s). 3 - i)") auto

declare a_avx2_for_i.simps [simp del]

definition a_avx2_poly :: "m256 \<Rightarrow> m256 \<times> m256" where
  "a_avx2_poly s =
     (let ffours = mm256_set1_ps (float_of_lit 4 1);
          ftwos = mm256_set1_ps (float_of_lit 2 1);
          fones = mm256_set1_ps (float_of_lit 1 1);
          cp1 = mm256_set1_ps (float_of_lit 1 1);
          cp2 = mm256_set1_ps (float_of_lit 83333333 1000000000);
          cp3 = mm256_set1_ps (float_of_lit 2777778 1000000000);
          cp4 = mm256_set1_ps (float_of_lit 49603 1000000000);
          cp5 = mm256_set1_ps (float_of_lit 551 1000000000);
          s = mm256_div_ps s (mm256_set1_ps (float_of_lit 8 1));
          s = mm256_mul_ps s s;
          s = mm256_mul_ps (mm256_add_ps (mm256_mul_ps (mm256_sub_ps (mm256_mul_ps (mm256_add_ps (mm256_mul_ps
                 (mm256_sub_ps (mm256_mul_ps s cp5) cp4) s) cp3) s) cp2) s) cp1) s;
          s = a_avx2_for_i ffours 0 s;
          s = mm256_div_ps s ftwos;
          sine = mm256_sqrt_ps (mm256_mul_ps (mm256_sub_ps ftwos s) s);
          cosine = mm256_sub_ps fones s
      in (sine, cosine))"

definition a_avx2_fixup :: "m256 \<Rightarrow> m256i \<Rightarrow> m256 \<Rightarrow> m256 \<Rightarrow> m256" where
  "a_avx2_fixup aVal q sine cosine =
     (let fzeroes = mm256_setzero_ps;
          ones = mm256_set1_epi32 1;
          twos = mm256_set1_epi32 2;
          fours = mm256_set1_epi32 4;
          condition1 = mm256_cmp_ps (mm256_cvtepi32_ps (mm256_and_si256 (mm256_add_epi32 q ones) twos)) fzeroes 4;
          condition2 = mm256_cmp_ps
                 (mm256_cmp_ps (mm256_cvtepi32_ps (mm256_and_si256 q fours)) fzeroes 4)
                 (mm256_cmp_ps aVal fzeroes 1) 4;
          sine = mm256_add_ps sine (mm256_and_ps (mm256_sub_ps cosine sine) condition1);
          sine = mm256_sub_ps sine (mm256_and_ps (mm256_mul_ps sine (mm256_set1_ps (floatf_lit 2 1))) condition2)
      in sine)"

definition a_avx2_body :: "m256 \<Rightarrow> m256" where
  "a_avx2_body aVal =
     (let (s, q) = a_avx2_reduce aVal;
          (sine, cosine) = a_avx2_poly s
      in a_avx2_fixup aVal q sine cosine)"

definition volk_32f_sin_32f_a_avx2 :: "(f64 \<Rightarrow> f64) \<Rightarrow> float_buf \<Rightarrow> float_buf \<Rightarrow> 32 word \<Rightarrow> f32 list option" where
  "volk_32f_sin_32f_a_avx2 libm_sin bVector aVector num_points =
     (let eighthPoints = num_points div 8
      in case vector_loop (mm256_load_ps (base aVector) (cells aVector)) (mm256_store_ps (base bVector))
                a_avx2_body 8 eighthPoints 0 0 0 (cells bVector) of
           None \<Rightarrow> None
         | Some (aPtr, bPtr, mem) \<Rightarrow>
             scalar_loop libm_sin (cells aVector) num_points (eighthPoints * 8) aPtr bPtr mem)"

subsection \<open>\<^verbatim>\<open>volk_32f_sin_32f_a_sse4_1\<close> (lines 235-304)\<close>

definition a_sse4_1_reduce :: "m128 \<Rightarrow> m128 \<times> m128i" where
  "a_sse4_1_reduce aVal =
     (let m4pi = mm_set1_ps (float_of_lit 1273239545 1000000000);
          pio4A = mm_set1_ps (float_of_lit 78515625 100000000);
          pio4B = mm_set1_ps (float_of_lit 241876 1000000000);
          ftwos = mm_set1_ps (float_of_lit 2 1);
          fzeroes = mm_setzero_ps;
          ones = mm_set1_epi32 1;
          s = mm_sub_ps aVal (mm_and_ps (mm_mul_ps aVal ftwos) (mm_cmplt_ps aVal fzeroes));
          q = mm_cvtps_epi32 (mm_floor_ps (mm_mul_ps s m4pi));
          r = mm_add_epi32 q (mm_and_si128 q ones);
          s = mm_sub_ps s (mm_mul_ps (mm_cvtepi32_ps r) pio4A);
          s = mm_sub_ps s (mm_mul_ps (mm_cvtepi32_ps r) pio4B)
      in (s, q))"

function a_sse4_1_for_i :: "m128 \<Rightarrow> nat \<Rightarrow> m128 \<Rightarrow> m128" where
  "a_sse4_1_for_i ffours i s =
     (if i < 3 then a_sse4_1_for_i ffours (i + 1) (mm_mul_ps s (mm_sub_ps ffours s)) else s)"
  by pat_completeness auto
termination
  by (relation "measure (\<lambda>(ffours, i, s). 3 - i)") auto

declare a_sse4_1_for_i.simps [simp del]

definition a_sse4_1_poly :: "m128 \<Rightarrow> m128 \<times> m128" where
  "a_sse4_1_poly s =
     (let ffours = mm_set1_ps (float_of_lit 4 1);
          ftwos = mm_set1_ps (float_of_lit 2 1);
          fones = mm_set1_ps (float_of_lit 1 1);
          cp1 = mm_set1_ps (float_of_lit 1 1);
          cp2 = mm_set1_ps (float_of_lit 83333333 1000000000);
          cp3 = mm_set1_ps (float_of_lit 2777778 1000000000);
          cp4 = mm_set1_ps (float_of_lit 49603 1000000000);
          cp5 = mm_set1_ps (float_of_lit 551 1000000000);
          s = mm_div_ps s (mm_set1_ps (float_of_lit 8 1));
          s = mm_mul_ps s s;
          s = mm_mul_ps (mm_add_ps (mm_mul_ps (mm_sub_ps (mm_mul_ps (mm_add_ps (mm_mul_ps
                 (mm_sub_ps (mm_mul_ps s cp5) cp4) s) cp3) s) cp2) s) cp1) s;
          s = a_sse4_1_for_i ffours 0 s;
          s = mm_div_ps s ftwos;
          sine = mm_sqrt_ps (mm_mul_ps (mm_sub_ps ftwos s) s);
          cosine = mm_sub_ps fones s
      in (sine, cosine))"

definition a_sse4_1_fixup :: "m128 \<Rightarrow> m128i \<Rightarrow> m128 \<Rightarrow> m128 \<Rightarrow> m128" where
  "a_sse4_1_fixup aVal q sine cosine =
     (let fzeroes = mm_setzero_ps;
          ones = mm_set1_epi32 1;
          twos = mm_set1_epi32 2;
          fours = mm_set1_epi32 4;
          condition1 = mm_cmpneq_ps (mm_cvtepi32_ps (mm_and_si128 (mm_add_epi32 q ones) twos)) fzeroes;
          condition2 = mm_cmpneq_ps
                 (mm_cmpneq_ps (mm_cvtepi32_ps (mm_and_si128 q fours)) fzeroes)
                 (mm_cmplt_ps aVal fzeroes);
          sine = mm_add_ps sine (mm_and_ps (mm_sub_ps cosine sine) condition1);
          sine = mm_sub_ps sine (mm_and_ps (mm_mul_ps sine (mm_set1_ps (floatf_lit 2 1))) condition2)
      in sine)"

definition a_sse4_1_body :: "m128 \<Rightarrow> m128" where
  "a_sse4_1_body aVal =
     (let (s, q) = a_sse4_1_reduce aVal;
          (sine, cosine) = a_sse4_1_poly s
      in a_sse4_1_fixup aVal q sine cosine)"

definition volk_32f_sin_32f_a_sse4_1 :: "(f64 \<Rightarrow> f64) \<Rightarrow> float_buf \<Rightarrow> float_buf \<Rightarrow> 32 word \<Rightarrow> f32 list option" where
  "volk_32f_sin_32f_a_sse4_1 libm_sin bVector aVector num_points =
     (let quarterPoints = num_points div 4
      in case vector_loop (mm_load_ps (base aVector) (cells aVector)) (mm_store_ps (base bVector))
                a_sse4_1_body 4 quarterPoints 0 0 0 (cells bVector) of
           None \<Rightarrow> None
         | Some (aPtr, bPtr, mem) \<Rightarrow>
             scalar_loop libm_sin (cells aVector) num_points (quarterPoints * 4) aPtr bPtr mem)"

subsection \<open>\<^verbatim>\<open>volk_32f_sin_32f_u_avx2_fma\<close> (lines 317-386)\<close>

definition u_avx2_fma_reduce :: "m256 \<Rightarrow> m256 \<times> m256i" where
  "u_avx2_fma_reduce aVal =
     (let m4pi = mm256_set1_ps (float_of_lit 1273239545 1000000000);
          pio4A = mm256_set1_ps (float_of_lit 78515625 100000000);
          pio4B = mm256_set1_ps (float_of_lit 241876 1000000000);
          ftwos = mm256_set1_ps (float_of_lit 2 1);
          fzeroes = mm256_setzero_ps;
          ones = mm256_set1_epi32 1;
          s = mm256_sub_ps aVal (mm256_and_ps (mm256_mul_ps aVal ftwos) (mm256_cmp_ps aVal fzeroes 1));
          q = mm256_cvtps_epi32 (mm256_floor_ps (mm256_mul_ps s m4pi));
          r = mm256_add_epi32 q (mm256_and_si256 q ones);
          s = mm256_fnmadd_ps (mm256_cvtepi32_ps r) pio4A s;
          s = mm256_fnmadd_ps (mm256_cvtepi32_ps r) pio4B s
      in (s, q))"

function u_avx2_fma_for_i :: "m256 \<Rightarrow> nat \<Rightarrow> m256 \<Rightarrow> m256" where
  "u_avx2_fma_for_i ffours i s =
     (if i < 3 then u_avx2_fma_for_i ffours (i + 1) (mm256_mul_ps s (mm256_sub_ps ffours s)) else s)"
  by pat_completeness auto
termination
  by (relation "measure (\<lambda>(ffours, i, s). 3 - i)") auto

declare u_avx2_fma_for_i.simps [simp del]

definition u_avx2_fma_poly :: "m256 \<Rightarrow> m256 \<times> m256" where
  "u_avx2_fma_poly s =
     (let ffours = mm256_set1_ps (float_of_lit 4 1);
          ftwos = mm256_set1_ps (float_of_lit 2 1);
          fones = mm256_set1_ps (float_of_lit 1 1);
          cp1 = mm256_set1_ps (float_of_lit 1 1);
          cp2 = mm256_set1_ps (float_of_lit 83333333 1000000000);
          cp3 = mm256_set1_ps (float_of_lit 2777778 1000000000);
          cp4 = mm256_set1_ps (float_of_lit 49603 1000000000);
          cp5 = mm256_set1_ps (float_of_lit 551 1000000000);
          s = mm256_div_ps s (mm256_set1_ps (float_of_lit 8 1));
          s = mm256_mul_ps s s;
          s = mm256_mul_ps (mm256_fmadd_ps (mm256_fmsub_ps (mm256_fmadd_ps (mm256_fmsub_ps s cp5 cp4) s cp3) s cp2) s cp1) s;
          s = u_avx2_fma_for_i ffours 0 s;
          s = mm256_div_ps s ftwos;
          sine = mm256_sqrt_ps (mm256_mul_ps (mm256_sub_ps ftwos s) s);
          cosine = mm256_sub_ps fones s
      in (sine, cosine))"

definition u_avx2_fma_fixup :: "m256 \<Rightarrow> m256i \<Rightarrow> m256 \<Rightarrow> m256 \<Rightarrow> m256" where
  "u_avx2_fma_fixup aVal q sine cosine =
     (let fzeroes = mm256_setzero_ps;
          ones = mm256_set1_epi32 1;
          twos = mm256_set1_epi32 2;
          fours = mm256_set1_epi32 4;
          condition1 = mm256_cmp_ps (mm256_cvtepi32_ps (mm256_and_si256 (mm256_add_epi32 q ones) twos)) fzeroes 4;
          condition2 = mm256_cmp_ps
                 (mm256_cmp_ps (mm256_cvtepi32_ps (mm256_and_si256 q fours)) fzeroes 4)
                 (mm256_cmp_ps aVal fzeroes 1) 4;
          sine = mm256_add_ps sine (mm256_and_ps (mm256_sub_ps cosine sine) condition1);
          sine = mm256_sub_ps sine (mm256_and_ps (mm256_mul_ps sine (mm256_set1_ps (floatf_lit 2 1))) condition2)
      in sine)"

definition u_avx2_fma_body :: "m256 \<Rightarrow> m256" where
  "u_avx2_fma_body aVal =
     (let (s, q) = u_avx2_fma_reduce aVal;
          (sine, cosine) = u_avx2_fma_poly s
      in u_avx2_fma_fixup aVal q sine cosine)"

definition volk_32f_sin_32f_u_avx2_fma :: "(f64 \<Rightarrow> f64) \<Rightarrow> float_buf \<Rightarrow> float_buf \<Rightarrow> 32 word \<Rightarrow> f32 list option" where
  "volk_32f_sin_32f_u_avx2_fma libm_sin bVector aVector num_points =
     (let eighthPoints = num_points div 8
      in case vector_loop (mm256_loadu_ps (cells aVector)) mm256_storeu_ps
                u_avx2_fma_body 8 eighthPoints 0 0 0 (cells bVector) of
           None \<Rightarrow> None
         | Some (aPtr, bPtr, mem) \<Rightarrow>
             scalar_loop libm_sin (cells aVector) num_points (eighthPoints * 8) aPtr bPtr mem)"

subsection \<open>\<^verbatim>\<open>volk_32f_sin_32f_u_avx2\<close> (lines 393-462)\<close>

definition u_avx2_reduce :: "m256 \<Rightarrow> m256 \<times> m256i" where
  "u_avx2_reduce aVal =
     (let m4pi = mm256_set1_ps (float_of_lit 1273239545 1000000000);
          pio4A = mm256_set1_ps (float_of_lit 78515625 100000000);
          pio4B = mm256_set1_ps (float_of_lit 241876 1000000000);
          ftwos = mm256_set1_ps (float_of_lit 2 1);
          fzeroes = mm256_setzero_ps;
          ones = mm256_set1_epi32 1;
          s = mm256_sub_ps aVal (mm256_and_ps (mm256_mul_ps aVal ftwos) (mm256_cmp_ps aVal fzeroes 1));
          q = mm256_cvtps_epi32 (mm256_floor_ps (mm256_mul_ps s m4pi));
          r = mm256_add_epi32 q (mm256_and_si256 q ones);
          s = mm256_sub_ps s (mm256_mul_ps (mm256_cvtepi32_ps r) pio4A);
          s = mm256_sub_ps s (mm256_mul_ps (mm256_cvtepi32_ps r) pio4B)
      in (s, q))"

function u_avx2_for_i :: "m256 \<Rightarrow> nat \<Rightarrow> m256 \<Rightarrow> m256" where
  "u_avx2_for_i ffours i s =
     (if i < 3 then u_avx2_for_i ffours (i + 1) (mm256_mul_ps s (mm256_sub_ps ffours s)) else s)"
  by pat_completeness auto
termination
  by (relation "measure (\<lambda>(ffours, i, s). 3 - i)") auto

declare u_avx2_for_i.simps [simp del]

definition u_avx2_poly :: "m256 \<Rightarrow> m256 \<times> m256" where
  "u_avx2_poly s =
     (let ffours = mm256_set1_ps (float_of_lit 4 1);
          ftwos = mm256_set1_ps (float_of_lit 2 1);
          fones = mm256_set1_ps (float_of_lit 1 1);
          cp1 = mm256_set1_ps (float_of_lit 1 1);
          cp2 = mm256_set1_ps (float_of_lit 83333333 1000000000);
          cp3 = mm256_set1_ps (float_of_lit 2777778 1000000000);
          cp4 = mm256_set1_ps (float_of_lit 49603 1000000000);
          cp5 = mm256_set1_ps (float_of_lit 551 1000000000);
          s = mm256_div_ps s (mm256_set1_ps (float_of_lit 8 1));
          s = mm256_mul_ps s s;
          s = mm256_mul_ps (mm256_add_ps (mm256_mul_ps (mm256_sub_ps (mm256_mul_ps (mm256_add_ps (mm256_mul_ps
                 (mm256_sub_ps (mm256_mul_ps s cp5) cp4) s) cp3) s) cp2) s) cp1) s;
          s = u_avx2_for_i ffours 0 s;
          s = mm256_div_ps s ftwos;
          sine = mm256_sqrt_ps (mm256_mul_ps (mm256_sub_ps ftwos s) s);
          cosine = mm256_sub_ps fones s
      in (sine, cosine))"

definition u_avx2_fixup :: "m256 \<Rightarrow> m256i \<Rightarrow> m256 \<Rightarrow> m256 \<Rightarrow> m256" where
  "u_avx2_fixup aVal q sine cosine =
     (let fzeroes = mm256_setzero_ps;
          ones = mm256_set1_epi32 1;
          twos = mm256_set1_epi32 2;
          fours = mm256_set1_epi32 4;
          condition1 = mm256_cmp_ps (mm256_cvtepi32_ps (mm256_and_si256 (mm256_add_epi32 q ones) twos)) fzeroes 4;
          condition2 = mm256_cmp_ps
                 (mm256_cmp_ps (mm256_cvtepi32_ps (mm256_and_si256 q fours)) fzeroes 4)
                 (mm256_cmp_ps aVal fzeroes 1) 4;
          sine = mm256_add_ps sine (mm256_and_ps (mm256_sub_ps cosine sine) condition1);
          sine = mm256_sub_ps sine (mm256_and_ps (mm256_mul_ps sine (mm256_set1_ps (floatf_lit 2 1))) condition2)
      in sine)"

definition u_avx2_body :: "m256 \<Rightarrow> m256" where
  "u_avx2_body aVal =
     (let (s, q) = u_avx2_reduce aVal;
          (sine, cosine) = u_avx2_poly s
      in u_avx2_fixup aVal q sine cosine)"

definition volk_32f_sin_32f_u_avx2 :: "(f64 \<Rightarrow> f64) \<Rightarrow> float_buf \<Rightarrow> float_buf \<Rightarrow> 32 word \<Rightarrow> f32 list option" where
  "volk_32f_sin_32f_u_avx2 libm_sin bVector aVector num_points =
     (let eighthPoints = num_points div 8
      in case vector_loop (mm256_loadu_ps (cells aVector)) mm256_storeu_ps
                u_avx2_body 8 eighthPoints 0 0 0 (cells bVector) of
           None \<Rightarrow> None
         | Some (aPtr, bPtr, mem) \<Rightarrow>
             scalar_loop libm_sin (cells aVector) num_points (eighthPoints * 8) aPtr bPtr mem)"

subsection \<open>\<^verbatim>\<open>volk_32f_sin_32f_u_sse4_1\<close> (lines 470-537)\<close>

definition u_sse4_1_reduce :: "m128 \<Rightarrow> m128 \<times> m128i" where
  "u_sse4_1_reduce aVal =
     (let m4pi = mm_set1_ps (float_of_lit 1273239545 1000000000);
          pio4A = mm_set1_ps (float_of_lit 78515625 100000000);
          pio4B = mm_set1_ps (float_of_lit 241876 1000000000);
          ftwos = mm_set1_ps (float_of_lit 2 1);
          fzeroes = mm_setzero_ps;
          ones = mm_set1_epi32 1;
          s = mm_sub_ps aVal (mm_and_ps (mm_mul_ps aVal ftwos) (mm_cmplt_ps aVal fzeroes));
          q = mm_cvtps_epi32 (mm_floor_ps (mm_mul_ps s m4pi));
          r = mm_add_epi32 q (mm_and_si128 q ones);
          s = mm_sub_ps s (mm_mul_ps (mm_cvtepi32_ps r) pio4A);
          s = mm_sub_ps s (mm_mul_ps (mm_cvtepi32_ps r) pio4B)
      in (s, q))"

function u_sse4_1_for_i :: "m128 \<Rightarrow> nat \<Rightarrow> m128 \<Rightarrow> m128" where
  "u_sse4_1_for_i ffours i s =
     (if i < 3 then u_sse4_1_for_i ffours (i + 1) (mm_mul_ps s (mm_sub_ps ffours s)) else s)"
  by pat_completeness auto
termination
  by (relation "measure (\<lambda>(ffours, i, s). 3 - i)") auto

declare u_sse4_1_for_i.simps [simp del]

definition u_sse4_1_poly :: "m128 \<Rightarrow> m128 \<times> m128" where
  "u_sse4_1_poly s =
     (let ffours = mm_set1_ps (float_of_lit 4 1);
          ftwos = mm_set1_ps (float_of_lit 2 1);
          fones = mm_set1_ps (float_of_lit 1 1);
          cp1 = mm_set1_ps (float_of_lit 1 1);
          cp2 = mm_set1_ps (float_of_lit 83333333 1000000000);
          cp3 = mm_set1_ps (float_of_lit 2777778 1000000000);
          cp4 = mm_set1_ps (float_of_lit 49603 1000000000);
          cp5 = mm_set1_ps (float_of_lit 551 1000000000);
          s = mm_div_ps s (mm_set1_ps (float_of_lit 8 1));
          s = mm_mul_ps s s;
          s = mm_mul_ps (mm_add_ps (mm_mul_ps (mm_sub_ps (mm_mul_ps (mm_add_ps (mm_mul_ps
                 (mm_sub_ps (mm_mul_ps s cp5) cp4) s) cp3) s) cp2) s) cp1) s;
          s = u_sse4_1_for_i ffours 0 s;
          s = mm_div_ps s ftwos;
          sine = mm_sqrt_ps (mm_mul_ps (mm_sub_ps ftwos s) s);
          cosine = mm_sub_ps fones s
      in (sine, cosine))"

definition u_sse4_1_fixup :: "m128 \<Rightarrow> m128i \<Rightarrow> m128 \<Rightarrow> m128 \<Rightarrow> m128" where
  "u_sse4_1_fixup aVal q sine cosine =
     (let fzeroes = mm_setzero_ps;
          ones = mm_set1_epi32 1;
          twos = mm_set1_epi32 2;
          fours = mm_set1_epi32 4;
          condition1 = mm_cmpneq_ps (mm_cvtepi32_ps (mm_and_si128 (mm_add_epi32 q ones) twos)) fzeroes;
          condition2 = mm_cmpneq_ps
                 (mm_cmpneq_ps (mm_cvtepi32_ps (mm_and_si128 q fours)) fzeroes)
                 (mm_cmplt_ps aVal fzeroes);
          sine = mm_add_ps sine (mm_and_ps (mm_sub_ps cosine sine) condition1);
          sine = mm_sub_ps sine (mm_and_ps (mm_mul_ps sine (mm_set1_ps (floatf_lit 2 1))) condition2)
      in sine)"

definition u_sse4_1_body :: "m128 \<Rightarrow> m128" where
  "u_sse4_1_body aVal =
     (let (s, q) = u_sse4_1_reduce aVal;
          (sine, cosine) = u_sse4_1_poly s
      in u_sse4_1_fixup aVal q sine cosine)"

definition volk_32f_sin_32f_u_sse4_1 :: "(f64 \<Rightarrow> f64) \<Rightarrow> float_buf \<Rightarrow> float_buf \<Rightarrow> 32 word \<Rightarrow> f32 list option" where
  "volk_32f_sin_32f_u_sse4_1 libm_sin bVector aVector num_points =
     (let quarterPoints = num_points div 4
      in case vector_loop (mm_loadu_ps (cells aVector)) mm_storeu_ps
                u_sse4_1_body 4 quarterPoints 0 0 0 (cells bVector) of
           None \<Rightarrow> None
         | Some (aPtr, bPtr, mem) \<Rightarrow>
             scalar_loop libm_sin (cells aVector) num_points (quarterPoints * 4) aPtr bPtr mem)"

subsection \<open>\<^verbatim>\<open>volk_32f_sin_32f_generic\<close> (lines 544-555)\<close>

definition volk_32f_sin_32f_generic :: "(f64 \<Rightarrow> f64) \<Rightarrow> float_buf \<Rightarrow> float_buf \<Rightarrow> 32 word \<Rightarrow> f32 list option" where
  "volk_32f_sin_32f_generic libm_sin bVector aVector num_points =
     scalar_loop libm_sin (cells aVector) num_points 0 0 0 (cells bVector)"

section \<open>One lane\<close>

text \<open>
  The same computation written for a single lane, stage by stage as the specification
  describes it: the absolute value, the index \<open>q0\<close> of the segment of width \<open>\<pi>/4\<close>, the
  index \<open>q0 + (q0 & 1)\<close> rounded up to an even number, the reduced angle, the series in
  the square of an eighth of it, three angle doublings, the reduced sine and cosine, and
  the two masks of the quadrant fix-up.  The lemmas below show that every kernel body
  computes these functions in each of its lanes.
\<close>

definition lane_abs :: "f32 \<Rightarrow> f32" where
  "lane_abs x = f32_sub x (f32_mul x (float_of_lit 2 1) AND f32_cmp 1 x 0)"

definition lane_q0 :: "f32 \<Rightarrow> 32 word" where
  "lane_q0 ax = f32_to_int32 (f32_floor (f32_mul ax (float_of_lit 1273239545 1000000000)))"

definition lane_q :: "32 word \<Rightarrow> 32 word" where
  "lane_q q0 = q0 + (q0 AND 1)"

definition lane_reduce :: "f32 \<Rightarrow> 32 word \<Rightarrow> f32" where
  \<comment> \<open>two roundings in each step: the product, then the difference\<close>
  "lane_reduce ax q =
     f32_sub (f32_sub ax (f32_mul (int32_to_f32 q) (float_of_lit 78515625 100000000)))
       (f32_mul (int32_to_f32 q) (float_of_lit 241876 1000000000))"

definition lane_reduce_fma :: "f32 \<Rightarrow> 32 word \<Rightarrow> f32" where
  \<comment> \<open>one rounding in each step\<close>
  "lane_reduce_fma ax q =
     f32_fnmadd (int32_to_f32 q) (float_of_lit 241876 1000000000)
       (f32_fnmadd (int32_to_f32 q) (float_of_lit 78515625 100000000) ax)"

definition lane_square :: "f32 \<Rightarrow> f32" where
  "lane_square s = f32_mul (f32_div s (float_of_lit 8 1)) (f32_div s (float_of_lit 8 1))"

definition lane_series :: "f32 \<Rightarrow> f32" where
  "lane_series u =
     f32_mul (f32_add (f32_mul (f32_sub (f32_mul (f32_add (f32_mul (f32_sub
       (f32_mul u (float_of_lit 551 1000000000)) (float_of_lit 49603 1000000000)) u)
       (float_of_lit 2777778 1000000000)) u) (float_of_lit 83333333 1000000000)) u)
       (float_of_lit 1 1)) u"

definition lane_series_fma :: "f32 \<Rightarrow> f32" where
  "lane_series_fma u =
     f32_mul (f32_fmadd (f32_fmsub (f32_fmadd (f32_fmsub
       u (float_of_lit 551 1000000000) (float_of_lit 49603 1000000000)) u
       (float_of_lit 2777778 1000000000)) u (float_of_lit 83333333 1000000000)) u
       (float_of_lit 1 1)) u"

definition lane_double :: "f32 \<Rightarrow> f32" where
  "lane_double t = f32_mul t (f32_sub (float_of_lit 4 1) t)"

definition lane_t :: "f32 \<Rightarrow> f32" where
  "lane_t p = f32_div (lane_double (lane_double (lane_double p))) (float_of_lit 2 1)"

definition lane_sine :: "f32 \<Rightarrow> f32" where
  "lane_sine t = f32_sqrt (f32_mul (f32_sub (float_of_lit 2 1) t) t)"

definition lane_cosine :: "f32 \<Rightarrow> f32" where
  "lane_cosine t = f32_sub (float_of_lit 1 1) t"

definition lane_cond1 :: "32 word \<Rightarrow> f32" where
  "lane_cond1 q0 = f32_cmp 4 (int32_to_f32 ((q0 + 1) AND 2)) 0"

definition lane_cond2 :: "f32 \<Rightarrow> 32 word \<Rightarrow> f32" where
  "lane_cond2 x q0 = f32_cmp 4 (f32_cmp 4 (int32_to_f32 (q0 AND 4)) 0) (f32_cmp 1 x 0)"

definition lane_blend :: "32 word \<Rightarrow> f32 \<Rightarrow> f32 \<Rightarrow> f32" where
  "lane_blend q0 sine cosine = f32_add sine (f32_sub cosine sine AND lane_cond1 q0)"

definition lane_negate :: "f32 \<Rightarrow> 32 word \<Rightarrow> f32 \<Rightarrow> f32" where
  "lane_negate x q0 v = f32_sub v (f32_mul v (floatf_lit 2 1) AND lane_cond2 x q0)"

definition lane_fixup :: "f32 \<Rightarrow> 32 word \<Rightarrow> f32 \<Rightarrow> f32 \<Rightarrow> f32" where
  "lane_fixup x q0 sine cosine = lane_negate x q0 (lane_blend q0 sine cosine)"

definition lane_sin :: "f32 \<Rightarrow> f32" where
  "lane_sin x =
     (let ax = lane_abs x;
          q0 = lane_q0 ax;
          t = lane_t (lane_series (lane_square (lane_reduce ax (lane_q q0))))
      in lane_fixup x q0 (lane_sine t) (lane_cosine t))"

definition lane_sin_fma :: "f32 \<Rightarrow> f32" where
  "lane_sin_fma x =
     (let ax = lane_abs x;
          q0 = lane_q0 ax;
          t = lane_t (lane_series_fma (lane_square (lane_reduce_fma ax (lane_q q0))))
      in lane_fixup x q0 (lane_sine t) (lane_cosine t))"

definition is_negative :: "f32 \<Rightarrow> bool" where
  \<comment> \<open>the ordered comparison \<open>x < 0\<close>: false for both zeros and for NaN\<close>
  "is_negative x = cmp_pred 1 (f32_compare x 0)"

section \<open>What the loops leave in the output buffer\<close>

text \<open>
  \<open>vec_result\<close> is the buffer after the lane groups \<open>lo\<close> up to \<open>hi\<close> have been stored,
  \<open>scalar_result\<close> the buffer after the elements \<open>lo\<close> up to \<open>hi\<close> have been written by
  the scalar loop, and \<open>kernel_result\<close> the buffer after a whole call of a kernel with
  \<open>w\<close> lanes that computes \<open>lane\<close> in each lane.
\<close>

definition vec_result :: "(f32 list \<Rightarrow> f32 list) \<Rightarrow> nat \<Rightarrow> f32 list \<Rightarrow> nat \<Rightarrow> nat \<Rightarrow> f32 list \<Rightarrow> f32 list" where
  "vec_result body w amem lo hi mem =
     map (\<lambda>i. if w * lo \<le> i \<and> i < w * hi
               then body (take w (drop (w * (i div w)) amem)) ! (i mod w) else mem ! i)
       [0..<length mem]"

definition scalar_result :: "(f32 \<Rightarrow> f32) \<Rightarrow> f32 list \<Rightarrow> nat \<Rightarrow> nat \<Rightarrow> f32 list \<Rightarrow> f32 list" where
  "scalar_result f amem lo hi mem =
     map (\<lambda>i. if lo \<le> i \<and> i < hi then f (amem ! i) else mem ! i) [0..<length mem]"

definition kernel_result :: "(f32 \<Rightarrow> f32) \<Rightarrow> nat \<Rightarrow> (f32 \<Rightarrow> f32) \<Rightarrow> f32 list \<Rightarrow> nat \<Rightarrow> f32 list \<Rightarrow> f32 list" where
  "kernel_result lane w f amem n mem =
     map (\<lambda>i. if i < w * (n div w) then lane (amem ! i)
               else if i < n then f (amem ! i) else mem ! i)
       [0..<length mem]"

text \<open>
  The six vector kernels, each with its lane count, the function it computes in a lane and
  the alignment in bytes that its loads and stores need (1 for the unaligned entry points).
\<close>

definition vector_kernels ::
  "(((f64 \<Rightarrow> f64) \<Rightarrow> float_buf \<Rightarrow> float_buf \<Rightarrow> 32 word \<Rightarrow> f32 list option) \<times> nat \<times> (f32 \<Rightarrow> f32) \<times> nat) list" where
  "vector_kernels =
     [(volk_32f_sin_32f_a_avx2_fma, 8, lane_sin_fma, 32),
      (volk_32f_sin_32f_a_avx2, 8, lane_sin, 32),
      (volk_32f_sin_32f_a_sse4_1, 4, lane_sin, 16),
      (volk_32f_sin_32f_u_avx2_fma, 8, lane_sin_fma, 1),
      (volk_32f_sin_32f_u_avx2, 8, lane_sin, 1),
      (volk_32f_sin_32f_u_sse4_1, 4, lane_sin, 1)]"


definition vector_polys ::
  "((f32 list \<Rightarrow> f32 list \<times> f32 list) \<times> nat \<times> (f32 \<Rightarrow> f32)) list" where
  "vector_polys =
     [(a_avx2_fma_poly, 8, lane_series_fma), (a_avx2_poly, 8, lane_series),
      (a_sse4_1_poly, 4, lane_series), (u_avx2_fma_poly, 8, lane_series_fma),
      (u_avx2_poly, 8, lane_series), (u_sse4_1_poly, 4, lane_series)]"

definition vector_fixups ::
  "((f32 list \<Rightarrow> 32 word list \<Rightarrow> f32 list \<Rightarrow> f32 list \<Rightarrow> f32 list) \<times> nat) list" where
  "vector_fixups =
     [(a_avx2_fma_fixup, 8), (a_avx2_fixup, 8), (a_sse4_1_fixup, 4),
      (u_avx2_fma_fixup, 8), (u_avx2_fixup, 8), (u_sse4_1_fixup, 4)]"

section \<open>The specification's wording\<close>

text \<open>
  The rules of the quadrant fix-up and the coefficients of the series as the
  specification words them, to be compared with the kernels.  \<open>spec_blend\<close> selects the
  reduced cosine when bit 1 of \<open>q + 1\<close> is set.  \<open>spec_negate\<close> negates, by the kernels' own
  arithmetic, when bit 2 of \<open>q\<close> is zero exclusive-or the input is negative.
  \<open>spec_series\<close> is the Horner form by nested multiply-adds with the coefficients
  1, 0.0833333, 0.0027778, 0.0000496 and 0.000000551; \<open>spec_series_alt\<close> has the same
  coefficients with the alternating subtractions and additions of the source.
\<close>

definition spec_blend :: "32 word \<Rightarrow> f32 \<Rightarrow> f32 \<Rightarrow> f32" where
  "spec_blend q sine cosine = (if bit (q + 1) 1 then cosine else sine)"

definition spec_negate :: "f32 \<Rightarrow> 32 word \<Rightarrow> f32 \<Rightarrow> f32" where
  "spec_negate x q v =
     (if (\<not> bit q 2) \<noteq> is_negative x then f32_sub v (f32_mul v (floatf_lit 2 1))
      else f32_sub v 0)"

definition spec_series :: "f32 \<Rightarrow> f32" where
  "spec_series u =
     f32_mul (f32_add (f32_mul (f32_add (f32_mul (f32_add (f32_mul (f32_add
       (f32_mul u (float_of_lit 551 1000000000)) (float_of_lit 496 10000000)) u)
       (float_of_lit 27778 10000000)) u) (float_of_lit 833333 10000000)) u)
       (float_of_lit 1 1)) u"

definition spec_series_alt :: "f32 \<Rightarrow> f32" where
  "spec_series_alt u =
     f32_mul (f32_add (f32_mul (f32_sub (f32_mul (f32_add (f32_mul (f32_sub
       (f32_mul u (float_of_lit 551 1000000000)) (float_of_lit 496 10000000)) u)
       (float_of_lit 27778 10000000)) u) (float_of_lit 833333 10000000)) u)
       (float_of_lit 1 1)) u"

text \<open>The real number that a finite \<^verbatim>\<open>float\<close> stands for.\<close>

definition f32_value :: "f32 \<Rightarrow> real" where
  "f32_value w =
     (case f32_decode w of
        Fin s m e \<Rightarrow>
          (if s then - 1 else 1) * real_of_int m * (if 0 \<le> e then 2 ^ nat e else 1 / 2 ^ nat (- e))
      | _ \<Rightarrow> 0)"

text \<open>The real number that a finite \<^verbatim>\<open>double\<close> stands for.\<close>

definition f64_value :: "f64 \<Rightarrow> real" where
  "f64_value w =
     (case f64_decode w of
        Fin s m e \<Rightarrow>
          (if s then - 1 else 1) * real_of_int m * (if 0 \<le> e then 2 ^ nat e else 1 / 2 ^ nat (- e))
      | _ \<Rightarrow> 0)"


section \<open>Properties\<close>

subsection \<open>A call with no elements\<close>

text \<open>
  Claim C9.  For every kernel variant, a call with \<^verbatim>\<open>num_points = 0\<close> returns, whatever the
  addresses and the sizes of the two buffers are, and the output buffer holds what it held
  before: neither loop is entered.
\<close>

theorem zero_points_output_untouched:
  "volk_32f_sin_32f_generic libm_sin bVector aVector 0 = Some (cells bVector)
   \<and> volk_32f_sin_32f_a_sse4_1 libm_sin bVector aVector 0 = Some (cells bVector)
   \<and> volk_32f_sin_32f_u_sse4_1 libm_sin bVector aVector 0 = Some (cells bVector)
   \<and> volk_32f_sin_32f_a_avx2 libm_sin bVector aVector 0 = Some (cells bVector)
   \<and> volk_32f_sin_32f_u_avx2 libm_sin bVector aVector 0 = Some (cells bVector)
   \<and> volk_32f_sin_32f_a_avx2_fma libm_sin bVector aVector 0 = Some (cells bVector)
   \<and> volk_32f_sin_32f_u_avx2_fma libm_sin bVector aVector 0 = Some (cells bVector)"
  by (simp add: volk_32f_sin_32f_generic_def volk_32f_sin_32f_a_sse4_1_def
      volk_32f_sin_32f_u_sse4_1_def volk_32f_sin_32f_a_avx2_def volk_32f_sin_32f_u_avx2_def
      volk_32f_sin_32f_a_avx2_fma_def volk_32f_sin_32f_u_avx2_fma_def
      vector_loop.simps scalar_loop.simps)

subsection \<open>Lanes of the kernel bodies\<close>

lemma map2_map_map: "map2 f (map g xs) (map h xs) = map (\<lambda>x. f (g x) (h x)) xs"
  by (induction xs) auto

lemma map2_self_map: "map2 f xs (map h xs) = map (\<lambda>x. f x (h x)) xs"
  using map2_map_map [of f "\<lambda>x. x" xs h] by simp

lemma map2_map_self: "map2 f (map g xs) xs = map (\<lambda>x. f (g x) x) xs"
  using map2_map_map [of f g xs "\<lambda>x. x"] by simp

lemma map2_self_self: "map2 f xs xs = map (\<lambda>x. f x x) xs"
  using map2_map_map [of f "\<lambda>x. x" xs "\<lambda>x. x"] by simp

lemma map3_map_map: "map3 f (map g xs) (map h xs) (map k xs) = map (\<lambda>x. f (g x) (h x) (k x)) xs"
  unfolding map3_def by (induction xs) auto

lemma map3_map_self_map: "map3 f (map g xs) xs (map k xs) = map (\<lambda>x. f (g x) x (k x)) xs"
  using map3_map_map [of f g xs "\<lambda>x. x" k] by simp

lemma map3_self_map_map: "map3 f xs (map h xs) (map k xs) = map (\<lambda>x. f x (h x) (k x)) xs"
  using map3_map_map [of f "\<lambda>x. x" xs h k] by simp

lemma map3_map_map_self: "map3 f (map g xs) (map h xs) xs = map (\<lambda>x. f (g x) (h x) x) xs"
  using map3_map_map [of f g xs h "\<lambda>x. x"] by simp

lemma replicate_as_map: "length xs = n \<Longrightarrow> replicate n c = map (\<lambda>_. c) xs"
  by (simp add: map_replicate_const)

lemmas lane_maps = map2_map_map map2_self_map map2_map_self map2_self_self
  map3_map_map map3_map_self_map map3_self_map_map map3_map_map_self

lemmas mm_defs = mm_set1_ps_def mm_setzero_ps_def mm_set1_epi32_def mm_add_ps_def mm_sub_ps_def
  mm_mul_ps_def mm_div_ps_def mm_sqrt_ps_def mm_floor_ps_def mm_and_ps_def mm_cmplt_ps_def
  mm_cmpneq_ps_def mm_cvtps_epi32_def mm_cvtepi32_ps_def mm_add_epi32_def mm_and_si128_def

lemmas mm256_defs = mm256_set1_ps_def mm256_setzero_ps_def mm256_set1_epi32_def mm256_add_ps_def
  mm256_sub_ps_def mm256_mul_ps_def mm256_div_ps_def mm256_sqrt_ps_def mm256_floor_ps_def
  mm256_and_ps_def mm256_cmp_ps_def mm256_cvtps_epi32_def mm256_cvtepi32_ps_def
  mm256_add_epi32_def mm256_and_si256_def mm256_fmadd_ps_def mm256_fmsub_ps_def
  mm256_fnmadd_ps_def

lemma a_avx2_fma_reduce_lanes:
  assumes "length aVal = 8"
  shows "a_avx2_fma_reduce aVal =
    (map (\<lambda>x. lane_reduce_fma (lane_abs x) (lane_q (lane_q0 (lane_abs x)))) aVal,
     map (\<lambda>x. lane_q0 (lane_abs x)) aVal)"
  unfolding a_avx2_fma_reduce_def Let_def mm256_defs replicate_as_map [OF assms]
  by (simp add: lane_maps lane_reduce_fma_def lane_q_def lane_q0_def lane_abs_def)

lemma a_avx2_fma_for_i_lanes:
  "a_avx2_fma_for_i (map (\<lambda>_. c) s) 0 (map g s) =
    map (\<lambda>x. let d = (\<lambda>t. f32_mul t (f32_sub c t)) in d (d (d (g x)))) s"
  by (simp add: a_avx2_fma_for_i.simps mm256_defs lane_maps)

lemma a_avx2_fma_poly_lanes:
  assumes "length s = 8"
  shows "a_avx2_fma_poly s =
    (map (\<lambda>x. lane_sine (lane_t (lane_series_fma (lane_square x)))) s,
     map (\<lambda>x. lane_cosine (lane_t (lane_series_fma (lane_square x)))) s)"
  unfolding a_avx2_fma_poly_def Let_def mm256_defs replicate_as_map [OF assms]
  by (simp add: lane_maps a_avx2_fma_for_i_lanes lane_sine_def lane_cosine_def lane_t_def
      lane_series_fma_def lane_square_def lane_double_def)

lemma a_avx2_fma_fixup_lanes:
  assumes "length aVal = 8" "length q = 8" "length sine = 8" "length cosine = 8" "i < 8"
  shows "a_avx2_fma_fixup aVal q sine cosine ! i
         = lane_fixup (aVal ! i) (q ! i) (sine ! i) (cosine ! i)"
  using assms unfolding a_avx2_fma_fixup_def Let_def mm256_defs
  by (simp add: lane_fixup_def lane_negate_def lane_blend_def lane_cond1_def lane_cond2_def)

lemma a_avx2_fma_fixup_length:
  assumes "length aVal = 8" "length q = 8" "length sine = 8" "length cosine = 8"
  shows "length (a_avx2_fma_fixup aVal q sine cosine) = 8"
  using assms unfolding a_avx2_fma_fixup_def Let_def mm256_defs by simp

lemma a_avx2_fma_body_lanes:
  assumes "length aVal = 8"
  shows "a_avx2_fma_body aVal = map lane_sin_fma aVal"
proof -
  let ?s = "map (\<lambda>x. lane_reduce_fma (lane_abs x) (lane_q (lane_q0 (lane_abs x)))) aVal"
  let ?q = "map (\<lambda>x. lane_q0 (lane_abs x)) aVal"
  let ?sine = "map (\<lambda>x. lane_sine (lane_t (lane_series_fma (lane_square x)))) ?s"
  let ?cosine = "map (\<lambda>x. lane_cosine (lane_t (lane_series_fma (lane_square x)))) ?s"
  have body: "a_avx2_fma_body aVal = a_avx2_fma_fixup aVal ?q ?sine ?cosine"
    using assms by (simp add: a_avx2_fma_body_def a_avx2_fma_reduce_lanes a_avx2_fma_poly_lanes)
  have len: "length (a_avx2_fma_fixup aVal ?q ?sine ?cosine) = 8"
    using assms by (simp add: a_avx2_fma_fixup_length)
  show ?thesis
    unfolding body
  proof (rule nth_equalityI)
    show "length (a_avx2_fma_fixup aVal ?q ?sine ?cosine) = length (map lane_sin_fma aVal)"
      using len assms by simp
  next
    fix i assume "i < length (a_avx2_fma_fixup aVal ?q ?sine ?cosine)"
    then have "i < 8" using len by simp
    then show "a_avx2_fma_fixup aVal ?q ?sine ?cosine ! i = map lane_sin_fma aVal ! i"
      using assms by (simp add: a_avx2_fma_fixup_lanes lane_sin_fma_def Let_def)
  qed
qed

lemma a_avx2_reduce_lanes:
  assumes "length aVal = 8"
  shows "a_avx2_reduce aVal =
    (map (\<lambda>x. lane_reduce (lane_abs x) (lane_q (lane_q0 (lane_abs x)))) aVal,
     map (\<lambda>x. lane_q0 (lane_abs x)) aVal)"
  unfolding a_avx2_reduce_def Let_def mm256_defs replicate_as_map [OF assms]
  by (simp add: lane_maps lane_reduce_def lane_q_def lane_q0_def lane_abs_def)

lemma a_avx2_for_i_lanes:
  "a_avx2_for_i (map (\<lambda>_. c) s) 0 (map g s) =
    map (\<lambda>x. let d = (\<lambda>t. f32_mul t (f32_sub c t)) in d (d (d (g x)))) s"
  by (simp add: a_avx2_for_i.simps mm256_defs lane_maps)

lemma a_avx2_poly_lanes:
  assumes "length s = 8"
  shows "a_avx2_poly s =
    (map (\<lambda>x. lane_sine (lane_t (lane_series (lane_square x)))) s,
     map (\<lambda>x. lane_cosine (lane_t (lane_series (lane_square x)))) s)"
  unfolding a_avx2_poly_def Let_def mm256_defs replicate_as_map [OF assms]
  by (simp add: lane_maps a_avx2_for_i_lanes lane_sine_def lane_cosine_def lane_t_def
      lane_series_def lane_square_def lane_double_def)

lemma a_avx2_fixup_lanes:
  assumes "length aVal = 8" "length q = 8" "length sine = 8" "length cosine = 8" "i < 8"
  shows "a_avx2_fixup aVal q sine cosine ! i
         = lane_fixup (aVal ! i) (q ! i) (sine ! i) (cosine ! i)"
  using assms unfolding a_avx2_fixup_def Let_def mm256_defs
  by (simp add: lane_fixup_def lane_negate_def lane_blend_def lane_cond1_def lane_cond2_def)

lemma a_avx2_fixup_length:
  assumes "length aVal = 8" "length q = 8" "length sine = 8" "length cosine = 8"
  shows "length (a_avx2_fixup aVal q sine cosine) = 8"
  using assms unfolding a_avx2_fixup_def Let_def mm256_defs by simp

lemma a_avx2_body_lanes:
  assumes "length aVal = 8"
  shows "a_avx2_body aVal = map lane_sin aVal"
proof -
  let ?s = "map (\<lambda>x. lane_reduce (lane_abs x) (lane_q (lane_q0 (lane_abs x)))) aVal"
  let ?q = "map (\<lambda>x. lane_q0 (lane_abs x)) aVal"
  let ?sine = "map (\<lambda>x. lane_sine (lane_t (lane_series (lane_square x)))) ?s"
  let ?cosine = "map (\<lambda>x. lane_cosine (lane_t (lane_series (lane_square x)))) ?s"
  have body: "a_avx2_body aVal = a_avx2_fixup aVal ?q ?sine ?cosine"
    using assms by (simp add: a_avx2_body_def a_avx2_reduce_lanes a_avx2_poly_lanes)
  have len: "length (a_avx2_fixup aVal ?q ?sine ?cosine) = 8"
    using assms by (simp add: a_avx2_fixup_length)
  show ?thesis
    unfolding body
  proof (rule nth_equalityI)
    show "length (a_avx2_fixup aVal ?q ?sine ?cosine) = length (map lane_sin aVal)"
      using len assms by simp
  next
    fix i assume "i < length (a_avx2_fixup aVal ?q ?sine ?cosine)"
    then have "i < 8" using len by simp
    then show "a_avx2_fixup aVal ?q ?sine ?cosine ! i = map lane_sin aVal ! i"
      using assms by (simp add: a_avx2_fixup_lanes lane_sin_def Let_def)
  qed
qed

lemma a_sse4_1_reduce_lanes:
  assumes "length aVal = 4"
  shows "a_sse4_1_reduce aVal =
    (map (\<lambda>x. lane_reduce (lane_abs x) (lane_q (lane_q0 (lane_abs x)))) aVal,
     map (\<lambda>x. lane_q0 (lane_abs x)) aVal)"
  unfolding a_sse4_1_reduce_def Let_def mm_defs replicate_as_map [OF assms]
  by (simp add: lane_maps lane_reduce_def lane_q_def lane_q0_def lane_abs_def)

lemma a_sse4_1_for_i_lanes:
  "a_sse4_1_for_i (map (\<lambda>_. c) s) 0 (map g s) =
    map (\<lambda>x. let d = (\<lambda>t. f32_mul t (f32_sub c t)) in d (d (d (g x)))) s"
  by (simp add: a_sse4_1_for_i.simps mm_defs lane_maps)

lemma a_sse4_1_poly_lanes:
  assumes "length s = 4"
  shows "a_sse4_1_poly s =
    (map (\<lambda>x. lane_sine (lane_t (lane_series (lane_square x)))) s,
     map (\<lambda>x. lane_cosine (lane_t (lane_series (lane_square x)))) s)"
  unfolding a_sse4_1_poly_def Let_def mm_defs replicate_as_map [OF assms]
  by (simp add: lane_maps a_sse4_1_for_i_lanes lane_sine_def lane_cosine_def lane_t_def
      lane_series_def lane_square_def lane_double_def)

lemma a_sse4_1_fixup_lanes:
  assumes "length aVal = 4" "length q = 4" "length sine = 4" "length cosine = 4" "i < 4"
  shows "a_sse4_1_fixup aVal q sine cosine ! i
         = lane_fixup (aVal ! i) (q ! i) (sine ! i) (cosine ! i)"
  using assms unfolding a_sse4_1_fixup_def Let_def mm_defs
  by (simp add: lane_fixup_def lane_negate_def lane_blend_def lane_cond1_def lane_cond2_def)

lemma a_sse4_1_fixup_length:
  assumes "length aVal = 4" "length q = 4" "length sine = 4" "length cosine = 4"
  shows "length (a_sse4_1_fixup aVal q sine cosine) = 4"
  using assms unfolding a_sse4_1_fixup_def Let_def mm_defs by simp

lemma a_sse4_1_body_lanes:
  assumes "length aVal = 4"
  shows "a_sse4_1_body aVal = map lane_sin aVal"
proof -
  let ?s = "map (\<lambda>x. lane_reduce (lane_abs x) (lane_q (lane_q0 (lane_abs x)))) aVal"
  let ?q = "map (\<lambda>x. lane_q0 (lane_abs x)) aVal"
  let ?sine = "map (\<lambda>x. lane_sine (lane_t (lane_series (lane_square x)))) ?s"
  let ?cosine = "map (\<lambda>x. lane_cosine (lane_t (lane_series (lane_square x)))) ?s"
  have body: "a_sse4_1_body aVal = a_sse4_1_fixup aVal ?q ?sine ?cosine"
    using assms by (simp add: a_sse4_1_body_def a_sse4_1_reduce_lanes a_sse4_1_poly_lanes)
  have len: "length (a_sse4_1_fixup aVal ?q ?sine ?cosine) = 4"
    using assms by (simp add: a_sse4_1_fixup_length)
  show ?thesis
    unfolding body
  proof (rule nth_equalityI)
    show "length (a_sse4_1_fixup aVal ?q ?sine ?cosine) = length (map lane_sin aVal)"
      using len assms by simp
  next
    fix i assume "i < length (a_sse4_1_fixup aVal ?q ?sine ?cosine)"
    then have "i < 4" using len by simp
    then show "a_sse4_1_fixup aVal ?q ?sine ?cosine ! i = map lane_sin aVal ! i"
      using assms by (simp add: a_sse4_1_fixup_lanes lane_sin_def Let_def)
  qed
qed

lemma u_avx2_fma_reduce_lanes:
  assumes "length aVal = 8"
  shows "u_avx2_fma_reduce aVal =
    (map (\<lambda>x. lane_reduce_fma (lane_abs x) (lane_q (lane_q0 (lane_abs x)))) aVal,
     map (\<lambda>x. lane_q0 (lane_abs x)) aVal)"
  unfolding u_avx2_fma_reduce_def Let_def mm256_defs replicate_as_map [OF assms]
  by (simp add: lane_maps lane_reduce_fma_def lane_q_def lane_q0_def lane_abs_def)

lemma u_avx2_fma_for_i_lanes:
  "u_avx2_fma_for_i (map (\<lambda>_. c) s) 0 (map g s) =
    map (\<lambda>x. let d = (\<lambda>t. f32_mul t (f32_sub c t)) in d (d (d (g x)))) s"
  by (simp add: u_avx2_fma_for_i.simps mm256_defs lane_maps)

lemma u_avx2_fma_poly_lanes:
  assumes "length s = 8"
  shows "u_avx2_fma_poly s =
    (map (\<lambda>x. lane_sine (lane_t (lane_series_fma (lane_square x)))) s,
     map (\<lambda>x. lane_cosine (lane_t (lane_series_fma (lane_square x)))) s)"
  unfolding u_avx2_fma_poly_def Let_def mm256_defs replicate_as_map [OF assms]
  by (simp add: lane_maps u_avx2_fma_for_i_lanes lane_sine_def lane_cosine_def lane_t_def
      lane_series_fma_def lane_square_def lane_double_def)

lemma u_avx2_fma_fixup_lanes:
  assumes "length aVal = 8" "length q = 8" "length sine = 8" "length cosine = 8" "i < 8"
  shows "u_avx2_fma_fixup aVal q sine cosine ! i
         = lane_fixup (aVal ! i) (q ! i) (sine ! i) (cosine ! i)"
  using assms unfolding u_avx2_fma_fixup_def Let_def mm256_defs
  by (simp add: lane_fixup_def lane_negate_def lane_blend_def lane_cond1_def lane_cond2_def)

lemma u_avx2_fma_fixup_length:
  assumes "length aVal = 8" "length q = 8" "length sine = 8" "length cosine = 8"
  shows "length (u_avx2_fma_fixup aVal q sine cosine) = 8"
  using assms unfolding u_avx2_fma_fixup_def Let_def mm256_defs by simp

lemma u_avx2_fma_body_lanes:
  assumes "length aVal = 8"
  shows "u_avx2_fma_body aVal = map lane_sin_fma aVal"
proof -
  let ?s = "map (\<lambda>x. lane_reduce_fma (lane_abs x) (lane_q (lane_q0 (lane_abs x)))) aVal"
  let ?q = "map (\<lambda>x. lane_q0 (lane_abs x)) aVal"
  let ?sine = "map (\<lambda>x. lane_sine (lane_t (lane_series_fma (lane_square x)))) ?s"
  let ?cosine = "map (\<lambda>x. lane_cosine (lane_t (lane_series_fma (lane_square x)))) ?s"
  have body: "u_avx2_fma_body aVal = u_avx2_fma_fixup aVal ?q ?sine ?cosine"
    using assms by (simp add: u_avx2_fma_body_def u_avx2_fma_reduce_lanes u_avx2_fma_poly_lanes)
  have len: "length (u_avx2_fma_fixup aVal ?q ?sine ?cosine) = 8"
    using assms by (simp add: u_avx2_fma_fixup_length)
  show ?thesis
    unfolding body
  proof (rule nth_equalityI)
    show "length (u_avx2_fma_fixup aVal ?q ?sine ?cosine) = length (map lane_sin_fma aVal)"
      using len assms by simp
  next
    fix i assume "i < length (u_avx2_fma_fixup aVal ?q ?sine ?cosine)"
    then have "i < 8" using len by simp
    then show "u_avx2_fma_fixup aVal ?q ?sine ?cosine ! i = map lane_sin_fma aVal ! i"
      using assms by (simp add: u_avx2_fma_fixup_lanes lane_sin_fma_def Let_def)
  qed
qed

lemma u_avx2_reduce_lanes:
  assumes "length aVal = 8"
  shows "u_avx2_reduce aVal =
    (map (\<lambda>x. lane_reduce (lane_abs x) (lane_q (lane_q0 (lane_abs x)))) aVal,
     map (\<lambda>x. lane_q0 (lane_abs x)) aVal)"
  unfolding u_avx2_reduce_def Let_def mm256_defs replicate_as_map [OF assms]
  by (simp add: lane_maps lane_reduce_def lane_q_def lane_q0_def lane_abs_def)

lemma u_avx2_for_i_lanes:
  "u_avx2_for_i (map (\<lambda>_. c) s) 0 (map g s) =
    map (\<lambda>x. let d = (\<lambda>t. f32_mul t (f32_sub c t)) in d (d (d (g x)))) s"
  by (simp add: u_avx2_for_i.simps mm256_defs lane_maps)

lemma u_avx2_poly_lanes:
  assumes "length s = 8"
  shows "u_avx2_poly s =
    (map (\<lambda>x. lane_sine (lane_t (lane_series (lane_square x)))) s,
     map (\<lambda>x. lane_cosine (lane_t (lane_series (lane_square x)))) s)"
  unfolding u_avx2_poly_def Let_def mm256_defs replicate_as_map [OF assms]
  by (simp add: lane_maps u_avx2_for_i_lanes lane_sine_def lane_cosine_def lane_t_def
      lane_series_def lane_square_def lane_double_def)

lemma u_avx2_fixup_lanes:
  assumes "length aVal = 8" "length q = 8" "length sine = 8" "length cosine = 8" "i < 8"
  shows "u_avx2_fixup aVal q sine cosine ! i
         = lane_fixup (aVal ! i) (q ! i) (sine ! i) (cosine ! i)"
  using assms unfolding u_avx2_fixup_def Let_def mm256_defs
  by (simp add: lane_fixup_def lane_negate_def lane_blend_def lane_cond1_def lane_cond2_def)

lemma u_avx2_fixup_length:
  assumes "length aVal = 8" "length q = 8" "length sine = 8" "length cosine = 8"
  shows "length (u_avx2_fixup aVal q sine cosine) = 8"
  using assms unfolding u_avx2_fixup_def Let_def mm256_defs by simp

lemma u_avx2_body_lanes:
  assumes "length aVal = 8"
  shows "u_avx2_body aVal = map lane_sin aVal"
proof -
  let ?s = "map (\<lambda>x. lane_reduce (lane_abs x) (lane_q (lane_q0 (lane_abs x)))) aVal"
  let ?q = "map (\<lambda>x. lane_q0 (lane_abs x)) aVal"
  let ?sine = "map (\<lambda>x. lane_sine (lane_t (lane_series (lane_square x)))) ?s"
  let ?cosine = "map (\<lambda>x. lane_cosine (lane_t (lane_series (lane_square x)))) ?s"
  have body: "u_avx2_body aVal = u_avx2_fixup aVal ?q ?sine ?cosine"
    using assms by (simp add: u_avx2_body_def u_avx2_reduce_lanes u_avx2_poly_lanes)
  have len: "length (u_avx2_fixup aVal ?q ?sine ?cosine) = 8"
    using assms by (simp add: u_avx2_fixup_length)
  show ?thesis
    unfolding body
  proof (rule nth_equalityI)
    show "length (u_avx2_fixup aVal ?q ?sine ?cosine) = length (map lane_sin aVal)"
      using len assms by simp
  next
    fix i assume "i < length (u_avx2_fixup aVal ?q ?sine ?cosine)"
    then have "i < 8" using len by simp
    then show "u_avx2_fixup aVal ?q ?sine ?cosine ! i = map lane_sin aVal ! i"
      using assms by (simp add: u_avx2_fixup_lanes lane_sin_def Let_def)
  qed
qed

lemma u_sse4_1_reduce_lanes:
  assumes "length aVal = 4"
  shows "u_sse4_1_reduce aVal =
    (map (\<lambda>x. lane_reduce (lane_abs x) (lane_q (lane_q0 (lane_abs x)))) aVal,
     map (\<lambda>x. lane_q0 (lane_abs x)) aVal)"
  unfolding u_sse4_1_reduce_def Let_def mm_defs replicate_as_map [OF assms]
  by (simp add: lane_maps lane_reduce_def lane_q_def lane_q0_def lane_abs_def)

lemma u_sse4_1_for_i_lanes:
  "u_sse4_1_for_i (map (\<lambda>_. c) s) 0 (map g s) =
    map (\<lambda>x. let d = (\<lambda>t. f32_mul t (f32_sub c t)) in d (d (d (g x)))) s"
  by (simp add: u_sse4_1_for_i.simps mm_defs lane_maps)

lemma u_sse4_1_poly_lanes:
  assumes "length s = 4"
  shows "u_sse4_1_poly s =
    (map (\<lambda>x. lane_sine (lane_t (lane_series (lane_square x)))) s,
     map (\<lambda>x. lane_cosine (lane_t (lane_series (lane_square x)))) s)"
  unfolding u_sse4_1_poly_def Let_def mm_defs replicate_as_map [OF assms]
  by (simp add: lane_maps u_sse4_1_for_i_lanes lane_sine_def lane_cosine_def lane_t_def
      lane_series_def lane_square_def lane_double_def)

lemma u_sse4_1_fixup_lanes:
  assumes "length aVal = 4" "length q = 4" "length sine = 4" "length cosine = 4" "i < 4"
  shows "u_sse4_1_fixup aVal q sine cosine ! i
         = lane_fixup (aVal ! i) (q ! i) (sine ! i) (cosine ! i)"
  using assms unfolding u_sse4_1_fixup_def Let_def mm_defs
  by (simp add: lane_fixup_def lane_negate_def lane_blend_def lane_cond1_def lane_cond2_def)

lemma u_sse4_1_fixup_length:
  assumes "length aVal = 4" "length q = 4" "length sine = 4" "length cosine = 4"
  shows "length (u_sse4_1_fixup aVal q sine cosine) = 4"
  using assms unfolding u_sse4_1_fixup_def Let_def mm_defs by simp

lemma u_sse4_1_body_lanes:
  assumes "length aVal = 4"
  shows "u_sse4_1_body aVal = map lane_sin aVal"
proof -
  let ?s = "map (\<lambda>x. lane_reduce (lane_abs x) (lane_q (lane_q0 (lane_abs x)))) aVal"
  let ?q = "map (\<lambda>x. lane_q0 (lane_abs x)) aVal"
  let ?sine = "map (\<lambda>x. lane_sine (lane_t (lane_series (lane_square x)))) ?s"
  let ?cosine = "map (\<lambda>x. lane_cosine (lane_t (lane_series (lane_square x)))) ?s"
  have body: "u_sse4_1_body aVal = u_sse4_1_fixup aVal ?q ?sine ?cosine"
    using assms by (simp add: u_sse4_1_body_def u_sse4_1_reduce_lanes u_sse4_1_poly_lanes)
  have len: "length (u_sse4_1_fixup aVal ?q ?sine ?cosine) = 4"
    using assms by (simp add: u_sse4_1_fixup_length)
  show ?thesis
    unfolding body
  proof (rule nth_equalityI)
    show "length (u_sse4_1_fixup aVal ?q ?sine ?cosine) = length (map lane_sin aVal)"
      using len assms by simp
  next
    fix i assume "i < length (u_sse4_1_fixup aVal ?q ?sine ?cosine)"
    then have "i < 4" using len by simp
    then show "u_sse4_1_fixup aVal ?q ?sine ?cosine ! i = map lane_sin aVal ! i"
      using assms by (simp add: u_sse4_1_fixup_lanes lane_sin_def Let_def)
  qed
qed

subsection \<open>The loops\<close>

lemma word_succ_unat:
  fixes number points :: "32 word"
  assumes "number < points"
  shows "unat (number + 1) = Suc (unat number)" and "number + 1 \<le> points"
proof -
  have less: "unat number < unat points"
    using assms by (simp add: word_less_nat_alt)
  moreover have "unat points < 2 ^ 32"
    using unsigned_less [of points, where ?'a = nat] by simp
  ultimately show "unat (number + 1) = Suc (unat number)"
    by (simp add: unat_word_ariths)
  with less show "number + 1 \<le> points"
    by (simp add: word_le_nat_alt)
qed

lemma block_index:
  fixes w n i :: nat
  assumes "w * n \<le> i" "i < w * n + w"
  shows "i div w = n" and "i mod w = i - w * n"
proof -
  have w: "0 < w" using assms by (cases w) auto
  have "i = w * n + (i - w * n)" using assms by simp
  moreover have "i - w * n < w" using assms by simp
  ultimately have "i div w = n \<and> i mod w = i - w * n"
    using w by (metis div_mult_self4 mod_mult_self4 div_less mod_less add.right_neutral less_not_refl)
  then show "i div w = n" and "i mod w = i - w * n" by simp_all
qed

lemma vec_result_step:
  assumes "lo < hi"
  shows "vec_result body w amem (Suc lo) hi
           (store_lanes w mem (w * lo) (body (take w (drop (w * lo) amem))))
         = vec_result body w amem lo hi mem"
proof (rule nth_equalityI)
  show "length (vec_result body w amem (Suc lo) hi
           (store_lanes w mem (w * lo) (body (take w (drop (w * lo) amem)))))
        = length (vec_result body w amem lo hi mem)"
    by (simp add: vec_result_def store_lanes_def)
next
  fix i
  assume "i < length (vec_result body w amem (Suc lo) hi
           (store_lanes w mem (w * lo) (body (take w (drop (w * lo) amem)))))"
  then have i: "i < length mem"
    by (simp add: vec_result_def store_lanes_def)
  have hi: "w * lo + w \<le> w * hi"
  proof -
    have "w * Suc lo \<le> w * hi"
      using assms by (intro mult_le_mono2) simp
    then show ?thesis by simp
  qed
  show "vec_result body w amem (Suc lo) hi
           (store_lanes w mem (w * lo) (body (take w (drop (w * lo) amem)))) ! i
        = vec_result body w amem lo hi mem ! i"
  proof (cases "w * lo \<le> i \<and> i < w * lo + w")
    case True
    then have "i div w = lo" "i mod w = i - w * lo"
      using block_index [of w lo i] by simp_all
    with True i hi show ?thesis
      by (simp add: vec_result_def store_lanes_def)
  next
    case False
    with i show ?thesis
      by (auto simp add: vec_result_def store_lanes_def)
  qed
qed

lemma vector_loop_closed:
  fixes points :: "32 word"
  assumes load: "\<And>k. k < unat points \<Longrightarrow> load (w * k) = Some (take w (drop (w * k) amem))"
    and store: "\<And>k m v. k < unat points \<Longrightarrow> length m = n \<Longrightarrow>
                  store m (w * k) v = Some (store_lanes w m (w * k) v)"
  shows "number \<le> points \<Longrightarrow> length mem = n \<Longrightarrow>
         vector_loop load store body w points number (w * unat number) (w * unat number) mem
         = Some (w * unat points, w * unat points,
                 vec_result body w amem (unat number) (unat points) mem)"
proof (induction "unat points - unat number" arbitrary: number mem)
  case 0
  then have "unat points \<le> unat number" by simp
  with "0.prems" have eq: "number = points"
    by (simp add: word_le_nat_alt word_unat_eq_iff)
  have "vec_result body w amem (unat points) (unat points) mem = mem"
    by (auto simp add: vec_result_def intro!: nth_equalityI)
  then show ?case
    by (simp add: eq vector_loop.simps)
next
  case (Suc d)
  then have lt: "number < points"
    by (simp add: word_less_nat_alt)
  then have un: "unat number < unat points"
    by (simp add: word_less_nat_alt)
  note succ = word_succ_unat [OF lt]
  let ?v = "body (take w (drop (w * unat number) amem))"
  let ?m = "store_lanes w mem (w * unat number) ?v"
  have len: "length ?m = n"
    using Suc.prems by (simp add: store_lanes_def)
  have d: "d = unat points - unat (number + 1)"
    using Suc.hyps(2) succ by simp
  have ih: "vector_loop load store body w points (number + 1) (w * unat (number + 1))
              (w * unat (number + 1)) ?m
            = Some (w * unat points, w * unat points,
                    vec_result body w amem (unat (number + 1)) (unat points) ?m)"
    using Suc.hyps(1) [OF d succ(2) len] .
  have ptr: "w * unat number + w = w * unat (number + 1)"
    using succ by simp
  show ?case
    apply (subst vector_loop.simps)
    using lt load [OF un] store [OF un Suc.prems(2)] ih vec_result_step [OF un, of body w amem mem]
    by (simp add: ptr succ)
qed

lemma scalar_result_step:
  assumes "lo < hi" "lo < length mem"
  shows "scalar_result f amem (Suc lo) hi (mem[lo := f (amem ! lo)]) = scalar_result f amem lo hi mem"
proof (rule nth_equalityI)
  show "length (scalar_result f amem (Suc lo) hi (mem[lo := f (amem ! lo)]))
        = length (scalar_result f amem lo hi mem)"
    by (simp add: scalar_result_def)
next
  fix i
  assume "i < length (scalar_result f amem (Suc lo) hi (mem[lo := f (amem ! lo)]))"
  then have i: "i < length mem"
    by (simp add: scalar_result_def)
  show "scalar_result f amem (Suc lo) hi (mem[lo := f (amem ! lo)]) ! i
        = scalar_result f amem lo hi mem ! i"
  proof (cases "i = lo")
    case True
    with i assms show ?thesis by (simp add: scalar_result_def)
  next
    case False
    with i assms show ?thesis by (auto simp add: scalar_result_def)
  qed
qed

lemma scalar_loop_closed:
  fixes num_points :: "32 word"
  assumes "unat num_points \<le> length amem" "unat num_points \<le> length mem0"
  shows "number \<le> num_points \<Longrightarrow> length mem = length mem0 \<Longrightarrow>
         scalar_loop libm_sin amem num_points number (unat number) (unat number) mem
         = Some (scalar_result (c_sin libm_sin) amem (unat number) (unat num_points) mem)"
proof (induction "unat num_points - unat number" arbitrary: number mem)
  case 0
  then have "unat num_points \<le> unat number" by simp
  with "0.prems" have eq: "number = num_points"
    by (simp add: word_le_nat_alt word_unat_eq_iff)
  have "scalar_result (c_sin libm_sin) amem (unat num_points) (unat num_points) mem = mem"
    by (auto simp add: scalar_result_def intro!: nth_equalityI)
  then show ?case
    by (simp add: eq scalar_loop.simps)
next
  case (Suc d)
  then have lt: "number < num_points"
    by (simp add: word_less_nat_alt)
  then have un: "unat number < unat num_points"
    by (simp add: word_less_nat_alt)
  note succ = word_succ_unat [OF lt]
  let ?m = "mem[unat number := c_sin libm_sin (amem ! unat number)]"
  have len: "length ?m = length mem0"
    using Suc.prems by simp
  have d: "d = unat num_points - unat (number + 1)"
    using Suc.hyps(2) succ by simp
  have ih: "scalar_loop libm_sin amem num_points (number + 1) (unat (number + 1))
              (unat (number + 1)) ?m
            = Some (scalar_result (c_sin libm_sin) amem (unat (number + 1)) (unat num_points) ?m)"
    using Suc.hyps(1) [OF d succ(2) len] .
  have inb: "unat number < length amem" "unat number < length mem"
    using un assms Suc.prems by simp_all
  show ?case
    apply (subst scalar_loop.simps)
    using lt inb ih scalar_result_step [OF un inb(2), of "c_sin libm_sin" amem]
    by (simp add: succ)
qed

lemma kernel_closed:
  fixes n W :: "32 word"
  assumes w: "unat W = w" "0 < w"
    and lanes: "\<And>v. length v = w \<Longrightarrow> body v = map lane v"
    and load: "\<And>p. p + w \<le> length amem \<Longrightarrow> w dvd p \<Longrightarrow> load p = Some (take w (drop p amem))"
    and store: "\<And>p m v. p + w \<le> length m \<Longrightarrow> w dvd p \<Longrightarrow>
                  store m p v = Some (store_lanes w m p v)"
    and len: "unat n \<le> length amem" "unat n \<le> length bmem"
  shows "(case vector_loop load store body w (n div W) 0 0 0 bmem of
            None \<Rightarrow> None
          | Some (aPtr, bPtr, mem) \<Rightarrow> scalar_loop libm_sin amem n (n div W * W) aPtr bPtr mem)
         = Some (kernel_result lane w (c_sin libm_sin) amem (unat n) bmem)"
proof -
  let ?pts = "n div W"
  have pts: "unat ?pts = unat n div w"
    using w by (simp add: unat_div)
  have le: "w * unat ?pts \<le> unat n"
    unfolding pts by simp
  have blk: "w * k + w \<le> unat n" if "k < unat ?pts" for k
  proof -
    have "w * Suc k \<le> w * unat ?pts"
      using that by (intro mult_le_mono2) simp
    with le show ?thesis by simp
  qed
  have l: "load (w * k) = Some (take w (drop (w * k) amem))" if "k < unat ?pts" for k
    using blk [OF that] len by (intro load) simp_all
  have s: "store m (w * k) v = Some (store_lanes w m (w * k) v)"
    if "k < unat ?pts" "length m = length bmem" for k m v
    using blk [OF that(1)] len that(2) by (intro store) simp_all
  have vec: "vector_loop load store body w ?pts 0 0 0 bmem
             = Some (w * unat ?pts, w * unat ?pts, vec_result body w amem 0 (unat ?pts) bmem)"
    using vector_loop_closed [of ?pts load w amem "length bmem" store 0 bmem body, OF l s]
    by simp
  have "unat ?pts * unat W < 2 ^ 32"
    using le w unsigned_less [of n, where ?'a = nat] by (simp add: mult.commute)
  then have num: "unat (?pts * W) = w * unat ?pts"
    using w by (simp add: unat_mult_lem [THEN iffD1] mult.commute)
  have num_le: "?pts * W \<le> n"
    using le num by (simp add: word_le_nat_alt)
  let ?mem = "vec_result body w amem 0 (unat ?pts) bmem"
  have sc: "scalar_loop libm_sin amem n (?pts * W) (w * unat ?pts) (w * unat ?pts) ?mem
            = Some (scalar_result (c_sin libm_sin) amem (w * unat ?pts) (unat n) ?mem)"
    using scalar_loop_closed [OF len num_le, of ?mem libm_sin]
    by (simp add: num vec_result_def)
  have "scalar_result (c_sin libm_sin) amem (w * unat ?pts) (unat n) ?mem
        = kernel_result lane w (c_sin libm_sin) amem (unat n) bmem"
  proof (rule nth_equalityI)
    show "length (scalar_result (c_sin libm_sin) amem (w * unat ?pts) (unat n) ?mem)
          = length (kernel_result lane w (c_sin libm_sin) amem (unat n) bmem)"
      by (simp add: scalar_result_def vec_result_def kernel_result_def)
  next
    fix i
    assume "i < length (scalar_result (c_sin libm_sin) amem (w * unat ?pts) (unat n) ?mem)"
    then have i: "i < length bmem"
      by (simp add: scalar_result_def vec_result_def)
    show "scalar_result (c_sin libm_sin) amem (w * unat ?pts) (unat n) ?mem ! i
          = kernel_result lane w (c_sin libm_sin) amem (unat n) bmem ! i"
    proof (cases "i < w * unat ?pts")
      case True
      then have "i div w < unat ?pts"
        using w(2) by (simp add: less_mult_imp_div_less mult.commute)
      then have inb: "w * (i div w) + w \<le> length amem"
        using blk len by (meson le_trans)
      have "length (take w (drop (w * (i div w)) amem)) = w"
        using inb by simp
      then have "body (take w (drop (w * (i div w)) amem)) ! (i mod w)
                 = lane (take w (drop (w * (i div w)) amem) ! (i mod w))"
        using lanes w(2) by simp
      also have "\<dots> = lane (amem ! (w * (i div w) + i mod w))"
        using inb w(2) by simp
      finally show ?thesis
        using True i le by (simp add: scalar_result_def vec_result_def kernel_result_def pts)
    next
      case False
      then show ?thesis
        using i by (simp add: scalar_result_def vec_result_def kernel_result_def pts)
    qed
  qed
  with vec sc show ?thesis by simp
qed

lemma aligned_16:
  fixes b p :: nat
  assumes "b mod 16 = 0" "4 dvd p"
  shows "(b + 4 * p) mod 16 = 0"
proof -
  obtain k where "p = 4 * k" using assms(2) by auto
  then have "b + 4 * p = b + 16 * k" by simp
  with assms(1) show ?thesis by simp
qed

lemma aligned_32:
  fixes b p :: nat
  assumes "b mod 32 = 0" "8 dvd p"
  shows "(b + 4 * p) mod 32 = 0"
proof -
  obtain k where "p = 8 * k" using assms(2) by auto
  then have "b + 4 * p = b + 32 * k" by simp
  with assms(1) show ?thesis by simp
qed

lemma a_avx2_fma_closed:
  assumes "base aVector mod 32 = 0" "base bVector mod 32 = 0"
    and "unat n \<le> length (cells aVector)" "unat n \<le> length (cells bVector)"
  shows "volk_32f_sin_32f_a_avx2_fma libm_sin bVector aVector n
         = Some (kernel_result lane_sin_fma 8 (c_sin libm_sin) (cells aVector) (unat n) (cells bVector))"
  unfolding volk_32f_sin_32f_a_avx2_fma_def Let_def
  using assms
  by (intro kernel_closed [where W = 8 and w = 8 and lane = lane_sin_fma])
    (simp_all add: a_avx2_fma_body_lanes mm256_load_ps_def mm256_loadu_ps_def mm256_store_ps_def
      mm256_storeu_ps_def aligned_32)

lemma a_avx2_closed:
  assumes "base aVector mod 32 = 0" "base bVector mod 32 = 0"
    and "unat n \<le> length (cells aVector)" "unat n \<le> length (cells bVector)"
  shows "volk_32f_sin_32f_a_avx2 libm_sin bVector aVector n
         = Some (kernel_result lane_sin 8 (c_sin libm_sin) (cells aVector) (unat n) (cells bVector))"
  unfolding volk_32f_sin_32f_a_avx2_def Let_def
  using assms
  by (intro kernel_closed [where W = 8 and w = 8 and lane = lane_sin])
    (simp_all add: a_avx2_body_lanes mm256_load_ps_def mm256_loadu_ps_def mm256_store_ps_def
      mm256_storeu_ps_def aligned_32)

lemma a_sse4_1_closed:
  assumes "base aVector mod 16 = 0" "base bVector mod 16 = 0"
    and "unat n \<le> length (cells aVector)" "unat n \<le> length (cells bVector)"
  shows "volk_32f_sin_32f_a_sse4_1 libm_sin bVector aVector n
         = Some (kernel_result lane_sin 4 (c_sin libm_sin) (cells aVector) (unat n) (cells bVector))"
  unfolding volk_32f_sin_32f_a_sse4_1_def Let_def
  using assms
  by (intro kernel_closed [where W = 4 and w = 4 and lane = lane_sin])
    (simp_all add: a_sse4_1_body_lanes mm_load_ps_def mm_loadu_ps_def mm_store_ps_def
      mm_storeu_ps_def aligned_16)

lemma u_avx2_fma_closed:
  assumes "unat n \<le> length (cells aVector)" "unat n \<le> length (cells bVector)"
  shows "volk_32f_sin_32f_u_avx2_fma libm_sin bVector aVector n
         = Some (kernel_result lane_sin_fma 8 (c_sin libm_sin) (cells aVector) (unat n) (cells bVector))"
  unfolding volk_32f_sin_32f_u_avx2_fma_def Let_def
  using assms
  by (intro kernel_closed [where W = 8 and w = 8 and lane = lane_sin_fma])
    (simp_all add: u_avx2_fma_body_lanes mm256_loadu_ps_def mm256_storeu_ps_def)

lemma u_avx2_closed:
  assumes "unat n \<le> length (cells aVector)" "unat n \<le> length (cells bVector)"
  shows "volk_32f_sin_32f_u_avx2 libm_sin bVector aVector n
         = Some (kernel_result lane_sin 8 (c_sin libm_sin) (cells aVector) (unat n) (cells bVector))"
  unfolding volk_32f_sin_32f_u_avx2_def Let_def
  using assms
  by (intro kernel_closed [where W = 8 and w = 8 and lane = lane_sin])
    (simp_all add: u_avx2_body_lanes mm256_loadu_ps_def mm256_storeu_ps_def)

lemma u_sse4_1_closed:
  assumes "unat n \<le> length (cells aVector)" "unat n \<le> length (cells bVector)"
  shows "volk_32f_sin_32f_u_sse4_1 libm_sin bVector aVector n
         = Some (kernel_result lane_sin 4 (c_sin libm_sin) (cells aVector) (unat n) (cells bVector))"
  unfolding volk_32f_sin_32f_u_sse4_1_def Let_def
  using assms
  by (intro kernel_closed [where W = 4 and w = 4 and lane = lane_sin])
    (simp_all add: u_sse4_1_body_lanes mm_loadu_ps_def mm_storeu_ps_def)

lemma generic_closed:
  assumes "unat n \<le> length (cells aVector)" "unat n \<le> length (cells bVector)"
  shows "volk_32f_sin_32f_generic libm_sin bVector aVector n
         = Some (scalar_result (c_sin libm_sin) (cells aVector) 0 (unat n) (cells bVector))"
  unfolding volk_32f_sin_32f_generic_def
  using scalar_loop_closed [OF assms, of 0 "cells bVector" libm_sin] by simp

subsection \<open>Aligned and unaligned entry points\<close>

lemma vector_loop_aligned_16:
  fixes points :: "32 word"
  assumes "abase mod 16 = 0" "bbase mod 16 = 0"
  shows "4 dvd aPtr \<Longrightarrow> 4 dvd bPtr \<Longrightarrow>
         vector_loop (mm_load_ps abase amem) (mm_store_ps bbase) body 4 points number aPtr bPtr mem
         = vector_loop (mm_loadu_ps amem) mm_storeu_ps body 4 points number aPtr bPtr mem"
proof (induction "unat points - unat number" arbitrary: number aPtr bPtr mem)
  case 0
  then have "\<not> number < points"
    by (simp add: word_less_nat_alt)
  then show ?case
    by (simp add: vector_loop.simps)
next
  case (Suc d)
  then have lt: "number < points"
    by (simp add: word_less_nat_alt)
  have d: "d = unat points - unat (number + 1)"
    using Suc.hyps(2) word_succ_unat(1) [OF lt] by simp
  have ptr: "4 dvd aPtr + 4" "4 dvd bPtr + 4"
    using Suc.prems by simp_all
  have ld: "mm_load_ps abase amem aPtr = mm_loadu_ps amem aPtr"
    using assms(1) Suc.prems(1) by (simp add: mm_load_ps_def aligned_16)
  have st: "mm_store_ps bbase m bPtr v = mm_storeu_ps m bPtr v" for m v
    using assms(2) Suc.prems(2) by (simp add: mm_store_ps_def aligned_16)
  have ih: "vector_loop (mm_load_ps abase amem) (mm_store_ps bbase) body 4 points (number + 1)
              (aPtr + 4) (bPtr + 4) m
            = vector_loop (mm_loadu_ps amem) mm_storeu_ps body 4 points (number + 1)
              (aPtr + 4) (bPtr + 4) m" for m
    using Suc.hyps(1) [OF d ptr] .
  show ?case
    by (simp add: vector_loop.simps [of _ _ _ _ _ number] lt ld st ih split: option.splits)
qed

lemma vector_loop_aligned_32:
  fixes points :: "32 word"
  assumes "abase mod 32 = 0" "bbase mod 32 = 0"
  shows "8 dvd aPtr \<Longrightarrow> 8 dvd bPtr \<Longrightarrow>
         vector_loop (mm256_load_ps abase amem) (mm256_store_ps bbase) body 8 points number aPtr bPtr mem
         = vector_loop (mm256_loadu_ps amem) mm256_storeu_ps body 8 points number aPtr bPtr mem"
proof (induction "unat points - unat number" arbitrary: number aPtr bPtr mem)
  case 0
  then have "\<not> number < points"
    by (simp add: word_less_nat_alt)
  then show ?case
    by (simp add: vector_loop.simps)
next
  case (Suc d)
  then have lt: "number < points"
    by (simp add: word_less_nat_alt)
  have d: "d = unat points - unat (number + 1)"
    using Suc.hyps(2) word_succ_unat(1) [OF lt] by simp
  have ptr: "8 dvd aPtr + 8" "8 dvd bPtr + 8"
    using Suc.prems by simp_all
  have ld: "mm256_load_ps abase amem aPtr = mm256_loadu_ps amem aPtr"
    using assms(1) Suc.prems(1) by (simp add: mm256_load_ps_def aligned_32)
  have st: "mm256_store_ps bbase m bPtr v = mm256_storeu_ps m bPtr v" for m v
    using assms(2) Suc.prems(2) by (simp add: mm256_store_ps_def aligned_32)
  have ih: "vector_loop (mm256_load_ps abase amem) (mm256_store_ps bbase) body 8 points (number + 1)
              (aPtr + 8) (bPtr + 8) m
            = vector_loop (mm256_loadu_ps amem) mm256_storeu_ps body 8 points (number + 1)
              (aPtr + 8) (bPtr + 8) m" for m
    using Suc.hyps(1) [OF d ptr] .
  show ?case
    by (simp add: vector_loop.simps [of _ _ _ _ _ number] lt ld st ih split: option.splits)
qed

lemma vector_loop_unaligned_16:
  fixes points :: "32 word"
  shows "vector_loop (mm_load_ps abase amem) (mm_store_ps bbase) body 4 points number aPtr bPtr mem
           = Some r \<Longrightarrow>
         vector_loop (mm_loadu_ps amem) mm_storeu_ps body 4 points number aPtr bPtr mem = Some r"
proof (induction "unat points - unat number" arbitrary: number aPtr bPtr mem)
  case 0
  then have "\<not> number < points"
    by (simp add: word_less_nat_alt)
  with "0.prems" show ?case
    by (simp add: vector_loop.simps)
next
  case (Suc d)
  then have lt: "number < points"
    by (simp add: word_less_nat_alt)
  have d: "d = unat points - unat (number + 1)"
    using Suc.hyps(2) word_succ_unat(1) [OF lt] by simp
  from Suc.prems obtain aVal m
    where ld: "mm_load_ps abase amem aPtr = Some aVal"
      and st: "mm_store_ps bbase mem bPtr (body aVal) = Some m"
      and rest: "vector_loop (mm_load_ps abase amem) (mm_store_ps bbase) body 4 points (number + 1)
                   (aPtr + 4) (bPtr + 4) m = Some r"
    by (simp add: vector_loop.simps [of _ _ _ _ _ number] lt split: option.splits)
  have ldu: "mm_loadu_ps amem aPtr = Some aVal"
    using ld by (simp add: mm_load_ps_def split: if_splits)
  have stu: "mm_storeu_ps mem bPtr (body aVal) = Some m"
    using st by (simp add: mm_store_ps_def split: if_splits)
  show ?case
    using Suc.hyps(1) [OF d rest]
    by (simp add: vector_loop.simps [of _ _ _ _ _ number] lt ldu stu)
qed

lemma vector_loop_unaligned_32:
  fixes points :: "32 word"
  shows "vector_loop (mm256_load_ps abase amem) (mm256_store_ps bbase) body 8 points number aPtr bPtr mem
           = Some r \<Longrightarrow>
         vector_loop (mm256_loadu_ps amem) mm256_storeu_ps body 8 points number aPtr bPtr mem = Some r"
proof (induction "unat points - unat number" arbitrary: number aPtr bPtr mem)
  case 0
  then have "\<not> number < points"
    by (simp add: word_less_nat_alt)
  with "0.prems" show ?case
    by (simp add: vector_loop.simps)
next
  case (Suc d)
  then have lt: "number < points"
    by (simp add: word_less_nat_alt)
  have d: "d = unat points - unat (number + 1)"
    using Suc.hyps(2) word_succ_unat(1) [OF lt] by simp
  from Suc.prems obtain aVal m
    where ld: "mm256_load_ps abase amem aPtr = Some aVal"
      and st: "mm256_store_ps bbase mem bPtr (body aVal) = Some m"
      and rest: "vector_loop (mm256_load_ps abase amem) (mm256_store_ps bbase) body 8 points (number + 1)
                   (aPtr + 8) (bPtr + 8) m = Some r"
    by (simp add: vector_loop.simps [of _ _ _ _ _ number] lt split: option.splits)
  have ldu: "mm256_loadu_ps amem aPtr = Some aVal"
    using ld by (simp add: mm256_load_ps_def split: if_splits)
  have stu: "mm256_storeu_ps mem bPtr (body aVal) = Some m"
    using st by (simp add: mm256_store_ps_def split: if_splits)
  show ?case
    using Suc.hyps(1) [OF d rest]
    by (simp add: vector_loop.simps [of _ _ _ _ _ number] lt ldu stu)
qed

lemma sse4_1_for_i_eq: "a_sse4_1_for_i c 0 s = u_sse4_1_for_i c 0 s"
  by (simp add: a_sse4_1_for_i.simps u_sse4_1_for_i.simps)

lemma sse4_1_body_eq: "a_sse4_1_body = u_sse4_1_body"
  by (rule ext)
    (simp add: a_sse4_1_body_def u_sse4_1_body_def a_sse4_1_reduce_def u_sse4_1_reduce_def
      a_sse4_1_poly_def u_sse4_1_poly_def a_sse4_1_fixup_def u_sse4_1_fixup_def sse4_1_for_i_eq)

lemma avx2_for_i_eq: "a_avx2_for_i c 0 s = u_avx2_for_i c 0 s"
  by (simp add: a_avx2_for_i.simps u_avx2_for_i.simps)

lemma avx2_body_eq: "a_avx2_body = u_avx2_body"
  by (rule ext)
    (simp add: a_avx2_body_def u_avx2_body_def a_avx2_reduce_def u_avx2_reduce_def
      a_avx2_poly_def u_avx2_poly_def a_avx2_fixup_def u_avx2_fixup_def avx2_for_i_eq)

lemma avx2_fma_for_i_eq: "a_avx2_fma_for_i c 0 s = u_avx2_fma_for_i c 0 s"
  by (simp add: a_avx2_fma_for_i.simps u_avx2_fma_for_i.simps)

lemma avx2_fma_body_eq: "a_avx2_fma_body = u_avx2_fma_body"
  by (rule ext)
    (simp add: a_avx2_fma_body_def u_avx2_fma_body_def a_avx2_fma_reduce_def u_avx2_fma_reduce_def
      a_avx2_fma_poly_def u_avx2_fma_poly_def a_avx2_fma_fixup_def u_avx2_fma_fixup_def avx2_fma_for_i_eq)

text \<open>
  Claim C8.  The aligned and the unaligned entry point of one instruction set return the
  same result for every input array and every \<^verbatim>\<open>num_points\<close>, provided the two buffers
  meet the alignment that the aligned entry point assumes (16 bytes for SSE4.1, 32 bytes
  for AVX2): the bodies are the same arithmetic, and only the loads and stores differ.
  Whatever the alignment is, an output that the aligned entry point returns is also what
  the unaligned one returns.
\<close>

theorem aligned_and_unaligned_agree:
  "(base aVector mod 16 = 0 \<and> base bVector mod 16 = 0 \<longrightarrow>
      volk_32f_sin_32f_a_sse4_1 libm_sin bVector aVector n
      = volk_32f_sin_32f_u_sse4_1 libm_sin bVector aVector n)
   \<and> (base aVector mod 32 = 0 \<and> base bVector mod 32 = 0 \<longrightarrow>
      volk_32f_sin_32f_a_avx2 libm_sin bVector aVector n
      = volk_32f_sin_32f_u_avx2 libm_sin bVector aVector n
      \<and> volk_32f_sin_32f_a_avx2_fma libm_sin bVector aVector n
        = volk_32f_sin_32f_u_avx2_fma libm_sin bVector aVector n)
   \<and> (volk_32f_sin_32f_a_sse4_1 libm_sin bVector aVector n = Some out \<longrightarrow>
      volk_32f_sin_32f_u_sse4_1 libm_sin bVector aVector n = Some out)
   \<and> (volk_32f_sin_32f_a_avx2 libm_sin bVector aVector n = Some out \<longrightarrow>
      volk_32f_sin_32f_u_avx2 libm_sin bVector aVector n = Some out)
   \<and> (volk_32f_sin_32f_a_avx2_fma libm_sin bVector aVector n = Some out \<longrightarrow>
      volk_32f_sin_32f_u_avx2_fma libm_sin bVector aVector n = Some out)"
proof -
  have sse: "volk_32f_sin_32f_u_sse4_1 libm_sin bVector aVector n = Some out"
    if a: "volk_32f_sin_32f_a_sse4_1 libm_sin bVector aVector n = Some out"
  proof -
    from a obtain r
      where v: "vector_loop (mm_load_ps (base aVector) (cells aVector)) (mm_store_ps (base bVector))
                  u_sse4_1_body 4 (n div 4) 0 0 0 (cells bVector) = Some r"
      by (cases "vector_loop (mm_load_ps (base aVector) (cells aVector))
                   (mm_store_ps (base bVector)) u_sse4_1_body 4 (n div 4) 0 0 0 (cells bVector)")
        (simp_all add: volk_32f_sin_32f_a_sse4_1_def sse4_1_body_eq)
    show ?thesis
      using a v vector_loop_unaligned_16 [OF v]
      by (simp add: volk_32f_sin_32f_a_sse4_1_def volk_32f_sin_32f_u_sse4_1_def sse4_1_body_eq)
  qed
  have avx2: "volk_32f_sin_32f_u_avx2 libm_sin bVector aVector n = Some out"
    if a: "volk_32f_sin_32f_a_avx2 libm_sin bVector aVector n = Some out"
  proof -
    from a obtain r
      where v: "vector_loop (mm256_load_ps (base aVector) (cells aVector))
                  (mm256_store_ps (base bVector)) u_avx2_body 8 (n div 8) 0 0 0 (cells bVector)
                = Some r"
      by (cases "vector_loop (mm256_load_ps (base aVector) (cells aVector))
                   (mm256_store_ps (base bVector)) u_avx2_body 8 (n div 8) 0 0 0 (cells bVector)")
        (simp_all add: volk_32f_sin_32f_a_avx2_def avx2_body_eq)
    show ?thesis
      using a v vector_loop_unaligned_32 [OF v]
      by (simp add: volk_32f_sin_32f_a_avx2_def volk_32f_sin_32f_u_avx2_def avx2_body_eq)
  qed
  have fma: "volk_32f_sin_32f_u_avx2_fma libm_sin bVector aVector n = Some out"
    if a: "volk_32f_sin_32f_a_avx2_fma libm_sin bVector aVector n = Some out"
  proof -
    from a obtain r
      where v: "vector_loop (mm256_load_ps (base aVector) (cells aVector))
                  (mm256_store_ps (base bVector)) u_avx2_fma_body 8 (n div 8) 0 0 0
                  (cells bVector) = Some r"
      by (cases "vector_loop (mm256_load_ps (base aVector) (cells aVector))
                   (mm256_store_ps (base bVector)) u_avx2_fma_body 8 (n div 8) 0 0 0
                   (cells bVector)")
        (simp_all add: volk_32f_sin_32f_a_avx2_fma_def avx2_fma_body_eq)
    show ?thesis
      using a v vector_loop_unaligned_32 [OF v]
      by (simp add: volk_32f_sin_32f_a_avx2_fma_def volk_32f_sin_32f_u_avx2_fma_def
          avx2_fma_body_eq)
  qed
  have "base aVector mod 16 = 0 \<and> base bVector mod 16 = 0 \<longrightarrow>
      volk_32f_sin_32f_a_sse4_1 libm_sin bVector aVector n
      = volk_32f_sin_32f_u_sse4_1 libm_sin bVector aVector n"
    by (simp add: volk_32f_sin_32f_a_sse4_1_def volk_32f_sin_32f_u_sse4_1_def sse4_1_body_eq
        vector_loop_aligned_16)
  moreover have "base aVector mod 32 = 0 \<and> base bVector mod 32 = 0 \<longrightarrow>
      volk_32f_sin_32f_a_avx2 libm_sin bVector aVector n
      = volk_32f_sin_32f_u_avx2 libm_sin bVector aVector n
      \<and> volk_32f_sin_32f_a_avx2_fma libm_sin bVector aVector n
        = volk_32f_sin_32f_u_avx2_fma libm_sin bVector aVector n"
    by (simp add: volk_32f_sin_32f_a_avx2_def volk_32f_sin_32f_u_avx2_def
        volk_32f_sin_32f_a_avx2_fma_def volk_32f_sin_32f_u_avx2_fma_def
        avx2_body_eq avx2_fma_body_eq vector_loop_aligned_32)
  ultimately show ?thesis
    using sse avx2 fma by blast
qed

theorem aligned_and_unaligned_agree_witness:
  "base \<lparr>base = 64, cells = replicate 9 0x3F800000\<rparr> mod 32 = 0
   \<and> base \<lparr>base = 128, cells = replicate 9 0\<rparr> mod 32 = 0
   \<and> volk_32f_sin_32f_a_sse4_1 (\<lambda>d. d) \<lparr>base = 128, cells = replicate 9 0\<rparr> \<lparr>base = 64, cells = replicate 9 0x3F800000\<rparr> 9
     = Some (kernel_result lane_sin 4 (c_sin (\<lambda>d. d)) (cells \<lparr>base = 64, cells = replicate 9 0x3F800000\<rparr>) 9 (cells \<lparr>base = 128, cells = replicate 9 0\<rparr>))
   \<and> volk_32f_sin_32f_u_sse4_1 (\<lambda>d. d) \<lparr>base = 128, cells = replicate 9 0\<rparr> \<lparr>base = 64, cells = replicate 9 0x3F800000\<rparr> 9
     = Some (kernel_result lane_sin 4 (c_sin (\<lambda>d. d)) (cells \<lparr>base = 64, cells = replicate 9 0x3F800000\<rparr>) 9 (cells \<lparr>base = 128, cells = replicate 9 0\<rparr>))
   \<and> volk_32f_sin_32f_a_avx2 (\<lambda>d. d) \<lparr>base = 128, cells = replicate 9 0\<rparr> \<lparr>base = 64, cells = replicate 9 0x3F800000\<rparr> 9
     = volk_32f_sin_32f_u_avx2 (\<lambda>d. d) \<lparr>base = 128, cells = replicate 9 0\<rparr> \<lparr>base = 64, cells = replicate 9 0x3F800000\<rparr> 9
   \<and> volk_32f_sin_32f_a_avx2_fma (\<lambda>d. d) \<lparr>base = 128, cells = replicate 9 0\<rparr> \<lparr>base = 64, cells = replicate 9 0x3F800000\<rparr> 9
     = volk_32f_sin_32f_u_avx2_fma (\<lambda>d. d) \<lparr>base = 128, cells = replicate 9 0\<rparr> \<lparr>base = 64, cells = replicate 9 0x3F800000\<rparr> 9"
proof -
  have al: "base \<lparr>base = 64, cells = replicate 9 0x3F800000\<rparr> mod 32 = 0" "base \<lparr>base = 128, cells = replicate 9 0\<rparr> mod 32 = 0"
    "base \<lparr>base = 64, cells = replicate 9 0x3F800000\<rparr> mod 16 = 0" "base \<lparr>base = 128, cells = replicate 9 0\<rparr> mod 16 = 0"
    by simp_all
  have a: "volk_32f_sin_32f_a_sse4_1 (\<lambda>d. d) \<lparr>base = 128, cells = replicate 9 0\<rparr> \<lparr>base = 64, cells = replicate 9 0x3F800000\<rparr> 9
     = Some (kernel_result lane_sin 4 (c_sin (\<lambda>d. d)) (cells \<lparr>base = 64, cells = replicate 9 0x3F800000\<rparr>) 9 (cells \<lparr>base = 128, cells = replicate 9 0\<rparr>))"
    using a_sse4_1_closed [OF al(3,4), of 9 "\<lambda>d. d"] by simp
  note inst = aligned_and_unaligned_agree [of "\<lparr>base = 64, cells = replicate 9 0x3F800000\<rparr>" "\<lparr>base = 128, cells = replicate 9 0\<rparr>" "\<lambda>d. d" 9
      "kernel_result lane_sin 4 (c_sin (\<lambda>d. d)) (cells \<lparr>base = 64, cells = replicate 9 0x3F800000\<rparr>) 9 (cells \<lparr>base = 128, cells = replicate 9 0\<rparr>)"]
  from inst a have "volk_32f_sin_32f_u_sse4_1 (\<lambda>d. d) \<lparr>base = 128, cells = replicate 9 0\<rparr> \<lparr>base = 64, cells = replicate 9 0x3F800000\<rparr> 9
     = Some (kernel_result lane_sin 4 (c_sin (\<lambda>d. d)) (cells \<lparr>base = 64, cells = replicate 9 0x3F800000\<rparr>) 9 (cells \<lparr>base = 128, cells = replicate 9 0\<rparr>))"
    by blast
  moreover from inst al have "volk_32f_sin_32f_a_avx2 (\<lambda>d. d) \<lparr>base = 128, cells = replicate 9 0\<rparr> \<lparr>base = 64, cells = replicate 9 0x3F800000\<rparr> 9
     = volk_32f_sin_32f_u_avx2 (\<lambda>d. d) \<lparr>base = 128, cells = replicate 9 0\<rparr> \<lparr>base = 64, cells = replicate 9 0x3F800000\<rparr> 9"
    "volk_32f_sin_32f_a_avx2_fma (\<lambda>d. d) \<lparr>base = 128, cells = replicate 9 0\<rparr> \<lparr>base = 64, cells = replicate 9 0x3F800000\<rparr> 9
     = volk_32f_sin_32f_u_avx2_fma (\<lambda>d. d) \<lparr>base = 128, cells = replicate 9 0\<rparr> \<lparr>base = 64, cells = replicate 9 0x3F800000\<rparr> 9"
    by blast+
  ultimately show ?thesis
    using al a by blast
qed

subsection \<open>Operations of binary32 that are exact\<close>

text \<open>
  The kernels negate a lane as \<open>v - 2 * v\<close> and keep it as \<open>v - 0\<close>.  For a finite value
  both the doubling and the difference are exact, so that the first is the lane with
  its sign bit flipped (unless \<open>2 * v\<close> overflows or \<open>v\<close> is zero) and the second is the
  lane itself; the absolute value of the kernels clears the sign bit.
\<close>

declare bit_length.simps [simp del]

lemma bit_length_pos: "0 < n \<Longrightarrow> bit_length n = 1 + bit_length (n div 2)"
  by (subst bit_length.simps) simp

lemma bit_length_nonpos: "n \<le> 0 \<Longrightarrow> bit_length n = 0"
  by (subst bit_length.simps) simp

lemma bit_length_nonneg: "0 \<le> bit_length n"
proof (induction n rule: bit_length.induct)
  case (1 n)
  then show ?case
    by (cases "n \<le> 0") (simp_all add: bit_length_nonpos bit_length_pos)
qed

lemma bit_length_bounds:
  "0 < n \<Longrightarrow> 2 ^ nat (bit_length n - 1) \<le> n \<and> n < 2 ^ nat (bit_length n)"
proof (induction n rule: bit_length.induct)
  case (1 n)
  show ?case
  proof (cases "n = 1")
    case True
    then show ?thesis
      by (simp add: bit_length_pos bit_length_nonpos)
  next
    case False
    with "1.prems" have h: "0 < n div 2" "\<not> n \<le> 0"
      by simp_all
    from "1.IH" [OF h(2) h(1)]
    have ih: "2 ^ nat (bit_length (n div 2) - 1) \<le> n div 2" "n div 2 < 2 ^ nat (bit_length (n div 2))"
      by simp_all
    have pos: "1 \<le> bit_length (n div 2)"
      using bit_length_pos [OF h(1)] bit_length_nonneg [of "n div 2 div 2"] by simp
    have e1: "nat (bit_length n - 1) = Suc (nat (bit_length (n div 2) - 1))"
      using pos "1.prems" by (simp add: bit_length_pos nat_diff_distrib flip: Suc_nat_eq_nat_zadd1)
    have e2: "nat (bit_length n) = Suc (nat (bit_length (n div 2)))"
      using pos "1.prems" by (simp add: bit_length_pos nat_add_distrib)
    show ?thesis
      unfolding e1 e2 using ih by simp presburger
  qed
qed

lemma bit_length_unique:
  assumes "2 ^ k \<le> n" "n < 2 ^ Suc k"
  shows "bit_length n = int k + 1"
proof -
  have n: "0 < n"
    using assms(1) by (meson less_le_trans zero_less_numeral zero_less_power)
  note b = bit_length_bounds [OF n]
  have bl: "1 \<le> bit_length n"
    using bit_length_pos [OF n] bit_length_nonneg [of "n div 2"] by simp
  have "(2 :: int) ^ k < 2 ^ nat (bit_length n)"
    using assms(1) b by linarith
  then have 1: "k < nat (bit_length n)"
    by (simp add: power_strict_increasing_iff)
  have "(2 :: int) ^ nat (bit_length n - 1) < 2 ^ Suc k"
    using assms(2) b by linarith
  then have 2: "nat (bit_length n - 1) < Suc k"
    by (simp only: power_strict_increasing_iff one_less_numeral_iff semiring_norm)
  from 1 2 bl show ?thesis
    by linarith
qed

lemma bit_length_shift:
  assumes "0 < n"
  shows "bit_length (n * 2 ^ j) = bit_length n + int j"
proof -
  note b = bit_length_bounds [OF assms]
  have bl: "1 \<le> bit_length n"
    using bit_length_pos [OF assms] bit_length_nonneg [of "n div 2"] by simp
  let ?k = "nat (bit_length n - 1)"
  have k: "nat (bit_length n) = Suc ?k"
    using bl by simp
  have "2 ^ (?k + j) \<le> n * 2 ^ j"
    using b by (simp add: power_add)
  moreover have "n * 2 ^ j < 2 ^ Suc (?k + j)"
    using b unfolding k by (simp add: power_add)
  ultimately have "bit_length (n * 2 ^ j) = int (?k + j) + 1"
    by (rule bit_length_unique)
  with bl show ?thesis
    by simp
qed

lemma floor_log2_quot_one:
  assumes "0 < n"
  shows "floor_log2_quot n 1 = bit_length n - 1"
proof -
  have one: "bit_length 1 = 1"
    by (simp add: bit_length_pos bit_length_nonpos)
  have bl: "1 \<le> bit_length n"
    using bit_length_pos [OF assms] bit_length_nonneg [of "n div 2"] by simp
  show ?thesis
    using bit_length_bounds [OF assms] bl by (simp add: floor_log2_quot_def one)
qed

lemma round_exact:
  assumes "canonical m e" "0 < m"
  shows "fp_round_mag 23 8 (m * 2 ^ j) 1 (e - int j) = (e + 149) * 2 ^ 23 + m"
proof -
  let ?n = "m * 2 ^ j"
  have n: "0 < ?n"
    using assms(2) by simp
  have c: "m < 2 ^ 24" "- 149 \<le> e" "e \<le> 104" "m < 2 ^ 23 \<longrightarrow> e = - 149"
    using assms(1) by (simp_all add: canonical_def)
  have bl: "bit_length ?n = bit_length m + int j"
    using assms(2) by (rule bit_length_shift)
  have blm: "1 \<le> bit_length m" "bit_length m \<le> 24"
  proof -
    show "1 \<le> bit_length m"
      using bit_length_pos [OF assms(2)] bit_length_nonneg [of "m div 2"] by simp
    have "(2 :: int) ^ nat (bit_length m - 1) < 2 ^ 24"
      using bit_length_bounds [OF assms(2)] c(1) by linarith
    then have "nat (bit_length m - 1) < 24"
      by (simp only: power_strict_increasing_iff one_less_numeral_iff semiring_norm)
    then show "bit_length m \<le> 24"
      by linarith
  qed
  have ex: "max (floor_log2_quot ?n 1 + (e - int j) - int 23) (fp_elo 23 8) = e"
  proof (cases "m < 2 ^ 23")
    case True
    with c have "e = - 149" by simp
    have "(2 :: int) ^ nat (bit_length m - 1) < 2 ^ 23"
      using bit_length_bounds [OF assms(2)] True by linarith
    then have "nat (bit_length m - 1) < 23"
      by (simp only: power_strict_increasing_iff one_less_numeral_iff semiring_norm)
    then have "bit_length m \<le> 23"
      by linarith
    then show ?thesis
      using \<open>e = - 149\<close> by (simp add: floor_log2_quot_one [OF n] bl fp_elo_def)
  next
    case False
    then have "2 ^ 23 \<le> m" by simp
    then have "bit_length m = int 23 + 1"
      using c(1) by (intro bit_length_unique) simp_all
    then show ?thesis
      using c by (simp add: floor_log2_quot_one [OF n] bl fp_elo_def)
  qed
  have pat: "(e + 149) * 2 ^ 23 + m < fp_inf_mag 23 8"
  proof -
    have "(e + 149) * 2 ^ 23 \<le> 253 * (2 :: int) ^ 23"
      using c(3) by simp
    with c(1) show ?thesis
      by (simp add: fp_inf_mag_def)
  qed
  have elo: "fp_elo 23 8 = - 149"
    by (simp add: fp_elo_def)
  have unf: "fp_round_mag 23 8 ?n 1 (e - int j)
    = (let sh = e - int j - e;
           num = (if 0 \<le> sh then ?n * 2 ^ nat sh else ?n);
           den = (if 0 \<le> sh then 1 else 1 * 2 ^ nat (- sh));
           q = num div den;
           r = num mod den;
           q' = (if den < 2 * r \<or> (2 * r = den \<and> odd q) then q + 1 else q);
           pat = (e - fp_elo 23 8) * 2 ^ 23 + q'
       in if fp_inf_mag 23 8 \<le> pat then fp_inf_mag 23 8 else pat)"
    using assms(2) unfolding fp_round_mag_def Let_def ex by simp
  show ?thesis
  proof (cases "j = 0")
    case True
    then show ?thesis
      unfolding unf using pat by (simp add: elo)
  next
    case False
    then have neg: "\<not> 0 \<le> e - int j - e" "nat (- (e - int j - e)) = j"
      by simp_all
    have dv: "m * 2 ^ j div (1 * 2 ^ j) = m" "m * 2 ^ j mod (1 * 2 ^ j) = 0"
      by simp_all
    have den: "\<not> (1 * 2 ^ j < (0 :: int))"
      by simp
    show ?thesis
      unfolding unf Let_def using pat
      by (simp only: neg if_False dv mult_zero_right den elo) simp
  qed
qed

lemma bits_split:
  fixes u :: int
  assumes "0 \<le> u" "u < 4294967296"
  shows "u = (u div 2147483648 mod 2) * 2147483648 + (u div 8388608 mod 256) * 8388608
             + u mod 8388608"
    and "u div 2147483648 mod 2 = 0 \<or> u div 2147483648 mod 2 = 1"
    and "0 \<le> u div 8388608 mod 256" "u div 8388608 mod 256 < 256"
    and "0 \<le> u mod 8388608" "u mod 8388608 < 8388608"
proof -
  define a where "a = u div 8388608"
  have 1: "u = a * 8388608 + u mod 8388608"
    by (simp add: a_def)
  have 3: "a div 256 = u div 2147483648"
    unfolding a_def by (simp add: div_mult2_eq)
  have "a = (a div 256) * 256 + a mod 256"
    by simp
  then have 2: "a = (u div 2147483648) * 256 + a mod 256"
    by (simp only: 3)
  have "u div 2147483648 \<le> 4294967295 div 2147483648"
    using assms(2) by (intro zdiv_mono1) simp_all
  then have hi: "u div 2147483648 \<le> 1"
    by simp
  have lo: "0 \<le> u div 2147483648"
    using assms(1) by (simp add: pos_imp_zdiv_nonneg_iff)
  from lo hi have 4: "u div 2147483648 mod 2 = u div 2147483648"
    by simp
  have "a * 8388608 = (u div 2147483648) * 2147483648 + (a mod 256) * 8388608"
    by (subst 2) (simp add: algebra_simps)
  with 1 show "u = (u div 2147483648 mod 2) * 2147483648 + (u div 8388608 mod 256) * 8388608
             + u mod 8388608"
    unfolding 4 a_def by linarith
  show "u div 2147483648 mod 2 = 0 \<or> u div 2147483648 mod 2 = 1"
    by presburger
  show "0 \<le> u div 8388608 mod 256" "u div 8388608 mod 256 < 256"
    "0 \<le> u mod 8388608" "u mod 8388608 < 8388608"
    by simp_all
qed

lemma fp_decode_32:
  "fp_decode 23 8 u =
     (if u div 8388608 mod 256 = 255
      then (if u mod 8388608 = 0 then Inf (u div 2147483648 mod 2 = 1) else NaN)
      else if u div 8388608 mod 256 = 0 then Fin (u div 2147483648 mod 2 = 1) (u mod 8388608) (- 149)
      else Fin (u div 2147483648 mod 2 = 1) (u mod 8388608 + 8388608) (u div 8388608 mod 256 - 150))"
proof -
  have pw: "(2 :: int) ^ 23 = 8388608" "(2 :: int) ^ (23 + 8) = 2147483648" "(2 :: int) ^ 8 = 256"
    "2 - (2 :: int) ^ (8 - 1) - int 23 = - 149"
    by simp_all
  show ?thesis
    unfolding fp_decode_def Let_def fp_elo_def pw by simp
qed

lemma fp_signed_32: "fp_signed 23 8 s p = (if s then 2147483648 + p else p)"
  by (simp add: fp_signed_def)

lemma canonical_iff:
  "canonical m e \<longleftrightarrow>
   0 \<le> m \<and> m < 16777216 \<and> - 149 \<le> e \<and> e \<le> 104 \<and> (m < 8388608 \<longrightarrow> e = - 149)"
  by (simp add: canonical_def)

lemma decode_fin:
  assumes "0 \<le> u" "u < 4294967296" "fp_decode 23 8 u = Fin s m e"
  shows "canonical m e" and "u = fp_signed 23 8 s ((e + 149) * 8388608 + m)"
proof -
  define S E F where "S = u div 2147483648 mod 2" and "E = u div 8388608 mod 256"
    and "F = u mod 8388608"
  note b = bits_split [OF assms(1,2), folded S_def E_def F_def]
  have dec: "(if E = 255 then (if F = 0 then Inf (S = 1) else NaN)
              else if E = 0 then Fin (S = 1) F (- 149)
              else Fin (S = 1) (F + 8388608) (E - 150)) = Fin s m e"
    using assms(3) unfolding fp_decode_32 S_def E_def F_def .
  have ne: "E \<noteq> 255"
    using dec by (auto split: if_splits)
  show "canonical m e"
  proof (cases "E = 0")
    case True
    with dec b(5,6) show ?thesis by (auto simp add: canonical_iff)
  next
    case False
    with dec ne b(3-6) show ?thesis by (auto simp add: canonical_iff)
  qed
  show "u = fp_signed 23 8 s ((e + 149) * 8388608 + m)"
  proof (cases "E = 0")
    case True
    with dec have "s = (S = 1)" "m = F" "e = - 149" by simp_all
    with b(1,2) True show ?thesis
      by (auto simp add: fp_signed_32)
  next
    case False
    with dec ne have "s = (S = 1)" "m = F + 8388608" "e = E - 150" by simp_all
    with b(1,2) show ?thesis
      by (auto simp add: fp_signed_32)
  qed
qed

lemma decode_inf:
  assumes "0 \<le> u" "u < 4294967296" "fp_decode 23 8 u = Inf s"
  shows "u = fp_signed 23 8 s 2139095040"
proof -
  define S E F where "S = u div 2147483648 mod 2" and "E = u div 8388608 mod 256"
    and "F = u mod 8388608"
  note b = bits_split [OF assms(1,2), folded S_def E_def F_def]
  have dec: "(if E = 255 then (if F = 0 then Inf (S = 1) else NaN)
              else if E = 0 then Fin (S = 1) F (- 149)
              else Fin (S = 1) (F + 8388608) (E - 150)) = Inf s"
    using assms(3) unfolding fp_decode_32 S_def E_def F_def .
  then have "E = 255" "F = 0" "s = (S = 1)"
    by (auto split: if_splits)
  with b(1,2) show ?thesis
    by (auto simp add: fp_signed_32)
qed





lemma f32_decode_fin:
  assumes "f32_decode w = Fin s m e"
  shows "canonical m e" and "w = f32_encode s m e"
proof -
  have u: "0 \<le> uint w" "uint w < 4294967296"
    using uint_lt2p [of w] by simp_all
  from decode_fin [OF u] assms show "canonical m e"
    by (simp add: f32_decode_def)
  from decode_fin(2) [OF u] assms have "uint w = fp_signed 23 8 s ((e + 149) * 8388608 + m)"
    by (simp add: f32_decode_def)
  then have "word_of_int (uint w) = f32_encode s m e"
    by (simp only: f32_encode_def)
  then show "w = f32_encode s m e"
    by simp
qed

lemma f32_decode_inf:
  assumes "f32_decode w = Inf s"
  shows "w = f32_inf s"
proof -
  have u: "0 \<le> uint w" "uint w < 4294967296"
    using uint_lt2p [of w] by simp_all
  from decode_inf [OF u] assms have "uint w = fp_signed 23 8 s 2139095040"
    by (simp add: f32_decode_def)
  then have "word_of_int (uint w) = (word_of_int (fp_signed 23 8 s 2139095040) :: f32)"
    by simp
  then show ?thesis
    by (simp add: f32_inf_def fp_signed_32)
qed


lemma f32_round_exact:
  assumes "canonical m e" "0 < m"
  shows "f32_round s (m * 2 ^ j) 1 (e - int j) = f32_encode s m e"
  using round_exact [OF assms, of j] by (simp add: f32_round_def f32_encode_def)


lemma decode_zero: "f32_decode 0 = Fin False 0 (- 149)"
  by (simp add: f32_decode_def fp_decode_32)



lemma f32_add_zero:
  assumes "\<not> f32_is_nan v" "v \<noteq> 0x80000000"
  shows "f32_add v 0 = v"
proof (cases "f32_decode v")
  case NaN
  with assms show ?thesis by (simp add: f32_is_nan_def)
next
  case (Inf s)
  then show ?thesis
    using assms f32_decode_inf [OF Inf]
    by (simp add: f32_add_def f32_nan2_def f32_is_nan_def decode_zero)
next
  case (Fin s m e)
  note c = f32_decode_fin [OF Fin]
  have ce: "0 \<le> m" "- 149 \<le> e"
    using c(1) by (simp_all add: canonical_iff)
  have add: "f32_add v 0 = f32_add_fv (Fin s m e) (Fin False 0 (- 149))"
    using assms by (simp add: f32_add_def f32_nan2_def f32_is_nan_def decode_zero Fin)
  show ?thesis
  proof (cases "m = 0")
    case True
    with c(1) have "e = - 149" by (simp add: canonical_iff)
    with True have "v = f32_zero s"
      using c(2) by (simp add: f32_encode_def fp_signed_32 f32_zero_def)
    with assms(2) have "\<not> s" "v = 0"
      by (auto simp add: f32_zero_def)
    then show ?thesis
      unfolding add using True by (simp add: sgn_int_def f32_zero_def)
  next
    case False
    with ce have m: "0 < m" by simp
    have mn: "min e (- 149) = - 149"
      using ce by simp
    have "0 < m * 2 ^ nat (e + 149)"
      using m by simp
    then have pos: "\<not> m * 2 ^ nat (e + 149) < 0" "m * 2 ^ nat (e + 149) \<noteq> 0"
      by linarith+
    have "f32_add_fv (Fin s m e) (Fin False 0 (- 149))
          = f32_round s (m * 2 ^ nat (e + 149)) 1 (e - int (nat (e + 149)))"
      using m ce pos by (simp add: Let_def mn sgn_int_def)
    also have "\<dots> = f32_encode s m e"
      using c(1) m by (rule f32_round_exact)
    finally show ?thesis
      unfolding add using c(2) by simp
  qed
qed







lemma and_all_ones: "(w :: 32 word) AND 0xFFFFFFFF = w"
proof -
  have "(0xFFFFFFFF :: 32 word) = - 1" by simp
  then show ?thesis by (simp only: and.right_neutral)
qed















text \<open>
  Every finite \<^verbatim>\<open>float\<close> is a normal \<^verbatim>\<open>double\<close>: the conversion to \<^verbatim>\<open>double\<close> keeps the value,
  and converting back returns the \<^verbatim>\<open>float\<close>.
\<close>

lemma round_double:
  assumes "canonical m e" "0 < m"
  defines "t \<equiv> nat (53 - bit_length m)"
  shows "4503599627370496 \<le> m * 2 ^ t" and "m * 2 ^ t < 9007199254740992"
    and "fp_round_mag 52 11 m 1 e = (e - int t + 1074) * 2 ^ 52 + m * 2 ^ t"
proof -
  have c: "m < 2 ^ 24" "- 149 \<le> e" "e \<le> 104"
    using assms(1) by (simp_all add: canonical_def)
  have bl: "1 \<le> bit_length m" "bit_length m \<le> 24"
  proof -
    show "1 \<le> bit_length m"
      using bit_length_pos [OF assms(2)] bit_length_nonneg [of "m div 2"] by simp
    have "(2 :: int) ^ nat (bit_length m - 1) < 2 ^ 24"
      using bit_length_bounds [OF assms(2)] c(1) by linarith
    then have "nat (bit_length m - 1) < 24"
      by (simp only: power_strict_increasing_iff one_less_numeral_iff semiring_norm)
    then show "bit_length m \<le> 24"
      by linarith
  qed
  have t: "int t = 53 - bit_length m"
    using bl by (simp add: t_def)
  have M: "0 < m * 2 ^ t"
    using assms(2) by simp
  have blM: "bit_length (m * 2 ^ t) = 53"
    using bit_length_shift [OF assms(2), of t] t by simp
  show rng: "4503599627370496 \<le> m * 2 ^ t" "m * 2 ^ t < 9007199254740992"
    using bit_length_bounds [OF M] unfolding blM by simp_all
  have tr: "29 \<le> int t" "int t \<le> 52"
    using t bl by simp_all
  have elo: "fp_elo 52 11 = - 1074"
    by (simp add: fp_elo_def)
  have ex: "max (floor_log2_quot m 1 + e - int 52) (fp_elo 52 11) = e - int t"
    using t tr c by (simp add: floor_log2_quot_one [OF assms(2)] elo)
  have pat: "(e - int t + 1074) * 2 ^ 52 + m * 2 ^ t < fp_inf_mag 52 11"
  proof -
    have "(e - int t + 1074) * 2 ^ 52 \<le> 1149 * (2 :: int) ^ 52"
      using c(3) tr by simp
    with rng(2) show ?thesis
      by (simp add: fp_inf_mag_def)
  qed
  have unf: "fp_round_mag 52 11 m 1 e
    = (let sh = e - (e - int t);
           num = (if 0 \<le> sh then m * 2 ^ nat sh else m);
           den = (if 0 \<le> sh then 1 else 1 * 2 ^ nat (- sh));
           q1 = num div den;
           r = num mod den;
           q' = (if den < 2 * r \<or> (2 * r = den \<and> odd q1) then q1 + 1 else q1);
           pat = (e - int t - fp_elo 52 11) * 2 ^ 52 + q'
       in if fp_inf_mag 52 11 \<le> pat then fp_inf_mag 52 11 else pat)"
    using assms(2) unfolding fp_round_mag_def Let_def ex by simp
  show "fp_round_mag 52 11 m 1 e = (e - int t + 1074) * 2 ^ 52 + m * 2 ^ t"
    unfolding unf using pat by (simp add: elo)
qed

lemma fp_decode_64:
  "fp_decode 52 11 u =
     (if u div 4503599627370496 mod 2048 = 2047
      then (if u mod 4503599627370496 = 0 then Inf (u div 9223372036854775808 mod 2 = 1) else NaN)
      else if u div 4503599627370496 mod 2048 = 0
      then Fin (u div 9223372036854775808 mod 2 = 1) (u mod 4503599627370496) (- 1074)
      else Fin (u div 9223372036854775808 mod 2 = 1) (u mod 4503599627370496 + 4503599627370496)
             (u div 4503599627370496 mod 2048 - 1075))"
proof -
  have pw: "(2 :: int) ^ 52 = 4503599627370496" "(2 :: int) ^ (52 + 11) = 9223372036854775808"
    "(2 :: int) ^ 11 = 2048" "2 - (2 :: int) ^ (11 - 1) - int 52 = - 1074"
    by simp_all
  show ?thesis
    unfolding fp_decode_def Let_def fp_elo_def pw by simp
qed

lemma fp_signed_64: "fp_signed 52 11 s p = (if s then 9223372036854775808 + p else p)"
  by (simp add: fp_signed_def)

lemma divmod_add:
  fixes A K F :: int
  assumes "0 \<le> F" "F < K"
  shows "(A * K + F) div K = A" and "(A * K + F) mod K = F"
proof -
  have k: "K \<noteq> 0"
    using assms by simp
  have "F div K = 0"
    using assms by (rule div_pos_pos_trivial)
  moreover have "(A * K + F) div K = A + F div K"
    using k by simp
  ultimately show "(A * K + F) div K = A"
    by simp
  show "(A * K + F) mod K = F"
    using assms by (simp add: mod_pos_pos_trivial)
qed

lemma fields_64:
  fixes E F :: int and s :: bool
  assumes "0 \<le> E" "E < 2048" "0 \<le> F" "F < 4503599627370496"
  defines "u \<equiv> (if s then 9223372036854775808 else 0) + (E * 4503599627370496 + F)"
  shows "u mod 4503599627370496 = F" and "u div 4503599627370496 mod 2048 = E"
    and "(u div 9223372036854775808 mod 2 = 1) = s" and "0 \<le> u" and "u < 18446744073709551616"
proof -
  define S :: int where "S = (if s then 1 else 0)"
  have S: "0 \<le> S" "S \<le> 1"
    by (simp_all add: S_def)
  define A where "A = S * 2048 + E"
  have u1: "u = A * 4503599627370496 + F"
    by (simp add: u_def S_def A_def)
  show "u mod 4503599627370496 = F"
    unfolding u1 using assms(3,4) by (rule divmod_add(2))
  have d1: "u div 4503599627370496 = A"
    unfolding u1 using assms(3,4) by (rule divmod_add(1))
  have "(S * 2048 + E) mod 2048 = E"
    using assms(1,2) by (rule divmod_add(2))
  then show "u div 4503599627370496 mod 2048 = E"
    unfolding d1 A_def .
  define R where "R = E * 4503599627370496 + F"
  have R: "0 \<le> R" "R < 9223372036854775808"
    using assms(1-4) by (simp_all add: R_def)
  have u2: "u = S * 9223372036854775808 + R"
    by (simp add: u_def S_def R_def)
  have "u div 9223372036854775808 = S"
    unfolding u2 using R by (rule divmod_add(1))
  then show "(u div 9223372036854775808 mod 2 = 1) = s"
    by (simp add: S_def)
  show "0 \<le> u" "u < 18446744073709551616"
    unfolding u2 using R S by simp_all
qed

lemma f32_to_f64_decode:
  assumes "f32_decode x = Fin s m e" "0 < m"
  shows "f64_decode (f32_to_f64 x)
         = Fin s (m * 2 ^ nat (53 - bit_length m)) (e - int (nat (53 - bit_length m)))"
proof -
  note c = f32_decode_fin [OF assms(1)]
  define t where "t = nat (53 - bit_length m)"
  note r = round_double [OF c(1) assms(2), folded t_def]
  have ce: "- 149 \<le> e" "e \<le> 104"
    using c(1) by (simp_all add: canonical_iff)
  have bl: "1 \<le> bit_length m"
    using bit_length_pos [OF assms(2)] bit_length_nonneg [of "m div 2"] by simp
  then have tr: "int t \<le> 52"
    by (simp add: t_def)
  define E F where "E = e - int t + 1075" and "F = m * 2 ^ t - 4503599627370496"
  have EF: "0 \<le> E" "E < 2048" "0 \<le> F" "F < 4503599627370496"
    using ce tr r(1,2) by (simp_all add: E_def F_def)
  define u where "u = (if s then 9223372036854775808 else 0) + (E * 4503599627370496 + F)"
  note f = fields_64 [OF EF, of s, folded u_def]
  have enc: "fp_signed 52 11 s (fp_round_mag 52 11 m 1 e) = u"
    unfolding r(3) fp_signed_64 u_def E_def F_def by (simp add: algebra_simps)
  have "f32_to_f64 x = word_of_int u"
    by (simp add: f32_to_f64_def assms(1) f64_round_def enc)
  moreover have "uint (word_of_int u :: f64) = u"
    using f(4,5) by (simp add: uint_word_of_int)
  ultimately have "f64_decode (f32_to_f64 x) = fp_decode 52 11 u"
    by (simp add: f64_decode_def)
  also have "\<dots> = Fin s (m * 2 ^ t) (e - int t)"
  proof -
    have "E \<noteq> 2047" "E \<noteq> 0"
      using ce tr by (simp_all add: E_def)
    then show ?thesis
      unfolding fp_decode_64 f(1-3) by (simp add: E_def F_def)
  qed
  finally show ?thesis
    by (simp only: t_def)
qed

lemma f64_decode_zero:
  "f64_decode 0 = Fin False 0 (- 1074)" "f64_decode 0x8000000000000000 = Fin True 0 (- 1074)"
  "f64_decode 0x7FF0000000000000 = Inf False" "f64_decode 0xFFF0000000000000 = Inf True"
  by (simp_all add: f64_decode_def fp_decode_64)

lemma float_round_trip:
  assumes "\<not> f32_is_nan x"
  shows "f64_to_f32 (f32_to_f64 x) = x"
proof (cases "f32_decode x")
  case NaN
  with assms show ?thesis by (simp add: f32_is_nan_def)
next
  case (Inf s)
  then show ?thesis
    using f32_decode_inf [OF Inf]
    by (cases s) (simp_all add: f32_to_f64_def f64_to_f32_def f64_decode_zero)
next
  case (Fin s m e)
  note c = f32_decode_fin [OF Fin]
  have cm: "0 \<le> m" "m < 8388608 \<longrightarrow> e = - 149"
    using c(1) by (simp_all add: canonical_iff)
  show ?thesis
  proof (cases "m = 0")
    case True
    then have x: "x = f32_zero s"
      using c(2) cm(2) by (simp add: f32_encode_def fp_signed_32 f32_zero_def)
    have "f32_to_f64 x = (if s then 0x8000000000000000 else 0)"
      using True by (simp add: f32_to_f64_def Fin f64_round_def fp_round_mag_def fp_signed_64)
    then have "f64_to_f32 (f32_to_f64 x) = f32_round s 0 1 (- 1074)"
      by (cases s) (simp_all add: f64_to_f32_def f64_decode_zero)
    also have "\<dots> = f32_zero s"
      by (simp add: f32_round_def fp_round_mag_def fp_signed_32 f32_zero_def)
    finally show ?thesis
      by (simp only: x)
  next
    case False
    with cm have m: "0 < m" by simp
    have "f64_to_f32 (f32_to_f64 x)
          = f32_round s (m * 2 ^ nat (53 - bit_length m)) 1 (e - int (nat (53 - bit_length m)))"
      by (simp add: f64_to_f32_def f32_to_f64_decode [OF Fin m])
    also have "\<dots> = f32_encode s m e"
      using c(1) m by (rule f32_round_exact)
    finally show ?thesis
      by (simp only: c(2))
  qed
qed

lemma pow2_split:
  fixes e :: int
  shows "2 ^ t * (if 0 \<le> e - int t then 2 ^ nat (e - int t) else 1 / 2 ^ nat (- (e - int t)))
         = (if 0 \<le> e then 2 ^ nat e else 1 / (2 :: real) ^ nat (- e))"
proof -
  have p: "(if 0 \<le> k then 2 ^ nat k else 1 / (2 :: real) ^ nat (- k)) = 2 powr real_of_int k" for k
    by (simp add: powr_real_of_int inverse_eq_divide)
  have "(2 :: real) ^ t = 2 powr real_of_int (int t)"
    by (simp add: powr_realpow)
  then show ?thesis
    unfolding p by (simp add: powr_add [symmetric])
qed

lemma f32_to_f64_value:
  assumes "f32_decode x = Fin s m e"
  shows "f64_value (f32_to_f64 x) = f32_value x"
proof (cases "m = 0")
  case True
  have "f32_to_f64 x = (if s then 0x8000000000000000 else 0)"
    using True by (simp add: f32_to_f64_def assms f64_round_def fp_round_mag_def fp_signed_64)
  then show ?thesis
    using True by (cases s) (simp_all add: f64_value_def f32_value_def assms f64_decode_zero)
next
  case False
  note c = f32_decode_fin [OF assms]
  have "0 \<le> m"
    using c(1) by (simp add: canonical_iff)
  with False have m: "0 < m" by simp
  define t where "t = nat (53 - bit_length m)"
  have "f64_value (f32_to_f64 x)
        = (if s then - 1 else 1) * real_of_int m
          * (2 ^ t * (if 0 \<le> e - int t then 2 ^ nat (e - int t)
                      else 1 / 2 ^ nat (- (e - int t))))"
    by (simp add: f64_value_def f32_to_f64_decode [OF assms m] t_def)
  then show ?thesis
    unfolding pow2_split by (simp add: f32_value_def assms)
qed

declare bit_length.simps [simp]

subsection \<open>Bounds for \<open>\<pi>\<close>\<close>

lemma pi_ge_three: "3 \<le> pi"
proof -
  have "sin (pi / 6) \<le> pi / 6"
    by (intro sin_x_le_x) simp
  then show ?thesis
    by (simp add: sin_30)
qed



subsection \<open>The scalar reference kernel and the remainder\<close>

lemma scalar_result_nth:
  "i < length mem \<Longrightarrow>
   scalar_result f amem lo hi mem ! i = (if lo \<le> i \<and> i < hi then f (amem ! i) else mem ! i)"
  by (simp add: scalar_result_def)

lemma kernel_result_nth:
  "i < length mem \<Longrightarrow>
   kernel_result lane w f amem n mem ! i
   = (if i < w * (n div w) then lane (amem ! i) else if i < n then f (amem ! i) else mem ! i)"
  by (simp add: kernel_result_def)

lemma library_sine_values:
  "f32_to_f64 0x3F800000 = 0x3FF0000000000000"
  "f32_to_f64 0x3F000000 = 0x3FE0000000000000"
  "f32_to_f64 0xC0800000 = 0xC010000000000000"
  "f64_to_f32 0x3FEAED548F090CEE = 0x3F576AA4"
  "f64_to_f32 0x3FDEAEE8744B05F0 = 0x3EF57744"
  "f64_to_f32 0x3FE837B9DDDC1EAE = 0x3F41BDCF"
  "f32_decode 0xC0800000 = Fin True 8388608 (- 21)"
  "f32_is_nan 0xC0800000 = False"
  by code_simp+

text \<open>
  Claim C2.  When both buffers hold at least \<^verbatim>\<open>num_points\<close> floats, the scalar reference
  kernel returns, and for every index \<open>i < num_points\<close> the output is the sine of the C
  library applied to \<open>input[i]\<close>: the library is called on the \<^verbatim>\<open>double\<close> that
  \<open>input[i]\<close> converts to, and its result is rounded to \<^verbatim>\<open>float\<close> by the assignment, with no
  other arithmetic; the rest of the output buffer is unchanged.  The conversion to
  \<^verbatim>\<open>double\<close> keeps the value of every finite \<^verbatim>\<open>float\<close>, and the conversion back returns
  every \<^verbatim>\<open>float\<close> that is not a NaN, so neither adds an approximation of its own.  (The
  library's sine is a parameter \<open>libm_sin\<close> of the kernels: it is not part of the source.)
\<close>

theorem generic_writes_platform_sine:
  assumes "unat num_points \<le> length (cells aVector)"
    and "unat num_points \<le> length (cells bVector)"
  shows "(\<exists>out. volk_32f_sin_32f_generic libm_sin bVector aVector num_points = Some out
           \<and> length out = length (cells bVector)
           \<and> (\<forall>i < unat num_points.
                  out ! i = f64_to_f32 (libm_sin (f32_to_f64 (cells aVector ! i))))
           \<and> (\<forall>i. unat num_points \<le> i \<longrightarrow> i < length (cells bVector) \<longrightarrow>
                  out ! i = cells bVector ! i))
         \<and> (f32_decode x = Fin s m e \<longrightarrow> f64_value (f32_to_f64 x) = f32_value x)
         \<and> (\<not> f32_is_nan x \<longrightarrow> f64_to_f32 (f32_to_f64 x) = x)"
proof -
  let ?f = "\<lambda>x. f64_to_f32 (libm_sin (f32_to_f64 x))"
  let ?out = "scalar_result ?f (cells aVector) 0 (unat num_points) (cells bVector)"
  have f: "c_sin libm_sin = ?f"
    by (rule ext) (simp only: c_sin_def)
  have "volk_32f_sin_32f_generic libm_sin bVector aVector num_points = Some ?out"
    using generic_closed [OF assms, of libm_sin] by (simp only: f)
  moreover have "length ?out = length (cells bVector)"
    by (simp add: scalar_result_def)
  moreover have "\<forall>i < unat num_points. ?out ! i = ?f (cells aVector ! i)"
    using assms(2) by (simp add: scalar_result_nth)
  moreover have "\<forall>i. unat num_points \<le> i \<longrightarrow> i < length (cells bVector) \<longrightarrow>
                   ?out ! i = cells bVector ! i"
    by (simp add: scalar_result_nth)
  moreover have "f32_decode x = Fin s m e \<longrightarrow> f64_value (f32_to_f64 x) = f32_value x"
    using f32_to_f64_value [of x s m e] by blast
  moreover have "\<not> f32_is_nan x \<longrightarrow> f64_to_f32 (f32_to_f64 x) = x"
    using float_round_trip [of x] by blast
  ultimately show ?thesis by blast
qed

theorem generic_writes_platform_sine_witness:
  "unat (3 :: 32 word) \<le> length (cells \<lparr>base = 12, cells = [0x3F800000, 0x3F000000, 0xC0800000, 0]\<rparr>)
   \<and> unat (3 :: 32 word) \<le> length (cells \<lparr>base = 0, cells = [7, 7, 7, 7]\<rparr>)
   \<and> (\<exists>out. volk_32f_sin_32f_generic
               (\<lambda>d. if d = 0x3FF0000000000000 then 0x3FEAED548F090CEE
                    else if d = 0x3FE0000000000000 then 0x3FDEAEE8744B05F0
                    else if d = 0xC010000000000000 then 0x3FE837B9DDDC1EAE else 0)
               \<lparr>base = 0, cells = [7, 7, 7, 7]\<rparr>
               \<lparr>base = 12, cells = [0x3F800000, 0x3F000000, 0xC0800000, 0]\<rparr> 3 = Some out
           \<and> out = [0x3F576AA4, 0x3EF57744, 0x3F41BDCF, 7])
   \<and> f32_decode 0xC0800000 = Fin True 8388608 (- 21)
   \<and> f64_value (f32_to_f64 0xC0800000) = f32_value 0xC0800000
   \<and> \<not> f32_is_nan 0xC0800000
   \<and> f64_to_f32 (f32_to_f64 0xC0800000) = 0xC0800000"
proof -
  let ?sin = "\<lambda>d :: f64. if d = 0x3FF0000000000000 then 0x3FEAED548F090CEE
                    else if d = 0x3FE0000000000000 then 0x3FDEAEE8744B05F0
                    else if d = 0xC010000000000000 then 0x3FE837B9DDDC1EAE else (0 :: f64)"
  let ?a = "\<lparr>base = 12, cells = [0x3F800000, 0x3F000000, 0xC0800000, 0 :: f32]\<rparr>"
  let ?b = "\<lparr>base = 0, cells = [7, 7, 7, 7 :: f32]\<rparr>"
  have n: "unat (3 :: 32 word) = 3"
    by simp
  have h1: "unat (3 :: 32 word) \<le> length (cells ?a)"
    and h2: "unat (3 :: 32 word) \<le> length (cells ?b)"
    by simp_all
  note res = generic_writes_platform_sine [OF h1 h2, of ?sin "0xC0800000" True 8388608 "- 21"]
  from res obtain out where out: "volk_32f_sin_32f_generic ?sin ?b ?a 3 = Some out"
    "length out = length (cells ?b)"
    "\<forall>i < unat (3 :: 32 word). out ! i = f64_to_f32 (?sin (f32_to_f64 (cells ?a ! i)))"
    "\<forall>i. unat (3 :: 32 word) \<le> i \<longrightarrow> i < length (cells ?b) \<longrightarrow> out ! i = cells ?b ! i"
    by blast
  have 0: "out ! 0 = 0x3F576AA4"
    using out(3) by (simp add: library_sine_values)
  have 1: "out ! 1 = 0x3EF57744"
    using out(3) by (simp add: library_sine_values)
  have 2: "out ! 2 = 0x3F41BDCF"
    using out(3) by (simp add: library_sine_values)
  have 3: "out ! 3 = 7"
    using out(4) by simp
  have len: "length out = 4"
    using out(2) by simp
  have "out = [0x3F576AA4, 0x3EF57744, 0x3F41BDCF, 7]"
  proof (rule nth_equalityI)
    show "length out = length [0x3F576AA4, 0x3EF57744, 0x3F41BDCF, 7 :: f32]"
      using len by simp
    fix i assume "i < length out"
    then have "i = 0 \<or> i = 1 \<or> i = 2 \<or> i = 3"
      using len by auto
    then show "out ! i = [0x3F576AA4, 0x3EF57744, 0x3F41BDCF, 7] ! i"
      using 0 1 2 3 by auto
  qed
  with out(1) have ex: "\<exists>out. volk_32f_sin_32f_generic ?sin ?b ?a 3 = Some out
      \<and> out = [0x3F576AA4, 0x3EF57744, 0x3F41BDCF, 7]"
    by blast
  have d: "f32_decode 0xC0800000 = Fin True 8388608 (- 21)" "\<not> f32_is_nan 0xC0800000"
    by (simp_all add: library_sine_values)
  from res d have "f64_value (f32_to_f64 0xC0800000) = f32_value 0xC0800000"
    "f64_to_f32 (f32_to_f64 0xC0800000) = 0xC0800000"
    by blast+
  with h1 h2 ex d show ?thesis
    by blast
qed

text \<open>
  Claim C7.  Let a vector kernel have \<open>w\<close> lanes, and let both buffers hold at least
  \<^verbatim>\<open>num_points\<close> floats and meet the alignment of the kernel.  Then the kernel returns; the
  first \<open>w * (num_points div w)\<close> outputs, that is exactly \<open>num_points div w\<close> full lane
  groups, are computed by the vector algorithm; every trailing index \<open>i\<close> up to
  \<^verbatim>\<open>num_points\<close> holds the scalar path's value for \<open>input[i]\<close>, bit for bit what the scalar
  reference kernel returns at \<open>i\<close>; and nothing beyond \<^verbatim>\<open>num_points\<close> is written.
\<close>

theorem remainder_is_scalar_path:
  assumes "(entry, w, lane, align) \<in> set vector_kernels"
    and "base aVector mod align = 0" "base bVector mod align = 0"
    and "unat n \<le> length (cells aVector)" "unat n \<le> length (cells bVector)"
  shows "\<exists>out ref. entry libm_sin bVector aVector n = Some out
           \<and> volk_32f_sin_32f_generic libm_sin bVector aVector n = Some ref
           \<and> length out = length (cells bVector)
           \<and> (\<forall>i < w * (unat n div w). out ! i = lane (cells aVector ! i))
           \<and> (\<forall>i. w * (unat n div w) \<le> i \<longrightarrow> i < unat n \<longrightarrow>
                  out ! i = c_sin libm_sin (cells aVector ! i) \<and> out ! i = ref ! i)
           \<and> (\<forall>i. unat n \<le> i \<longrightarrow> i < length (cells bVector) \<longrightarrow> out ! i = cells bVector ! i)"
proof -
  let ?out = "kernel_result lane w (c_sin libm_sin) (cells aVector) (unat n) (cells bVector)"
  let ?ref = "scalar_result (c_sin libm_sin) (cells aVector) 0 (unat n) (cells bVector)"
  have k: "entry libm_sin bVector aVector n = Some ?out"
    using assms
    by (auto simp add: vector_kernels_def a_avx2_fma_closed a_avx2_closed a_sse4_1_closed
        u_avx2_fma_closed u_avx2_closed u_sse4_1_closed)
  have g: "volk_32f_sin_32f_generic libm_sin bVector aVector n = Some ?ref"
    using assms(4,5) by (rule generic_closed)
  have inb: "i < length (cells bVector)" if "i < w * (unat n div w)" for i
  proof -
    have "w * (unat n div w) \<le> unat n"
      by simp
    with that assms(5) show ?thesis
      by (meson less_le_trans)
  qed
  have "length ?out = length (cells bVector)"
    by (simp add: kernel_result_def)
  moreover have "\<forall>i < w * (unat n div w). ?out ! i = lane (cells aVector ! i)"
    using inb by (simp add: kernel_result_nth)
  moreover have "\<forall>i. w * (unat n div w) \<le> i \<longrightarrow> i < unat n \<longrightarrow>
                   ?out ! i = c_sin libm_sin (cells aVector ! i) \<and> ?out ! i = ?ref ! i"
    using assms(5) by (simp add: kernel_result_nth scalar_result_nth)
  moreover have "\<forall>i. unat n \<le> i \<longrightarrow> i < length (cells bVector) \<longrightarrow> ?out ! i = cells bVector ! i"
  proof (intro allI impI)
    fix i assume i: "unat n \<le> i" "i < length (cells bVector)"
    have "w * (unat n div w) \<le> unat n"
      by simp
    with i(1) have "\<not> i < w * (unat n div w)" "\<not> i < unat n"
      by (meson leD le_trans)+
    with i(2) show "?out ! i = cells bVector ! i"
      by (simp add: kernel_result_nth)
  qed
  ultimately show ?thesis
    using k g by blast
qed

theorem remainder_is_scalar_path_witness:
  "(volk_32f_sin_32f_a_sse4_1, 4, lane_sin, 16) \<in> set vector_kernels
   \<and> base \<lparr>base = 64, cells = replicate 7 0x3F800000\<rparr> mod 16 = 0
   \<and> base \<lparr>base = 128, cells = replicate 7 0\<rparr> mod 16 = 0
   \<and> unat (7 :: 32 word) \<le> length (cells \<lparr>base = 64, cells = replicate 7 0x3F800000\<rparr>)
   \<and> unat (7 :: 32 word) \<le> length (cells \<lparr>base = 128, cells = replicate 7 0\<rparr>)
   \<and> (\<exists>out ref. volk_32f_sin_32f_a_sse4_1 (\<lambda>d. d) \<lparr>base = 128, cells = replicate 7 0\<rparr>
                   \<lparr>base = 64, cells = replicate 7 0x3F800000\<rparr> 7 = Some out
           \<and> volk_32f_sin_32f_generic (\<lambda>d. d) \<lparr>base = 128, cells = replicate 7 0\<rparr>
                   \<lparr>base = 64, cells = replicate 7 0x3F800000\<rparr> 7 = Some ref
           \<and> (\<forall>i. 4 \<le> i \<longrightarrow> i < 7 \<longrightarrow> out ! i = ref ! i))"
  using remainder_is_scalar_path [of volk_32f_sin_32f_a_sse4_1 4 lane_sin 16
      "\<lparr>base = 64, cells = replicate 7 0x3F800000\<rparr>" "\<lparr>base = 128, cells = replicate 7 0\<rparr>"
      7 "\<lambda>d. d"]
  by (auto simp add: vector_kernels_def)

subsection \<open>Range reduction\<close>

lemma conversion_values:
  "f32_floor 0x3F19999A = 0" "f32_floor 0xBF19999A = 0xBF800000"
  "f32_floor 0x40200000 = 0x40000000" "f32_floor 0xC0200000 = 0xC0400000"
  "f32_to_int32 0x3F19999A = 1" "f32_to_int32 0x3FC00000 = 2" "f32_to_int32 0x40200000 = 2"
  "f32_to_int32 0x40600000 = 4" "f32_to_int32 0xC0200000 = 0xFFFFFFFE"
  "int32_to_f32 0xFFFFFFFE = 0xC0000000" "int32_to_f32 0x01000001 = 0x4B800000"
  "int32_to_f32 0x01000003 = 0x4B800002"
  by code_simp+












subsection \<open>Series, angle doubling, reduced sine and cosine\<close>

text \<open>
  Claim C6, as the kernels have it.  In every lane, with \<open>s\<close> the reduced angle: \<open>u\<close> is
  the square of \<open>s / 8\<close>; the series is
  \<open>((((u * c5 - c4) * u + c3) * u - c2) * u + c1) * u\<close> with the literals \<open>c1 = 1.0\<close>,
  \<open>c2 = 0.83333333e-1\<close>, \<open>c3 = 0.2777778e-2\<close>, \<open>c4 = 0.49603e-4\<close> and \<open>c5 = 0.551e-6\<close>,
  subtractions and additions alternating (fused with the products in the AVX2+FMA
  kernels); \<open>t \<leftarrow> t * (4 - t)\<close> is applied exactly three times and the result is divided by
  2; the reduced sine is \<open>sqrt ((2 - t) * t)\<close> and the reduced cosine is \<open>1 - t\<close>.
\<close>

theorem series_and_angle_doubling:
  assumes "(poly, w, series) \<in> set vector_polys" and "length s = w"
  shows "poly s
         = (map (\<lambda>x. lane_sine (lane_t (series (lane_square x)))) s,
            map (\<lambda>x. lane_cosine (lane_t (series (lane_square x)))) s)
         \<and> lane_square x = f32_mul (f32_div x (float_of_lit 8 1)) (f32_div x (float_of_lit 8 1))
         \<and> (series = lane_series \<or> series = lane_series_fma)
         \<and> lane_series u
           = f32_mul (f32_add (f32_mul (f32_sub (f32_mul (f32_add (f32_mul (f32_sub
               (f32_mul u (float_of_lit 551 1000000000)) (float_of_lit 49603 1000000000)) u)
               (float_of_lit 2777778 1000000000)) u) (float_of_lit 83333333 1000000000)) u)
               (float_of_lit 1 1)) u
         \<and> lane_series_fma u
           = f32_mul (f32_fmadd (f32_fmsub (f32_fmadd (f32_fmsub
               u (float_of_lit 551 1000000000) (float_of_lit 49603 1000000000)) u
               (float_of_lit 2777778 1000000000)) u (float_of_lit 83333333 1000000000)) u
               (float_of_lit 1 1)) u
         \<and> lane_double t = f32_mul t (f32_sub (float_of_lit 4 1) t)
         \<and> lane_t p = f32_div (lane_double (lane_double (lane_double p))) (float_of_lit 2 1)
         \<and> lane_sine t = f32_sqrt (f32_mul (f32_sub (float_of_lit 2 1) t) t)
         \<and> lane_cosine t = f32_sub (float_of_lit 1 1) t"
proof -
  have "poly s
        = (map (\<lambda>x. lane_sine (lane_t (series (lane_square x)))) s,
           map (\<lambda>x. lane_cosine (lane_t (series (lane_square x)))) s)"
    using assms
    by (auto simp add: vector_polys_def a_avx2_fma_poly_lanes a_avx2_poly_lanes
        a_sse4_1_poly_lanes u_avx2_fma_poly_lanes u_avx2_poly_lanes u_sse4_1_poly_lanes)
  moreover have "series = lane_series \<or> series = lane_series_fma"
    using assms(1) by (auto simp add: vector_polys_def)
  ultimately show ?thesis
    by (simp add: lane_square_def lane_series_def lane_series_fma_def lane_double_def
        lane_t_def lane_sine_def lane_cosine_def)
qed

theorem series_and_angle_doubling_witness:
  "(a_sse4_1_poly, 4, lane_series) \<in> set vector_polys
   \<and> length [0x3F24FEC1, 0xBF121FB4, 0x3E9BC098, 0 :: f32] = 4
   \<and> a_sse4_1_poly [0x3F24FEC1, 0xBF121FB4, 0x3E9BC098, 0]
     = (map (\<lambda>x. lane_sine (lane_t (lane_series (lane_square x))))
          [0x3F24FEC1, 0xBF121FB4, 0x3E9BC098, 0],
        map (\<lambda>x. lane_cosine (lane_t (lane_series (lane_square x))))
          [0x3F24FEC1, 0xBF121FB4, 0x3E9BC098, 0])"
  using series_and_angle_doubling [of a_sse4_1_poly 4 lane_series
      "[0x3F24FEC1, 0xBF121FB4, 0x3E9BC098, 0]"]
  by (simp add: vector_polys_def)

lemma series_values:
  "lane_sine (lane_t (lane_series (lane_square 0x3F24FEC1))) = 0x3F19CE97"
  "lane_sine (lane_t (spec_series_alt (lane_square 0x3F24FEC1))) = 0x3F19CE98"
  "lane_sine (lane_t (spec_series (lane_square 0x3F24FEC1))) = 0x3F19E0DE"
  by code_simp+

text \<open>
  The coefficients that claim C6 lists are the source's literals cut to fewer digits, and
  the claim does not say that the signs alternate.  For the reduced angle
  \<^verbatim>\<open>0x3F24FEC1\<close> (about 0.6445, which is its own reduced angle) the kernel's reduced sine is
  \<^verbatim>\<open>0x3F19CE97\<close>; the listed coefficients give \<^verbatim>\<open>0x3F19CE98\<close> with the signs of the
  source, and \<^verbatim>\<open>0x3F19E0DE\<close> by nested multiply-adds.
\<close>

theorem listed_coefficients_counterexample:
  "fst (a_sse4_1_poly (replicate 4 0x3F24FEC1)) ! 0 = 0x3F19CE97
   \<and> lane_sine (lane_t (spec_series_alt (lane_square 0x3F24FEC1))) = 0x3F19CE98
   \<and> lane_sine (lane_t (spec_series (lane_square 0x3F24FEC1))) = 0x3F19E0DE
   \<and> float_of_lit 83333333 1000000000 \<noteq> float_of_lit 833333 10000000"
proof -
  have "float_of_lit 83333333 1000000000 = 0x3DAAAAAB" "float_of_lit 833333 10000000 = 0x3DAAAAA6"
    by code_simp+
  then show ?thesis
    by (simp add: a_sse4_1_poly_lanes series_values)
qed

subsection \<open>Quadrant fix-up\<close>

lemma and_exp_cases: "(w :: 32 word) AND 2 ^ n = (if bit w n then 2 ^ n else 0)"
proof (cases "bit w n")
  case False
  then show ?thesis by (simp add: and_exp_eq_0_iff_not_bit)
next
  case True
  have "w AND 2 ^ n = 2 ^ n"
    by (rule bit_eqI) (use True in \<open>auto simp add: bit_and_iff bit_exp_iff\<close>)
  with True show ?thesis by simp
qed

lemma and_2_cases: "(w :: 32 word) AND 2 = (if bit w 1 then 2 else 0)"
  using and_exp_cases [of w 1] by simp

lemma and_4_cases: "(w :: 32 word) AND 4 = (if bit w 2 then 4 else 0)"
  using and_exp_cases [of w 2] by simp

lemma and_1_cases: "(w :: 32 word) AND 1 = (if bit w 0 then 1 else 0)"
  using and_exp_cases [of w 0] by simp

lemma cvt_small: "int32_to_f32 0 = 0" "int32_to_f32 2 = 0x40000000" "int32_to_f32 4 = 0x40800000"
  by code_simp+

lemma cmp_neq_masks:
  "f32_cmp 4 0 0 = 0" "f32_cmp 4 0x40000000 0 = 0xFFFFFFFF" "f32_cmp 4 0x40800000 0 = 0xFFFFFFFF"
  "f32_cmp 4 0xFFFFFFFF 0xFFFFFFFF = 0xFFFFFFFF" "f32_cmp 4 0xFFFFFFFF 0 = 0xFFFFFFFF"
  "f32_cmp 4 0 0xFFFFFFFF = 0xFFFFFFFF"
  by code_simp+

lemma cmp_lt_zero_mask:
  "f32_cmp 1 x 0 = f32_mask (is_negative x)" "f32_cmp (Suc 0) x 0 = f32_mask (is_negative x)"
  by (simp_all add: f32_cmp_def is_negative_def)

lemma lane_cond1_mask: "lane_cond1 q0 = f32_mask (bit (q0 + 1) 1)"
  by (simp add: lane_cond1_def and_2_cases cvt_small cmp_neq_masks f32_mask_def)

lemma lane_cond2_mask: "lane_cond2 x q0 = f32_mask (bit q0 2 \<or> is_negative x)"
  by (simp add: lane_cond2_def and_4_cases cvt_small cmp_neq_masks cmp_lt_zero_mask f32_mask_def)

lemma lane_blend_cases:
  "lane_blend q0 sine cosine
   = (if bit (q0 + 1) 1 then f32_add sine (f32_sub cosine sine) else f32_add sine 0)"
  by (simp add: lane_blend_def lane_cond1_mask f32_mask_def and_all_ones)

lemma lane_negate_cases:
  "lane_negate x q0 v
   = (if bit q0 2 \<or> is_negative x then f32_sub v (f32_mul v (floatf_lit 2 1)) else f32_sub v 0)"
  by (simp add: lane_negate_def lane_cond2_mask f32_mask_def and_all_ones)

lemma bit1_even_round: "bit (lane_q q0 + 1) 1 = bit (q0 + 1) 1"
proof (cases "bit q0 0")
  case False
  then show ?thesis by (simp add: lane_q_def and_1_cases)
next
  case True
  then have "odd q0" by (simp add: bit_0)
  then have ev: "even (q0 + 1)" by simp
  have "lane_q q0 + 1 = (q0 + 1) + 1"
    using True by (simp add: lane_q_def and_1_cases)
  also have "\<dots> = (q0 + 1) OR 1"
    using ev by (simp add: or_one_eq)
  finally show ?thesis
    by (simp add: bit_or_iff bit_1_iff)
qed

lemma fixup_lane:
  assumes "(fixup, w) \<in> set vector_fixups"
    and "length aVal = w" "length q = w" "length sine = w" "length cosine = w" "i < w"
  shows "fixup aVal q sine cosine ! i = lane_fixup (aVal ! i) (q ! i) (sine ! i) (cosine ! i)"
  using assms
  by (auto simp add: vector_fixups_def a_avx2_fma_fixup_lanes a_avx2_fixup_lanes
      a_sse4_1_fixup_lanes u_avx2_fma_fixup_lanes u_avx2_fixup_lanes u_sse4_1_fixup_lanes)

text \<open>
  Claim C4, as the kernels have it.  In every lane of every vector kernel's fix-up, the
  value that goes into the sign step is \<open>sine + (cosine - sine)\<close>, computed in \<^verbatim>\<open>float\<close>,
  exactly when bit 1 of \<open>q0 + 1\<close> is set, and \<open>sine + 0\<close> otherwise: the difference is
  ANDed with the comparison mask and added, without a branch.  Bit 1 of \<open>q0 + 1\<close> is also
  bit 1 of \<open>q + 1\<close> for the index \<open>q = q0 + (q0 & 1)\<close>.
\<close>

theorem cosine_blend_by_mask:
  assumes "(fixup, w) \<in> set vector_fixups"
    and "length aVal = w" "length q = w" "length sine = w" "length cosine = w" "i < w"
  shows "fixup aVal q sine cosine ! i
         = lane_negate (aVal ! i) (q ! i)
             (if bit (q ! i + 1) 1 then f32_add (sine ! i) (f32_sub (cosine ! i) (sine ! i))
              else f32_add (sine ! i) 0)
         \<and> lane_blend (q ! i) (sine ! i) (cosine ! i)
           = f32_add (sine ! i) (f32_sub (cosine ! i) (sine ! i) AND lane_cond1 (q ! i))
         \<and> lane_cond1 (q ! i) = f32_mask (bit (q ! i + 1) 1)
         \<and> bit (lane_q (q ! i) + 1) 1 = bit (q ! i + 1) 1"
proof -
  have "fixup aVal q sine cosine ! i
        = lane_negate (aVal ! i) (q ! i) (lane_blend (q ! i) (sine ! i) (cosine ! i))"
    using fixup_lane [OF assms] by (simp only: lane_fixup_def)
  then have "fixup aVal q sine cosine ! i
        = lane_negate (aVal ! i) (q ! i)
            (if bit (q ! i + 1) 1 then f32_add (sine ! i) (f32_sub (cosine ! i) (sine ! i))
             else f32_add (sine ! i) 0)"
    by (simp only: lane_blend_cases)
  moreover have "lane_blend (q ! i) (sine ! i) (cosine ! i)
        = f32_add (sine ! i) (f32_sub (cosine ! i) (sine ! i) AND lane_cond1 (q ! i))"
    by (simp only: lane_blend_def)
  moreover note lane_cond1_mask [of "q ! i"] bit1_even_round [of "q ! i"]
  ultimately show ?thesis
    by blast
qed

theorem cosine_blend_by_mask_witness:
  "(a_sse4_1_fixup, 4) \<in> set vector_fixups
   \<and> length (replicate 4 (0x3FF00000 :: f32)) = 4 \<and> length (replicate 4 (2 :: 32 word)) = 4
   \<and> length (replicate 4 (0x3E995C77 :: f32)) = 4 \<and> length (replicate 4 (0x3F743EF7 :: f32)) = 4
   \<and> (0 :: nat) < 4
   \<and> a_sse4_1_fixup (replicate 4 0x3FF00000) (replicate 4 2) (replicate 4 0x3E995C77)
        (replicate 4 0x3F743EF7) ! 0
     = lane_negate 0x3FF00000 2 (f32_add 0x3E995C77 (f32_sub 0x3F743EF7 0x3E995C77))"
proof -
  have "bit (3 :: 32 word) 1"
    by code_simp
  then show ?thesis
    using cosine_blend_by_mask [of a_sse4_1_fixup 4 "replicate 4 0x3FF00000" "replicate 4 2"
        "replicate 4 0x3E995C77" "replicate 4 0x3F743EF7" 0]
    by (simp add: vector_fixups_def)
qed

lemma blend_values:
  "lane_q0 (lane_abs 0x3FF00000) = 2"
  "lane_reduce (lane_abs 0x3FF00000) (lane_q 2) = 0x3E9BC098"
  "lane_sine (lane_t (lane_series (lane_square 0x3E9BC098))) = 0x3E995C77"
  "lane_cosine (lane_t (lane_series (lane_square 0x3E9BC098))) = 0x3F743EF7"
  "lane_fixup 0x3FF00000 2 0x3E995C77 0x3F743EF7 = 0x3F743EF8"
  by code_simp+

text \<open>
  The blend is arithmetic, so its result need not be the reduced cosine of claim C4.  For
  the input 1.875 (\<^verbatim>\<open>0x3FF00000\<close>) the SSE4.1 body has \<open>q0 = 2\<close>, reduced sine
  \<^verbatim>\<open>0x3E995C77\<close> and reduced cosine \<^verbatim>\<open>0x3F743EF7\<close>; bit 1 of \<open>q0 + 1\<close> is set, the sign step
  changes nothing, and the lane is \<^verbatim>\<open>0x3F743EF8\<close>, one unit in the last place above the
  reduced cosine that \<open>spec_blend\<close> selects.
\<close>

theorem cosine_selected_counterexample:
  "a_sse4_1_reduce (replicate 4 0x3FF00000) = (replicate 4 0x3E9BC098, replicate 4 2)
   \<and> a_sse4_1_poly (replicate 4 0x3E9BC098) = (replicate 4 0x3E995C77, replicate 4 0x3F743EF7)
   \<and> a_sse4_1_body (replicate 4 0x3FF00000) = replicate 4 0x3F743EF8
   \<and> spec_blend 2 0x3E995C77 0x3F743EF7 = 0x3F743EF7"
proof -
  have "bit (3 :: 32 word) 1"
    by code_simp
  then show ?thesis
    by (simp add: a_sse4_1_reduce_lanes a_sse4_1_poly_lanes a_sse4_1_body_lanes lane_sin_def
        blend_values spec_blend_def)
qed

text \<open>
  Claim C3, as the kernels have it by design.  In every lane of every vector kernel's
  fix-up in which bit 2 of \<open>q0\<close> and a negative input do not come together, the value
  \<open>v\<close> that the blend produced is negated, as \<open>v - 2 * v\<close>, exactly when bit 2 of the
  floor index \<open>q0\<close> is set exclusive-or the input is negative, and is left as \<open>v - 0\<close>
  otherwise.  (The input counts as negative when the ordered comparison \<open>x < 0\<close> holds.)
\<close>

theorem sign_fixup_by_mask:
  assumes "(fixup, w) \<in> set vector_fixups"
    and "length aVal = w" "length q = w" "length sine = w" "length cosine = w" "i < w"
    and "\<not> (bit (q ! i) 2 \<and> is_negative (aVal ! i))"
  shows "fixup aVal q sine cosine ! i
         = (if bit (q ! i) 2 \<noteq> is_negative (aVal ! i)
            then f32_sub (lane_blend (q ! i) (sine ! i) (cosine ! i))
                   (f32_mul (lane_blend (q ! i) (sine ! i) (cosine ! i)) (floatf_lit 2 1))
            else f32_sub (lane_blend (q ! i) (sine ! i) (cosine ! i)) 0)"
proof -
  have "fixup aVal q sine cosine ! i
        = lane_negate (aVal ! i) (q ! i) (lane_blend (q ! i) (sine ! i) (cosine ! i))"
    using fixup_lane [OF assms(1-6)] by (simp only: lane_fixup_def)
  also have "\<dots> = (if bit (q ! i) 2 \<or> is_negative (aVal ! i)
            then f32_sub (lane_blend (q ! i) (sine ! i) (cosine ! i))
                   (f32_mul (lane_blend (q ! i) (sine ! i) (cosine ! i)) (floatf_lit 2 1))
            else f32_sub (lane_blend (q ! i) (sine ! i) (cosine ! i)) 0)"
    by (simp only: lane_negate_cases)
  finally show ?thesis
    using assms(7) by auto
qed

lemma sign_values:
  "lane_q0 (lane_abs 0x3F800000) = 1"
  "lane_reduce (lane_abs 0x3F800000) (lane_q 1) = 0xBF121FB4"
  "lane_sine (lane_t (lane_series (lane_square 0xBF121FB4))) = 0x3F0A513F"
  "lane_cosine (lane_t (lane_series (lane_square 0xBF121FB4))) = 0x3F576AA5"
  "lane_blend 1 0x3F0A513F 0x3F576AA5 = 0x3F576AA5"
  "lane_fixup 0x3F800000 1 0x3F0A513F 0x3F576AA5 = 0x3F576AA5"
  "spec_negate 0x3F800000 1 0x3F576AA5 = 0xBF576AA5"
  "spec_negate 0x3F800000 (lane_q 1) 0x3F576AA5 = 0xBF576AA5"
  "is_negative 0x3F800000 = False"
  by code_simp+

theorem sign_fixup_by_mask_witness:
  "(a_sse4_1_fixup, 4) \<in> set vector_fixups
   \<and> length (replicate 4 (0x3F800000 :: f32)) = 4 \<and> length (replicate 4 (1 :: 32 word)) = 4
   \<and> length (replicate 4 (0x3F0A513F :: f32)) = 4 \<and> length (replicate 4 (0x3F576AA5 :: f32)) = 4
   \<and> (0 :: nat) < 4
   \<and> \<not> (bit (replicate 4 (1 :: 32 word) ! 0) 2 \<and> is_negative (replicate 4 0x3F800000 ! 0))
   \<and> a_sse4_1_fixup (replicate 4 0x3F800000) (replicate 4 1) (replicate 4 0x3F0A513F)
        (replicate 4 0x3F576AA5) ! 0
     = f32_sub 0x3F576AA5 0"
  using sign_fixup_by_mask [of a_sse4_1_fixup 4 "replicate 4 0x3F800000" "replicate 4 1"
      "replicate 4 0x3F0A513F" "replicate 4 0x3F576AA5" 0]
  by (simp add: vector_fixups_def sign_values)

text \<open>
  Claim C3 as it is worded fails for the input 1.0 (\<^verbatim>\<open>0x3F800000\<close>): the SSE4.1 body has
  \<open>q0 = 1\<close> (and \<open>q = 2\<close>), so bit 2 of the index is zero, and the input is not negative;
  the claim's rule negates, while the kernel returns the blended value \<^verbatim>\<open>0x3F576AA5\<close>
  (about 0.8415, the sine of 1) unchanged.
\<close>

theorem sign_rule_as_worded_counterexample:
  "a_sse4_1_reduce (replicate 4 0x3F800000) = (replicate 4 0xBF121FB4, replicate 4 1)
   \<and> a_sse4_1_poly (replicate 4 0xBF121FB4) = (replicate 4 0x3F0A513F, replicate 4 0x3F576AA5)
   \<and> lane_blend 1 0x3F0A513F 0x3F576AA5 = 0x3F576AA5
   \<and> a_sse4_1_body (replicate 4 0x3F800000) = replicate 4 0x3F576AA5
   \<and> spec_negate 0x3F800000 1 0x3F576AA5 = 0xBF576AA5
   \<and> spec_negate 0x3F800000 (lane_q 1) 0x3F576AA5 = 0xBF576AA5"
  by (simp add: a_sse4_1_reduce_lanes a_sse4_1_poly_lanes a_sse4_1_body_lanes lane_sin_def
      sign_values)

subsection \<open>Negative zero\<close>

lemma negative_zero_values:
  "lane_sin 0x80000000 = 0" "lane_sin_fma 0x80000000 = 0"
  "f32_to_f64 0x80000000 = 0x8000000000000000" "f64_to_f32 0x8000000000000000 = 0x80000000"
  "is_negative 0x80000000 = False"
  by code_simp+

text \<open>
  Claim C10.  Let a vector kernel process an element equal to \<open>-0.0\<close> (\<^verbatim>\<open>0x80000000\<close>) in
  one of its full lane groups.  Then the output at that index is \<open>+0.0\<close>: the ordered
  comparison does not count \<open>-0.0\<close> as negative, and the square root returns \<open>+0.0\<close>.
  The scalar reference kernel writes \<open>-0.0\<close> at the same index, provided the sine of
  the C library returns \<open>-0.0\<close> for \<open>-0.0\<close>, as Annex F of the C standard asks.
\<close>

theorem negative_zero_loses_sign:
  assumes "(entry, w, lane, align) \<in> set vector_kernels"
    and "base aVector mod align = 0" "base bVector mod align = 0"
    and "unat n \<le> length (cells aVector)" "unat n \<le> length (cells bVector)"
    and "i < w * (unat n div w)" and "cells aVector ! i = 0x80000000"
    and "libm_sin 0x8000000000000000 = 0x8000000000000000"
  shows "\<exists>out ref. entry libm_sin bVector aVector n = Some out
           \<and> volk_32f_sin_32f_generic libm_sin bVector aVector n = Some ref
           \<and> out ! i = 0 \<and> ref ! i = 0x80000000 \<and> \<not> is_negative (cells aVector ! i)"
proof -
  let ?out = "kernel_result lane w (c_sin libm_sin) (cells aVector) (unat n) (cells bVector)"
  let ?ref = "scalar_result (c_sin libm_sin) (cells aVector) 0 (unat n) (cells bVector)"
  have k: "entry libm_sin bVector aVector n = Some ?out"
    using assms(1-5)
    by (auto simp add: vector_kernels_def a_avx2_fma_closed a_avx2_closed a_sse4_1_closed
        u_avx2_fma_closed u_avx2_closed u_sse4_1_closed)
  have g: "volk_32f_sin_32f_generic libm_sin bVector aVector n = Some ?ref"
    using assms(4,5) by (rule generic_closed)
  have "w * (unat n div w) \<le> unat n"
    by simp
  with assms(6) have i: "i < unat n"
    by (meson less_le_trans)
  with assms(5) have len: "i < length (cells bVector)"
    by simp
  have lane: "lane 0x80000000 = 0"
    using assms(1) by (auto simp add: vector_kernels_def negative_zero_values)
  have "?out ! i = 0"
    using len assms(6,7) lane by (simp add: kernel_result_nth)
  moreover have "?ref ! i = 0x80000000"
    using len i assms(7,8) by (simp add: scalar_result_nth c_sin_def negative_zero_values)
  ultimately show ?thesis
    using k g assms(7) by (simp add: negative_zero_values)
qed

theorem negative_zero_loses_sign_witness:
  "(volk_32f_sin_32f_u_avx2_fma, 8, lane_sin_fma, 1) \<in> set vector_kernels
   \<and> base \<lparr>base = 4, cells = replicate 9 0x80000000\<rparr> mod 1 = 0
   \<and> base \<lparr>base = 100, cells = replicate 9 7\<rparr> mod 1 = 0
   \<and> unat (9 :: 32 word) \<le> length (cells \<lparr>base = 4, cells = replicate 9 0x80000000\<rparr>)
   \<and> unat (9 :: 32 word) \<le> length (cells \<lparr>base = 100, cells = replicate 9 7\<rparr>)
   \<and> (3 :: nat) < 8 * (unat (9 :: 32 word) div 8)
   \<and> cells \<lparr>base = 4, cells = replicate 9 0x80000000\<rparr> ! 3 = 0x80000000
   \<and> (\<lambda>d :: f64. d) 0x8000000000000000 = 0x8000000000000000
   \<and> (\<exists>out ref. volk_32f_sin_32f_u_avx2_fma (\<lambda>d. d) \<lparr>base = 100, cells = replicate 9 7\<rparr>
                   \<lparr>base = 4, cells = replicate 9 0x80000000\<rparr> 9 = Some out
           \<and> volk_32f_sin_32f_generic (\<lambda>d. d) \<lparr>base = 100, cells = replicate 9 7\<rparr>
                   \<lparr>base = 4, cells = replicate 9 0x80000000\<rparr> 9 = Some ref
           \<and> out ! 3 = 0 \<and> ref ! 3 = 0x80000000)"
  using negative_zero_loses_sign [of volk_32f_sin_32f_u_avx2_fma 8 lane_sin_fma 1
      "\<lparr>base = 4, cells = replicate 9 0x80000000\<rparr>" "\<lparr>base = 100, cells = replicate 9 7\<rparr>"
      9 3 "\<lambda>d. d"]
  by (auto simp add: vector_kernels_def)

subsection \<open>Accuracy\<close>

lemma minus_four_values:
  "lane_sin 0xC0800000 = 0xBF41BDD2" "lane_sin_fma 0xC0800000 = 0xBF41BDD2"
  "f32_decode 0xC0800000 = Fin True 8388608 (- 21)"
  "f32_decode 0xBF41BDD2 = Fin True 12697042 (- 24)"
  "lane_q0 (lane_abs 0xC0800000) = 5" "is_negative 0xC0800000"
  by code_simp+

lemma sin_minus_four_positive: "0 < sin (- 4 :: real)"
proof -
  have "sin (4 :: real) < 0"
    using pi_less_4 pi_ge_three by (intro sin_lt_zero) simp_all
  then show ?thesis
    by simp
qed

text \<open>
  Claim C1 does not hold for the kernels as they are.  For the input \<open>-4.0\<close>
  (\<^verbatim>\<open>0xC0800000\<close>) every vector kernel returns \<^verbatim>\<open>0xBF41BDD2\<close>, about \<open>-0.7568\<close>, in a
  full lane group, while the sine of \<open>-4\<close> is positive (about \<open>+0.7568\<close>): here
  \<open>q0 = 5\<close> has bit 2 set and the input is negative, both masks are all ones, that is
  NaN patterns, and the unordered not-equal comparison of the two is true, so the kernel
  negates once more.
\<close>

theorem sine_of_minus_four_has_wrong_sign:
  "volk_32f_sin_32f_a_sse4_1 libm_sin \<lparr>base = 64, cells = replicate 8 0\<rparr>
     \<lparr>base = 128, cells = replicate 8 0xC0800000\<rparr> 8 = Some (replicate 8 0xBF41BDD2)
   \<and> volk_32f_sin_32f_u_sse4_1 libm_sin \<lparr>base = 64, cells = replicate 8 0\<rparr>
     \<lparr>base = 128, cells = replicate 8 0xC0800000\<rparr> 8 = Some (replicate 8 0xBF41BDD2)
   \<and> volk_32f_sin_32f_a_avx2 libm_sin \<lparr>base = 64, cells = replicate 8 0\<rparr>
     \<lparr>base = 128, cells = replicate 8 0xC0800000\<rparr> 8 = Some (replicate 8 0xBF41BDD2)
   \<and> volk_32f_sin_32f_u_avx2 libm_sin \<lparr>base = 64, cells = replicate 8 0\<rparr>
     \<lparr>base = 128, cells = replicate 8 0xC0800000\<rparr> 8 = Some (replicate 8 0xBF41BDD2)
   \<and> volk_32f_sin_32f_a_avx2_fma libm_sin \<lparr>base = 64, cells = replicate 8 0\<rparr>
     \<lparr>base = 128, cells = replicate 8 0xC0800000\<rparr> 8 = Some (replicate 8 0xBF41BDD2)
   \<and> volk_32f_sin_32f_u_avx2_fma libm_sin \<lparr>base = 64, cells = replicate 8 0\<rparr>
     \<lparr>base = 128, cells = replicate 8 0xC0800000\<rparr> 8 = Some (replicate 8 0xBF41BDD2)
   \<and> f32_value 0xC0800000 = - 4
   \<and> f32_value 0xBF41BDD2 < - 3 / 4
   \<and> 0 < sin (f32_value 0xC0800000)
   \<and> 3 / 4 < \<bar>f32_value 0xBF41BDD2 - sin (f32_value 0xC0800000)\<bar>"
proof -
  have res: "kernel_result lane w f (replicate 8 0xC0800000) 8 (replicate 8 0)
             = replicate 8 0xBF41BDD2"
    if "lane 0xC0800000 = 0xBF41BDD2" "w = 4 \<or> w = 8" for lane w f
    using that by (auto simp add: kernel_result_def intro!: nth_equalityI)
  have x: "f32_value 0xC0800000 = - 4"
    by (simp add: f32_value_def minus_four_values)
  have y: "f32_value 0xBF41BDD2 < - 3 / 4"
    by (simp add: f32_value_def minus_four_values)
  have s: "0 < sin (f32_value 0xC0800000)"
    using sin_minus_four_positive by (simp add: x)
  have d: "3 / 4 < \<bar>f32_value 0xBF41BDD2 - sin (f32_value 0xC0800000)\<bar>"
    using y s by linarith
  show ?thesis
    using x y s d
    by (simp add: a_sse4_1_closed u_sse4_1_closed a_avx2_closed u_avx2_closed a_avx2_fma_closed
        u_avx2_fma_closed res minus_four_values)
qed

end
